theory Spec2Isabelle
  imports Complex_Main
begin

section \<open>Python values and errors\<close>

text \<open>
  The functions of \<^verbatim>\<open>gtfstk/calculator.py\<close> work on Pandas data frames. A data frame
  is modelled as the list of its rows (a record per table), a raised exception as the
  left summand of a sum type.
\<close>

datatype error = KeyError | ValueError | TypeError | AttributeError

text \<open>
  \<^verbatim>\<open>frame.at[label, column]\<close> on a frame indexed by a key column: missing label raises
  KeyError, one row gives the scalar, several rows give a series (not a scalar).
\<close>

datatype 'a cell = Scalar 'a | NonScalar

definition at_label :: "('r \<Rightarrow> string) \<Rightarrow> 'r list \<Rightarrow> string \<Rightarrow> error + 'r cell" where
  "at_label key rows label =
     (case filter (\<lambda>r. key r = label) rows of
        [] \<Rightarrow> Inl KeyError
      | [r] \<Rightarrow> Inr (Scalar r)
      | _ \<Rightarrow> Inr NonScalar)"

text \<open>Python compares \<^verbatim>\<open>str\<close> values lexicographically by code point.\<close>

fun str_le :: "string \<Rightarrow> string \<Rightarrow> bool" where
  "str_le [] _ = True"
| "str_le (_ # _) [] = False"
| "str_le (a # as) (b # bs) =
     (if a = b then str_le as bs else (of_char a :: nat) < of_char b)"

section \<open>The feed\<close>

record calendar_row =
  cal_service_id :: string
  monday :: int
  tuesday :: int
  wednesday :: int
  thursday :: int
  friday :: int
  saturday :: int
  sunday :: int
  start_date :: string
  end_date :: string

record calendar_dates_row =
  cd_service_id :: string
  cd_date :: string
  exception_type :: int

record trip_row =
  trip_id :: string
  route_id :: string
  service_id :: string
  direction_id :: "int option"

text \<open>
  A cell of the \<^verbatim>\<open>departure_time\<close> column is a time string or missing (NaN, a float).
\<close>

datatype pyval = Str string | NaN

record stop_time_row =
  st_trip_id :: string
  st_stop_id :: string
  departure_time :: pyval

record route_row =
  r_route_id :: string
  r_route_short_name :: string

record stop_row =
  s_stop_id :: string

record feed =
  routes :: "route_row list option"
  stops :: "stop_row list option"
  trips :: "trip_row list option"
  stop_times :: "stop_time_row list option"
  calendar :: "calendar_row list option"
  calendar_dates :: "calendar_dates_row list option"

text \<open>
  \<^verbatim>\<open>Feed.__init__\<close>: the search indices \<^verbatim>\<open>trips_i\<close>, \<^verbatim>\<open>calendar_i\<close> and
  \<^verbatim>\<open>calendar_dates_g\<close> are \<^verbatim>\<open>None\<close> when the table is \<^verbatim>\<open>None\<close> or empty.
\<close>

definition index_of :: "'r list option \<Rightarrow> 'r list option" where
  "index_of t = (case t of None \<Rightarrow> None | Some rows \<Rightarrow> (if rows = [] then None else Some rows))"

definition trips_i :: "feed \<Rightarrow> trip_row list option" where
  "trips_i f = index_of (trips f)"

definition calendar_i :: "feed \<Rightarrow> calendar_row list option" where
  "calendar_i f = index_of (calendar f)"

definition calendar_dates_g :: "feed \<Rightarrow> calendar_dates_row list option" where
  "calendar_dates_g f = index_of (calendar_dates f)"

text \<open>
  \<^verbatim>\<open>caldg.get_group((service, date))\<close>: the rows of the group, in table order;
  \<^verbatim>\<open>(service, date) in caldg.groups\<close> holds when there is one.
\<close>

definition get_group :: "calendar_dates_row list \<Rightarrow> string \<Rightarrow> string \<Rightarrow> calendar_dates_row list" where
  "get_group caldg service date =
     filter (\<lambda>r. cd_service_id r = service \<and> cd_date r = date) caldg"

section \<open>Dates\<close>

text \<open>
  Modelled from the spec: \<^verbatim>\<open>utils.datestr_to_date\<close> and \<^verbatim>\<open>utils.weekday_to_str\<close>
  (module \<^verbatim>\<open>utilities\<close>) are not part of the sources at hand. Dates are strings
  of the format YYYYMMDD; a string that does not parse raises (ValueError);
  \<^verbatim>\<open>date.weekday()\<close> is 0 for Monday up to 6 for Sunday, and \<^verbatim>\<open>weekday_to_str\<close>
  names the calendar column of that weekday.
\<close>

definition is_digit :: "char \<Rightarrow> bool" where
  "is_digit c = (48 \<le> (of_char c :: nat) \<and> (of_char c :: nat) \<le> 57)"

definition digit_val :: "char \<Rightarrow> nat" where
  "digit_val c = of_char c - 48"

fun digits_val :: "string \<Rightarrow> nat" where
  "digits_val [] = 0"
| "digits_val (c # cs) = digit_val c * 10 ^ length cs + digits_val cs"

definition is_datestr :: "string \<Rightarrow> bool" where
  "is_datestr s = (length s = 8 \<and> list_all is_digit s)"

definition is_leap :: "nat \<Rightarrow> bool" where
  "is_leap y = (y mod 4 = 0 \<and> (y mod 100 \<noteq> 0 \<or> y mod 400 = 0))"

definition days_in_month :: "nat \<Rightarrow> nat \<Rightarrow> nat" where
  "days_in_month y m =
     (if m = 2 then (if is_leap y then 29 else 28)
      else if m = 4 \<or> m = 6 \<or> m = 9 \<or> m = 11 then 30 else 31)"

definition datestr_to_date :: "string \<Rightarrow> error + (nat \<times> nat \<times> nat)" where
  "datestr_to_date s =
     (if \<not> is_datestr s then Inl ValueError
      else let y = digits_val (take 4 s); m = digits_val (take 2 (drop 4 s));
               d = digits_val (drop 6 s)
           in if 1 \<le> y \<and> 1 \<le> m \<and> m \<le> 12 \<and> 1 \<le> d \<and> d \<le> days_in_month y m
              then Inr (y, m, d) else Inl ValueError)"

text \<open>Days since 1970-01-01 (a Thursday) in the proleptic Gregorian calendar.\<close>

definition days_from_civil :: "nat \<times> nat \<times> nat \<Rightarrow> int" where
  "days_from_civil ymd =
     (case ymd of (y, m, d) \<Rightarrow>
        let y' = (if m \<le> 2 then int y - 1 else int y);
            era = y' div 400;
            yoe = y' mod 400;
            mp = (if m > 2 then int m - 3 else int m + 9);
            doy = (153 * mp + 2) div 5 + int d - 1;
            doe = yoe * 365 + yoe div 4 - yoe div 100 + doy
        in era * 146097 + doe - 719468)"

definition weekday :: "nat \<times> nat \<times> nat \<Rightarrow> nat" where
  "weekday ymd = nat ((days_from_civil ymd + 3) mod 7)"

text \<open>\<^verbatim>\<open>cali.at[service, weekday_to_str(i)]\<close>: the flag of weekday \<open>i\<close> in a calendar row.\<close>

definition weekday_flag :: "calendar_row \<Rightarrow> nat \<Rightarrow> int" where
  "weekday_flag r i =
     (if i = 0 then monday r else if i = 1 then tuesday r else if i = 2 then wednesday r
      else if i = 3 then thursday r else if i = 4 then friday r
      else if i = 5 then saturday r else sunday r)"

section \<open>Service activity\<close>

text \<open>
  \<^verbatim>\<open>is_active_trip(feed, trip, date)\<close>. The service of the trip is read with
  \<^verbatim>\<open>feed.trips_i.at[trip, 'service_id']\<close>. A service that is not a scalar (duplicate
  trip ID) is unhashable in the membership tests (TypeError); a calendar cell that is
  not a scalar (duplicate service ID) has no truth value in the chained comparison
  (ValueError). The weekday is computed before the date range is compared.
\<close>

definition check_calendar_i :: "calendar_row list option \<Rightarrow> string cell \<Rightarrow> string \<Rightarrow> error + bool" where
  "check_calendar_i cali service date =
     (case cali of
        None \<Rightarrow> Inr False
      | Some rows \<Rightarrow>
          (case service of
             NonScalar \<Rightarrow> Inl TypeError
           | Scalar s \<Rightarrow>
               (case at_label cal_service_id rows s of
                  Inl _ \<Rightarrow> Inr False
                | Inr c \<Rightarrow>
                    (case datestr_to_date date of
                       Inl e \<Rightarrow> Inl e
                     | Inr ymd \<Rightarrow>
                         (case c of
                            NonScalar \<Rightarrow> Inl ValueError
                          | Scalar r \<Rightarrow>
                              (if str_le (start_date r) date \<and> str_le date (end_date r)
                                  \<and> weekday_flag r (weekday ymd) = 1
                               then Inr True else Inr False))))))"

definition is_active_trip :: "feed \<Rightarrow> string \<Rightarrow> string \<Rightarrow> error + bool" where
  "is_active_trip f trip date =
     (case trips_i f of
        None \<Rightarrow> Inl AttributeError
      | Some ti \<Rightarrow>
          (case at_label trip_id ti trip of
             Inl e \<Rightarrow> Inl e
           | Inr c \<Rightarrow>
               (let service = (case c of Scalar r \<Rightarrow> Scalar (service_id r) | NonScalar \<Rightarrow> NonScalar)
                in case calendar_dates_g f of
                     None \<Rightarrow> check_calendar_i (calendar_i f) service date
                   | Some caldg \<Rightarrow>
                       (case service of
                          NonScalar \<Rightarrow> Inl TypeError
                        | Scalar s \<Rightarrow>
                            (case get_group caldg s date of
                               [] \<Rightarrow> check_calendar_i (calendar_i f) service date
                             | g # _ \<Rightarrow>
                                 (if exception_type g = 1 then Inr True else Inr False))))))"

subsection \<open>The decision as the specification words it\<close>

text \<open>
  The specification's CalendarResolver decides from an exception of kind Added or Removed
  for the pair (service, date), else from the calendar entry of the service, else answers
  false. Its dates are calendar dates: they are compared by the number their digits
  YYYYMMDD denote.
\<close>

datatype exception_kind = Added | Removed

definition exception_for :: "feed \<Rightarrow> string \<Rightarrow> string \<Rightarrow> exception_kind option" where
  "exception_for f s d =
     (case calendar_dates f of
        None \<Rightarrow> None
      | Some rows \<Rightarrow>
          (case get_group rows s d of
             [] \<Rightarrow> None
           | g # _ \<Rightarrow> Some (if exception_type g = 1 then Added else Removed)))"

definition calendar_entry :: "feed \<Rightarrow> string \<Rightarrow> calendar_row option" where
  "calendar_entry f s =
     (case calendar f of
        None \<Rightarrow> None
      | Some rows \<Rightarrow> find (\<lambda>r. cal_service_id r = s) rows)"

definition is_active_spec :: "exception_kind option \<Rightarrow> calendar_row option \<Rightarrow> string \<Rightarrow> nat \<Rightarrow> bool" where
  "is_active_spec exc entry date wd =
     (case exc of
        Some k \<Rightarrow> (k = Added)
      | None \<Rightarrow>
          (case entry of
             Some r \<Rightarrow> digits_val (start_date r) \<le> digits_val date
                        \<and> digits_val date \<le> digits_val (end_date r)
                        \<and> weekday_flag r wd = 1
           | None \<Rightarrow> False))"

text \<open>
  The data model's invariants the decision relies on: one calendar entry per service
  identifier, and calendar dates in the format YYYYMMDD.
\<close>

definition unique_service :: "feed \<Rightarrow> string \<Rightarrow> bool" where
  "unique_service f s =
     (case calendar f of None \<Rightarrow> True
      | Some rows \<Rightarrow> length (filter (\<lambda>r. cal_service_id r = s) rows) \<le> 1)"

definition calendar_wf :: "feed \<Rightarrow> bool" where
  "calendar_wf f =
     (case calendar f of None \<Rightarrow> True
      | Some rows \<Rightarrow> list_all (\<lambda>r. is_datestr (start_date r) \<and> is_datestr (end_date r)) rows)"

text \<open>
  The specification's scenario: one service active Monday to Friday from 20200101 to
  20200131, added on Saturday 20200104 and removed on Monday 20200106.
\<close>

definition weekdays_calendar :: calendar_row where
  "weekdays_calendar =
     \<lparr>cal_service_id = ''S'', monday = 1, tuesday = 1, wednesday = 1, thursday = 1,
      friday = 1, saturday = 0, sunday = 0,
      start_date = ''20200101'', end_date = ''20200131''\<rparr>"

definition scenario_trip :: trip_row where
  "scenario_trip = \<lparr>trip_id = ''T'', route_id = ''R'', service_id = ''S'', direction_id = Some 0\<rparr>"

definition scenario_feed :: feed where
  "scenario_feed =
     \<lparr>routes = Some [\<lparr>r_route_id = ''R'', r_route_short_name = ''1''\<rparr>],
      stops = Some [\<lparr>s_stop_id = ''A''\<rparr>, \<lparr>s_stop_id = ''B''\<rparr>, \<lparr>s_stop_id = ''C''\<rparr>],
      trips = Some [scenario_trip],
      stop_times = None,
      calendar = Some [weekdays_calendar],
      calendar_dates = Some
        [\<lparr>cd_service_id = ''S'', cd_date = ''20200104'', exception_type = 1\<rparr>,
         \<lparr>cd_service_id = ''S'', cd_date = ''20200106'', exception_type = 2\<rparr>]\<rparr>"

section \<open>Active trips\<close>

text \<open>
  \<^verbatim>\<open>series.map(f)\<close> applies \<open>f\<close> to the cells in order; the first exception ends it.
\<close>

fun map_err :: "('a \<Rightarrow> error + 'b) \<Rightarrow> 'a list \<Rightarrow> error + 'b list" where
  "map_err g [] = Inr []"
| "map_err g (x # xs) =
     (case g x of
        Inl e \<Rightarrow> Inl e
      | Inr y \<Rightarrow> (case map_err g xs of Inl e \<Rightarrow> Inl e | Inr ys \<Rightarrow> Inr (y # ys)))"

text \<open>
  Python's \<^verbatim>\<open><=\<close> on the values of a departure time column: two strings compare
  lexicographically, a float (NaN) and a string raise TypeError, NaN against NaN is false.
\<close>

fun py_le :: "pyval \<Rightarrow> pyval \<Rightarrow> error + bool" where
  "py_le (Str x) (Str y) = Inr (str_le x y)"
| "py_le NaN NaN = Inr False"
| "py_le (Str x) NaN = Inl TypeError"
| "py_le NaN (Str y) = Inl TypeError"

text \<open>
  \<^verbatim>\<open>group['departure_time'].min()\<close> and \<^verbatim>\<open>.max()\<close> on the departure times of a
  group, an object column: a group of time strings has a least and a greatest string,
  a group of missing values only has NaN, and a group that mixes time strings and
  missing values makes the reducer compare a string with a float, which raises
  TypeError.
\<close>

fun strs :: "pyval list \<Rightarrow> string list" where
  "strs [] = []"
| "strs (Str s # vs) = s # strs vs"
| "strs (NaN # vs) = strs vs"

definition series_min :: "pyval list \<Rightarrow> error + pyval" where
  "series_min vs =
     (case strs vs of
        [] \<Rightarrow> Inr NaN
      | x # xs \<Rightarrow>
          (if NaN \<in> set vs then Inl TypeError
           else Inr (Str (fold (\<lambda>a m. if str_le m a then m else a) xs x))))"

definition series_max :: "pyval list \<Rightarrow> error + pyval" where
  "series_max vs =
     (case strs vs of
        [] \<Rightarrow> Inr NaN
      | x # xs \<Rightarrow>
          (if NaN \<in> set vs then Inl TypeError
           else Inr (Str (fold (\<lambda>a m. if str_le a m then m else a) xs x))))"

text \<open>
  The inner function \<^verbatim>\<open>F(group)\<close> of \<^verbatim>\<open>get_trips\<close>. The minimum and the maximum
  are taken before the \<^verbatim>\<open>try\<close>, so their exceptions leave the function. The chained
  comparison \<^verbatim>\<open>start <= time <= end\<close> evaluates \<^verbatim>\<open>time <= end\<close> only when
  \<^verbatim>\<open>start <= time\<close> holds, and \<^verbatim>\<open>except TypeError\<close> turns a TypeError of the
  comparison, and no other exception, into false.
\<close>

definition chained_le :: "pyval \<Rightarrow> pyval \<Rightarrow> pyval \<Rightarrow> error + bool" where
  "chained_le start time end =
     (case py_le start time of
        Inl e \<Rightarrow> Inl e
      | Inr b \<Rightarrow> (if b then py_le time end else Inr False))"

definition group_is_active :: "pyval \<Rightarrow> pyval list \<Rightarrow> error + bool" where
  "group_is_active time deps =
     (case series_min deps of
        Inl e \<Rightarrow> Inl e
      | Inr start \<Rightarrow>
          (case series_max deps of
             Inl e \<Rightarrow> Inl e
           | Inr stop \<Rightarrow>
               (case chained_le start time stop of
                  Inl e \<Rightarrow> (if e = TypeError then Inr False else Inl e)
                | Inr b \<Rightarrow> Inr b)))"

definition departures_of :: "stop_time_row list \<Rightarrow> string \<Rightarrow> pyval list" where
  "departures_of sts tid = map departure_time (filter (\<lambda>s. st_trip_id s = tid) sts)"

text \<open>
  \<^verbatim>\<open>get_trips(feed, date, time)\<close>. The merge with the stop times is an inner join on
  \<^verbatim>\<open>trip_id\<close>, so a trip without stop times has no group; the last merge keeps the
  rows of the active trips whose group is active, in the order of the trips table.
  When no active trip has stop times there is no group, and \<^verbatim>\<open>reset_index\<close> on the
  result of \<^verbatim>\<open>apply\<close> raises ValueError.
\<close>

definition active_on :: "feed \<Rightarrow> trip_row list \<Rightarrow> string \<Rightarrow> error + trip_row list" where
  "active_on fd f date =
     (case map_err (\<lambda>r. is_active_trip fd (trip_id r) date) f of
        Inl e \<Rightarrow> Inl e
      | Inr flags \<Rightarrow> Inr (map fst (filter snd (zip f flags))))"

definition active_at :: "stop_time_row list \<Rightarrow> trip_row list \<Rightarrow> pyval \<Rightarrow> error + trip_row list" where
  "active_at sts f time =
     (let groups = remdups (map trip_id (filter (\<lambda>r. departures_of sts (trip_id r) \<noteq> []) f))
      in case map_err (\<lambda>tid. group_is_active time (departures_of sts tid)) groups of
           Inl e \<Rightarrow> Inl e
         | Inr flags \<Rightarrow>
             (if groups = [] then Inl ValueError
              else
                (let h = map fst (filter snd (zip groups flags))
                 in Inr (filter (\<lambda>r. trip_id r \<in> set h) f))))"

definition get_trips :: "feed \<Rightarrow> string option \<Rightarrow> pyval option \<Rightarrow> error + trip_row list" where
  "get_trips fd date time =
     (case trips fd of
        None \<Rightarrow> Inl AttributeError
      | Some f \<Rightarrow>
          (case date of
             None \<Rightarrow> Inr f
           | Some d \<Rightarrow>
               (case active_on fd f d of
                  Inl e \<Rightarrow> Inl e
                | Inr f' \<Rightarrow>
                    (case time of
                       None \<Rightarrow> Inr f'
                     | Some t \<Rightarrow>
                         (case stop_times fd of
                            None \<Rightarrow> Inl TypeError
                          | Some sts \<Rightarrow> active_at sts f' t)))))"

section \<open>Trip activity and the busiest date\<close>

text \<open>
  \<^verbatim>\<open>compute_trips_activity(feed, dates)\<close> returns a data frame with the column
  \<^verbatim>\<open>trip_id\<close> and one column of 0/1 per date. \<^verbatim>\<open>not dates\<close> holds for \<^verbatim>\<open>None\<close>
  and for the empty list.
\<close>

record trips_activity =
  ta_columns :: "string list"
  ta_trip_id :: "string list"
  ta_dates :: "(string \<times> int list) list"

definition activity_column :: "feed \<Rightarrow> trip_row list \<Rightarrow> string \<Rightarrow> error + (string \<times> int list)" where
  "activity_column fd f date =
     (case map_err (\<lambda>r. is_active_trip fd (trip_id r) date) f of
        Inl e \<Rightarrow> Inl e
      | Inr flags \<Rightarrow> Inr (date, map (\<lambda>b. if b then 1 else 0) flags))"

definition compute_trips_activity :: "feed \<Rightarrow> string list option \<Rightarrow> error + trips_activity" where
  "compute_trips_activity fd dates =
     (if dates = None \<or> dates = Some []
      then Inr \<lparr>ta_columns = [''trip_id''], ta_trip_id = [], ta_dates = []\<rparr>
      else case trips fd of
             None \<Rightarrow> Inl AttributeError
           | Some f \<Rightarrow>
               (case map_err (activity_column fd f) (the dates) of
                  Inl e \<Rightarrow> Inl e
                | Inr cols \<Rightarrow>
                    Inr \<lparr>ta_columns = ''trip_id'' # the dates,
                         ta_trip_id = map trip_id f, ta_dates = cols\<rparr>))"

text \<open>
  \<^verbatim>\<open>get_busiest_date(feed, dates)\<close>: \<^verbatim>\<open>max(s)[1]\<close> for the list \<^verbatim>\<open>s\<close> of the pairs
  (number of active trips, date). Python orders the pairs by the count first, then by the
  date string, and \<^verbatim>\<open>max\<close> keeps the first of equal maxima. \<^verbatim>\<open>max\<close> of an empty
  list raises ValueError; iterating \<^verbatim>\<open>None\<close> raises TypeError. A date listed twice
  labels two columns, whose sum is a series: comparing the pairs then raises ValueError.
\<close>

definition pair_le :: "int \<times> string \<Rightarrow> int \<times> string \<Rightarrow> bool" where
  "pair_le p q = (fst p < fst q \<or> (fst p = fst q \<and> str_le (snd p) (snd q)))"

definition py_max :: "(int \<times> string) list \<Rightarrow> error + (int \<times> string)" where
  "py_max s =
     (case s of
        [] \<Rightarrow> Inl ValueError
      | p # ps \<Rightarrow> Inr (fold (\<lambda>q m. if pair_le q m then m else q) ps p))"

definition get_busiest_date :: "feed \<Rightarrow> string list option \<Rightarrow> error + string" where
  "get_busiest_date fd dates =
     (case compute_trips_activity fd dates of
        Inl e \<Rightarrow> Inl e
      | Inr f \<Rightarrow>
          (case dates of
             None \<Rightarrow> Inl TypeError
           | Some ds \<Rightarrow>
               (if \<not> distinct ds then Inl ValueError
                else case py_max (map (\<lambda>c. (sum_list (snd c), fst c)) (ta_dates f)) of
                       Inl e \<Rightarrow> Inl e
                     | Inr p \<Rightarrow> Inr (snd p))))"

text \<open>
  The scenario with three trips of the service: T with departure times, U whose
  departure times are missing, and V without stop times.
\<close>

definition scenario_feed2 :: feed where
  "scenario_feed2 =
     scenario_feed
       \<lparr>trips := Some [scenario_trip, scenario_trip\<lparr>trip_id := ''U''\<rparr>,
                       scenario_trip\<lparr>trip_id := ''V''\<rparr>],
        stop_times := Some
          [\<lparr>st_trip_id = ''T'', st_stop_id = ''A'', departure_time = Str ''07:00:00''\<rparr>,
           \<lparr>st_trip_id = ''T'', st_stop_id = ''B'', departure_time = Str ''07:15:00''\<rparr>,
           \<lparr>st_trip_id = ''T'', st_stop_id = ''C'', departure_time = Str ''07:30:00''\<rparr>,
           \<lparr>st_trip_id = ''U'', st_stop_id = ''A'', departure_time = NaN\<rparr>,
           \<lparr>st_trip_id = ''U'', st_stop_id = ''B'', departure_time = NaN\<rparr>]\<rparr>"

text \<open>
  The same feed where the trip T has no departure time at its second stop, as a trip
  has at a stop that is no time point.
\<close>

definition scenario_feed3 :: feed where
  "scenario_feed3 =
     scenario_feed2
       \<lparr>stop_times := Some
          [\<lparr>st_trip_id = ''T'', st_stop_id = ''A'', departure_time = Str ''07:00:00''\<rparr>,
           \<lparr>st_trip_id = ''T'', st_stop_id = ''B'', departure_time = NaN\<rparr>,
           \<lparr>st_trip_id = ''T'', st_stop_id = ''C'', departure_time = Str ''07:30:00''\<rparr>,
           \<lparr>st_trip_id = ''U'', st_stop_id = ''A'', departure_time = NaN\<rparr>,
           \<lparr>st_trip_id = ''U'', st_stop_id = ''B'', departure_time = NaN\<rparr>]\<rparr>"

text \<open>
  A group of departure times is uniform when its values are all time strings or all
  missing; its comparison with a time holds when the chained comparison of its minimum
  and maximum neither is false nor raises.
\<close>

definition uniform :: "pyval list \<Rightarrow> bool" where
  "uniform deps = (strs deps = [] \<or> NaN \<notin> set deps)"

definition group_flag :: "pyval \<Rightarrow> pyval list \<Rightarrow> bool" where
  "group_flag t deps =
     (case series_min deps of
        Inl e \<Rightarrow> False
      | Inr start \<Rightarrow>
          (case series_max deps of
             Inl e \<Rightarrow> False
           | Inr stop \<Rightarrow> chained_le start t stop = Inr True))"

section \<open>Trip statistics and headways\<close>

text \<open>
  A row of the trips statistics (the output of \<^verbatim>\<open>compute_trips_stats\<close>) as the
  aggregating functions read it: the start and end tms are in seconds past midnight,
  as after \<^verbatim>\<open>applymap(utils.timestr_to_seconds)\<close>; the direction is 0, 1 or missing;
  the distance is missing (NaN) when the feed has no shapes. Floating-point numbers are
  modelled by rationals, and a missing number by \<open>None\<close>.
\<close>

record trip_stats =
  ts_trip_id :: string
  ts_route_id :: string
  ts_route_short_name :: string
  ts_direction_id :: "int option"
  ts_is_loop :: int
  ts_start_time :: int
  ts_end_time :: int
  ts_distance :: "rat option"
  ts_duration :: rat

text \<open>
  Modelled from the spec: \<^verbatim>\<open>utils.timestr_to_seconds\<close> is not part of the sources at
  hand. A time string HH:MM:SS, the hour possibly 24 or more, denotes
  3600 HH + 60 MM + SS seconds past midnight; a string of another form is an error.
\<close>

definition timestr_to_seconds :: "string \<Rightarrow> error + int" where
  "timestr_to_seconds x =
     (case x of
        [h1, h2, c1, m1, m2, c2, s1, s2] \<Rightarrow>
          (if list_all is_digit [h1, h2, m1, m2, s1, s2] \<and> c1 = CHR '':'' \<and> c2 = CHR '':''
           then Inr (int (digits_val [h1, h2]) * 3600 + int (digits_val [m1, m2]) * 60
                     + int (digits_val [s1, s2]))
           else Inl ValueError)
      | _ \<Rightarrow> Inl ValueError)"

text \<open>
  The defaults of \<^verbatim>\<open>headway_start_time\<close> and \<^verbatim>\<open>headway_end_time\<close>, 07:00:00 and
  19:00:00, in seconds.
\<close>

definition headway_start_default :: int where
  "headway_start_default = 25200"

definition headway_end_default :: int where
  "headway_end_default = 68400"

text \<open>
  \<^verbatim>\<open>sorted([t for t in times if headway_start <= t <= headway_end])\<close>; a missing time
  compares false with both bounds.
\<close>

fun present :: "'a option list \<Rightarrow> 'a list" where
  "present [] = []"
| "present (None # xs) = present xs"
| "present (Some x # xs) = x # present xs"

definition in_window :: "int \<Rightarrow> int \<Rightarrow> int list \<Rightarrow> int list" where
  "in_window hs he tms = sort (filter (\<lambda>t. hs \<le> t \<and> t \<le> he) tms)"

text \<open>\<^verbatim>\<open>np.diff\<close>: the differences of consecutive elements.\<close>

fun diff :: "int list \<Rightarrow> int list" where
  "diff (x # y # xs) = (y - x) # diff (y # xs)"
| "diff [x] = []"
| "diff [] = []"

text \<open>\<^verbatim>\<open>np.max\<close>, \<^verbatim>\<open>np.min\<close> and \<^verbatim>\<open>np.mean\<close> of a non-empty array.\<close>

definition np_max :: "int list \<Rightarrow> int" where
  "np_max xs = fold max (tl xs) (hd xs)"

definition np_min :: "int list \<Rightarrow> int" where
  "np_min xs = fold min (tl xs) (hd xs)"

definition np_mean :: "int list \<Rightarrow> rat" where
  "np_mean xs = of_int (sum_list xs) / of_nat (length xs)"

text \<open>
  The three headway fields, in minutes; all three are NaN when there is no headway.
\<close>

record headway_stats =
  max_headway :: "rat option"
  min_headway :: "rat option"
  mean_headway :: "rat option"

definition headway_fields :: "int list \<Rightarrow> headway_stats" where
  "headway_fields headways =
     (if headways \<noteq> []
      then \<lparr>max_headway = Some (of_int (np_max headways) / 60),
            min_headway = Some (of_int (np_min headways) / 60),
            mean_headway = Some (np_mean headways / 60)\<rparr>
      else \<lparr>max_headway = None, min_headway = None, mean_headway = None\<rparr>)"

text \<open>
  The headways of \<^verbatim>\<open>compute_route_stats_split_directions\<close> (one grp per route and
  direction): the differences of the sorted start tms in the window.
\<close>

definition headways_split_directions :: "int \<Rightarrow> int \<Rightarrow> trip_stats list \<Rightarrow> int list" where
  "headways_split_directions hs he grp = diff (in_window hs he (map ts_start_time grp))"

text \<open>
  The headways of \<^verbatim>\<open>compute_route_stats\<close> (one grp per route): for the directions
  0 and 1 in turn, the differences of the sorted start tms in the window of the trips
  of that direction, concatenated.
\<close>

definition direction_headways :: "int \<Rightarrow> int \<Rightarrow> trip_stats list \<Rightarrow> int \<Rightarrow> int list" where
  "direction_headways hs he grp direction =
     diff (in_window hs he
       (map ts_start_time (filter (\<lambda>r. ts_direction_id r = Some direction) grp)))"

definition headways_both_directions :: "int \<Rightarrow> int \<Rightarrow> trip_stats list \<Rightarrow> int list" where
  "headways_both_directions hs he grp =
     fold (\<lambda>direction headways. headways @ direction_headways hs he grp direction) [0, 1] []"

text \<open>
  The headways of \<^verbatim>\<open>compute_stop_stats\<close>: the departure tms of the grp, in
  seconds or missing, filtered by the window and sorted, then
  \<^verbatim>\<open>[dtimes[i + 1] - dtimes[i] for i in range(len(dtimes) - 1)]\<close>.
\<close>

definition consecutive_differences :: "int list \<Rightarrow> int list" where
  "consecutive_differences dtimes =
     map (\<lambda>i. dtimes ! (i + 1) - dtimes ! i) [0 ..< length dtimes - 1]"

definition headways_stop :: "int \<Rightarrow> int \<Rightarrow> int option list \<Rightarrow> int list" where
  "headways_stop hs he departures = consecutive_differences (in_window hs he (present departures))"

section \<open>Peak number of trips\<close>

text \<open>
  \<^verbatim>\<open>count_active_trips(trips, time)\<close>: the number of rows with
  \<^verbatim>\<open>start_time <= time\<close> and \<^verbatim>\<open>end_time > time\<close>.
\<close>

definition count_active_trips :: "trip_stats list \<Rightarrow> int \<Rightarrow> nat" where
  "count_active_trips rows time =
     length (filter (\<lambda>r. ts_start_time r \<le> time \<and> ts_end_time r > time) rows)"

text \<open>\<^verbatim>\<open>np.unique(group[['start_time', 'end_time']].values)\<close>: sorted, without repetition.\<close>

definition sample_times :: "trip_stats list \<Rightarrow> int list" where
  "sample_times grp = sort (remdups (concat (map (\<lambda>r. [ts_start_time r, ts_end_time r]) grp)))"

text \<open>
  Modelled from the spec: \<^verbatim>\<open>utils.get_peak_indices\<close> is not part of the sources at
  hand. Given the sampled tms and the counts at these tms, the peak count is the
  maximum of the counts, and the peak window is the first, longest contiguous run of
  consecutive sampled tms at which the maximum holds. A run is given by the indices of
  its first and last sampled time; its span is the time between the two. Runs are
  enumerated by increasing first index, and a later run replaces the chosen one only
  when its span is strictly longer.
\<close>

definition is_max_run :: "nat list \<Rightarrow> nat \<Rightarrow> nat \<Rightarrow> bool" where
  "is_max_run counts s e =
     (let m = fold max counts 0; n = length counts
      in s \<le> e \<and> e < n \<and> list_all (\<lambda>i. counts ! i = m) [s ..< Suc e]
         \<and> (s = 0 \<or> counts ! (s - 1) \<noteq> m) \<and> (Suc e = n \<or> counts ! Suc e \<noteq> m))"

definition max_runs :: "nat list \<Rightarrow> (nat \<times> nat) list" where
  "max_runs counts =
     concat (map (\<lambda>s. map (\<lambda>e. (s, e)) (filter (is_max_run counts s) [s ..< length counts]))
                 [0 ..< length counts])"

definition span :: "int list \<Rightarrow> nat \<times> nat \<Rightarrow> int" where
  "span tms r = tms ! snd r - tms ! fst r"

fun first_longest :: "('a \<Rightarrow> int) \<Rightarrow> 'a \<Rightarrow> 'a list \<Rightarrow> 'a" where
  "first_longest f b [] = b"
| "first_longest f b (x # xs) = first_longest f (if f b < f x then x else b) xs"

definition get_peak_indices :: "int list \<Rightarrow> nat list \<Rightarrow> error + (nat \<times> nat)" where
  "get_peak_indices tms counts =
     (if counts = [] \<or> length tms \<noteq> length counts then Inl ValueError
      else case max_runs counts of
             [] \<Rightarrow> Inl ValueError
           | r # rs \<Rightarrow> Inr (first_longest (span tms) r rs))"

record peak_stats =
  peak_num_trips :: nat
  peak_start_time :: int
  peak_end_time :: int

text \<open>
  The peak fields of \<^verbatim>\<open>compute_route_stats\<close>, of
  \<^verbatim>\<open>compute_route_stats_split_directions\<close> and of \<^verbatim>\<open>compute_feed_stats\<close>.
\<close>

definition peak_fields :: "trip_stats list \<Rightarrow> error + peak_stats" where
  "peak_fields grp =
     (let tms = sample_times grp;
          counts = map (count_active_trips grp) tms
      in case get_peak_indices tms counts of
           Inl e \<Rightarrow> Inl e
         | Inr (s, e) \<Rightarrow>
             Inr \<lparr>peak_num_trips = counts ! s,
                  peak_start_time = tms ! s,
                  peak_end_time = tms ! e\<rparr>)"

text \<open>The headway fields of a group without headway, and of a group with one headway.\<close>

definition no_headways :: headway_stats where
  "no_headways = \<lparr>max_headway = None, min_headway = None, mean_headway = None\<rparr>"

definition one_headway :: "int \<Rightarrow> headway_stats" where
  "one_headway d =
     \<lparr>max_headway = Some (of_int d / 60), min_headway = Some (of_int d / 60),
      mean_headway = Some (of_int d / 60)\<rparr>"

section \<open>Route, stop and feed statistics\<close>

text \<open>
  A data frame that a function returns: its column labels and its rows.
  \<^verbatim>\<open>pd.DataFrame(columns=cols)\<close> is the frame with these columns and no row.
\<close>

record 'r table =
  tbl_columns :: "string list"
  tbl_rows :: "'r list"

definition empty_frame :: "string list \<Rightarrow> 'r table" where
  "empty_frame cols = \<lparr>tbl_columns = cols, tbl_rows = []\<rparr>"

text \<open>
  \<^verbatim>\<open>groupby\<close> orders the groups by their keys (strings by code point, then the
  direction) and keeps the rows of a group in the order of the frame.
\<close>

fun insort_by :: "('a \<Rightarrow> 'a \<Rightarrow> bool) \<Rightarrow> 'a \<Rightarrow> 'a list \<Rightarrow> 'a list" where
  "insort_by le x [] = [x]"
| "insort_by le x (y # ys) = (if le x y then x # y # ys else y # insort_by le x ys)"

definition sort_by :: "('a \<Rightarrow> 'a \<Rightarrow> bool) \<Rightarrow> 'a list \<Rightarrow> 'a list" where
  "sort_by le xs = foldr (insort_by le) xs []"

definition key_le :: "string \<times> int \<Rightarrow> string \<times> int \<Rightarrow> bool" where
  "key_le p q = (if fst p = fst q then snd p \<le> snd q else str_le (fst p) (fst q))"

text \<open>
  \<^verbatim>\<open>series.sum()\<close> skips missing values, and the sum of no value is 0. A quotient of
  floats is modelled where it is finite.
\<close>

definition sum_present :: "rat option list \<Rightarrow> rat option" where
  "sum_present xs = Some (sum_list (present xs))"

definition fdiv :: "rat option \<Rightarrow> rat \<Rightarrow> rat option" where
  "fdiv x y = (case x of None \<Rightarrow> None | Some a \<Rightarrow> (if y = 0 then None else Some (a / y)))"

record route_stats =
  rs_route_id :: string
  rs_direction_id :: "int option"
  rs_route_short_name :: string
  rs_num_trips :: nat
  rs_is_loop :: int
  rs_is_bidirectional :: int
  rs_start_time :: int
  rs_end_time :: int
  rs_headways :: headway_stats
  rs_peak :: peak_stats
  rs_service_distance :: "rat option"
  rs_service_duration :: rat
  rs_service_speed :: "rat option"
  rs_mean_trip_distance :: "rat option"
  rs_mean_trip_duration :: rat

text \<open>
  The fields that \<^verbatim>\<open>compute_route_stats_split_directions\<close> and
  \<^verbatim>\<open>compute_route_stats\<close> share, with the three columns that
  \<^verbatim>\<open>compute_routes_stats_base\<close> computes afterwards. The group is not empty. The
  times stay in seconds here; the source writes them back as time strings at the end.
\<close>

definition route_row_of ::
  "string \<Rightarrow> int option \<Rightarrow> int \<Rightarrow> int list \<Rightarrow> trip_stats list \<Rightarrow> error + route_stats" where
  "route_row_of route direction bidirectional headways grp =
     (case peak_fields grp of
        Inl e \<Rightarrow> Inl e
      | Inr peak \<Rightarrow>
          (let num_trips = length grp;
               service_distance = sum_present (map ts_distance grp);
               service_duration = sum_list (map ts_duration grp)
           in Inr \<lparr>rs_route_id = route,
                   rs_direction_id = direction,
                   rs_route_short_name = ts_route_short_name (hd grp),
                   rs_num_trips = num_trips,
                   rs_is_loop = (if list_ex (\<lambda>r. ts_is_loop r \<noteq> 0) grp then 1 else 0),
                   rs_is_bidirectional = bidirectional,
                   rs_start_time = np_min (map ts_start_time grp),
                   rs_end_time = np_max (map ts_end_time grp),
                   rs_headways = headway_fields headways,
                   rs_peak = peak,
                   rs_service_distance = service_distance,
                   rs_service_duration = service_duration,
                   rs_service_speed = fdiv service_distance service_duration,
                   rs_mean_trip_distance = fdiv service_distance (of_nat num_trips),
                   rs_mean_trip_duration = service_duration / of_nat num_trips\<rparr>))"

definition compute_route_stats_split_directions ::
  "int \<Rightarrow> int \<Rightarrow> trip_stats list \<Rightarrow> string \<times> int \<Rightarrow> error + route_stats" where
  "compute_route_stats_split_directions hs he f key =
     (let grp = filter (\<lambda>r. ts_route_id r = fst key \<and> ts_direction_id r = Some (snd key)) f;
          directions = remdups (present (map ts_direction_id (filter (\<lambda>r. ts_route_id r = fst key) f)))
      in route_row_of (fst key) (Some (snd key)) (if length directions > 1 then 1 else 0)
           (headways_split_directions hs he grp) grp)"

definition compute_route_stats :: "int \<Rightarrow> int \<Rightarrow> trip_stats list \<Rightarrow> string \<Rightarrow> error + route_stats" where
  "compute_route_stats hs he f route =
     (let grp = filter (\<lambda>r. ts_route_id r = route) f
      in route_row_of route None (if length (remdups (map ts_direction_id grp)) > 1 then 1 else 0)
           (headways_both_directions hs he grp) grp)"

definition routes_stats_cols :: "bool \<Rightarrow> string list" where
  "routes_stats_cols split_directions =
     [''route_id'', ''route_short_name'', ''num_trips'', ''is_loop'', ''is_bidirectional'',
      ''start_time'', ''end_time'', ''max_headway'', ''min_headway'', ''mean_headway'',
      ''peak_num_trips'', ''peak_start_time'', ''peak_end_time'', ''service_duration'',
      ''service_distance'', ''service_speed'', ''mean_trip_distance'', ''mean_trip_duration'']
     @ (if split_directions then [''direction_id''] else [])"

text \<open>
  \<^verbatim>\<open>compute_routes_stats_base\<close>. For a frame with rows the columns are those of the
  index (\<^verbatim>\<open>reset_index\<close>), of the ordered dictionary of the group function and of the
  later assignments. With direction splitting the rows without direction belong to no
  group; when no group is left \<^verbatim>\<open>reset_index\<close> on the result of \<^verbatim>\<open>apply\<close>
  raises ValueError.
\<close>

definition compute_routes_stats_base ::
  "trip_stats list \<Rightarrow> bool \<Rightarrow> int \<Rightarrow> int \<Rightarrow> error + route_stats table" where
  "compute_routes_stats_base trips_stats_subset split_directions hs he =
     (if trips_stats_subset = [] then Inr (empty_frame (routes_stats_cols split_directions))
      else if split_directions then
        (let keys = sort_by key_le (remdups (concat (map
               (\<lambda>r. case ts_direction_id r of None \<Rightarrow> [] | Some d \<Rightarrow> [(ts_route_id r, d)])
               trips_stats_subset)))
         in if keys = [] then Inl ValueError
            else case map_err (compute_route_stats_split_directions hs he trips_stats_subset) keys of
                   Inl e \<Rightarrow> Inl e
                 | Inr g \<Rightarrow>
                     Inr \<lparr>tbl_columns =
                            [''route_id'', ''direction_id'', ''route_short_name'', ''num_trips'',
                             ''is_loop'', ''start_time'', ''end_time'', ''max_headway'',
                             ''min_headway'', ''mean_headway'', ''peak_num_trips'',
                             ''peak_start_time'', ''peak_end_time'', ''service_distance'',
                             ''service_duration'', ''is_bidirectional'', ''service_speed'',
                             ''mean_trip_distance'', ''mean_trip_duration''],
                          tbl_rows = g\<rparr>)
      else
        (let keys = sort_by str_le (remdups (map ts_route_id trips_stats_subset))
         in case map_err (compute_route_stats hs he trips_stats_subset) keys of
              Inl e \<Rightarrow> Inl e
            | Inr g \<Rightarrow>
                Inr \<lparr>tbl_columns =
                       [''route_id'', ''route_short_name'', ''num_trips'', ''is_loop'',
                        ''is_bidirectional'', ''start_time'', ''end_time'', ''max_headway'',
                        ''min_headway'', ''mean_headway'', ''peak_num_trips'',
                        ''peak_start_time'', ''peak_end_time'', ''service_distance'',
                        ''service_duration'', ''service_speed'', ''mean_trip_distance'',
                        ''mean_trip_duration''],
                     tbl_rows = g\<rparr>))"

subsection \<open>Stops\<close>

text \<open>
  A cell of the departure times after \<^verbatim>\<open>map(utils.timestr_to_seconds)\<close>: the seconds of
  a time string, and a missing time stays missing.
\<close>

definition cell_seconds :: "pyval \<Rightarrow> error + int option" where
  "cell_seconds v =
     (case v of
        NaN \<Rightarrow> Inr None
      | Str x \<Rightarrow> (case timestr_to_seconds x of Inl e \<Rightarrow> Inl e | Inr t \<Rightarrow> Inr (Some t)))"

text \<open>A row of \<^verbatim>\<open>stop_times.merge(trips_subset)\<close>, the departure time in seconds.\<close>

record stop_visit =
  sv_stop_id :: string
  sv_route_id :: string
  sv_direction_id :: "int option"
  sv_departure_time :: "int option"

record stop_stats =
  ss_stop_id :: string
  ss_direction_id :: "int option"
  ss_num_routes :: nat
  ss_num_trips :: nat
  ss_start_time :: "int option"
  ss_end_time :: "int option"
  ss_headways :: headway_stats

definition min_present :: "int option list \<Rightarrow> int option" where
  "min_present xs = (case present xs of [] \<Rightarrow> None | y # ys \<Rightarrow> Some (np_min (y # ys)))"

definition max_present :: "int option list \<Rightarrow> int option" where
  "max_present xs = (case present xs of [] \<Rightarrow> None | y # ys \<Rightarrow> Some (np_max (y # ys)))"

definition compute_stop_stats :: "int \<Rightarrow> int \<Rightarrow> string \<Rightarrow> int option \<Rightarrow> stop_visit list \<Rightarrow> stop_stats" where
  "compute_stop_stats hs he stop direction grp =
     \<lparr>ss_stop_id = stop,
      ss_direction_id = direction,
      ss_num_routes = length (remdups (map sv_route_id grp)),
      ss_num_trips = length grp,
      ss_start_time = min_present (map sv_departure_time grp),
      ss_end_time = max_present (map sv_departure_time grp),
      ss_headways = headway_fields (headways_stop hs he (map sv_departure_time grp))\<rparr>"

definition stops_stats_cols :: "bool \<Rightarrow> string list" where
  "stops_stats_cols split_directions =
     [''stop_id'', ''num_routes'', ''num_trips'', ''max_headway'', ''min_headway'',
      ''mean_headway'', ''start_time'', ''end_time'']
     @ (if split_directions then [''direction_id''] else [])"

definition merge_stop_times :: "stop_time_row list \<Rightarrow> trip_row list \<Rightarrow> error + stop_visit list" where
  "merge_stop_times sts trips_subset =
     map_err (\<lambda>(s, t).
         case cell_seconds (departure_time s) of
           Inl e \<Rightarrow> Inl e
         | Inr d \<Rightarrow> Inr \<lparr>sv_stop_id = st_stop_id s, sv_route_id = route_id t,
                          sv_direction_id = direction_id t, sv_departure_time = d\<rparr>)
       (concat (map (\<lambda>s. map (\<lambda>t. (s, t)) (filter (\<lambda>t. trip_id t = st_trip_id s) trips_subset)) sts))"

text \<open>
  \<^verbatim>\<open>compute_stops_stats_base\<close>. When the join is empty, or no row has a direction
  under direction splitting, no group is left and \<^verbatim>\<open>reset_index\<close> on the result of
  \<^verbatim>\<open>apply\<close> raises ValueError.
\<close>

definition compute_stops_stats_base ::
  "stop_time_row list \<Rightarrow> trip_row list \<Rightarrow> bool \<Rightarrow> int \<Rightarrow> int \<Rightarrow> error + stop_stats table" where
  "compute_stops_stats_base sts trips_subset split_directions hs he =
     (if trips_subset = [] then Inr (empty_frame (stops_stats_cols split_directions))
      else case merge_stop_times sts trips_subset of
             Inl e \<Rightarrow> Inl e
           | Inr f \<Rightarrow>
               (if split_directions then
                  (let keys = sort_by key_le (remdups (concat (map
                         (\<lambda>r. case sv_direction_id r of None \<Rightarrow> [] | Some d \<Rightarrow> [(sv_stop_id r, d)]) f)))
                   in if keys = [] then Inl ValueError
                      else Inr \<lparr>tbl_columns =
                                  [''stop_id'', ''direction_id'', ''num_routes'', ''num_trips'',
                                   ''start_time'', ''end_time'', ''max_headway'', ''min_headway'',
                                   ''mean_headway''],
                                tbl_rows = map (\<lambda>k. compute_stop_stats hs he (fst k) (Some (snd k))
                                  (filter (\<lambda>r. sv_stop_id r = fst k \<and> sv_direction_id r = Some (snd k)) f))
                                  keys\<rparr>)
                else
                  (let keys = sort_by str_le (remdups (map sv_stop_id f))
                   in if keys = [] then Inl ValueError
                      else Inr \<lparr>tbl_columns =
                                  [''stop_id'', ''num_routes'', ''num_trips'', ''start_time'',
                                   ''end_time'', ''max_headway'', ''min_headway'', ''mean_headway''],
                                tbl_rows = map (\<lambda>k. compute_stop_stats hs he k None
                                  (filter (\<lambda>r. sv_stop_id r = k) f)) keys\<rparr>)))"

subsection \<open>Feed\<close>

record feed_stats =
  fs_num_trips :: nat
  fs_num_routes :: nat
  fs_num_stops :: nat
  fs_peak :: peak_stats
  fs_service_distance :: "rat option"
  fs_service_duration :: rat
  fs_service_speed :: "rat option"

definition feed_stats_cols :: "string list" where
  "feed_stats_cols =
     [''num_trips'', ''num_routes'', ''num_stops'', ''peak_num_trips'', ''peak_start_time'',
      ''peak_end_time'', ''service_distance'', ''service_duration'', ''service_speed'']"

text \<open>
  \<^verbatim>\<open>get_routes(feed, date)\<close> and \<^verbatim>\<open>get_stops(feed, date)\<close> for a given date, from the
  trips active on the date.
\<close>

definition get_routes :: "feed \<Rightarrow> trip_row list \<Rightarrow> error + route_row list" where
  "get_routes fd active =
     (case routes fd of
        None \<Rightarrow> Inl TypeError
      | Some rs \<Rightarrow> Inr (filter (\<lambda>r. r_route_id r \<in> set (map route_id active)) rs))"

definition get_stops :: "feed \<Rightarrow> trip_row list \<Rightarrow> error + stop_row list" where
  "get_stops fd active =
     (case stop_times fd of
        None \<Rightarrow> Inl AttributeError
      | Some sts \<Rightarrow>
          (case stops fd of
             None \<Rightarrow> Inl TypeError
           | Some ss \<Rightarrow>
               Inr (filter (\<lambda>s. s_stop_id s \<in> set (map st_stop_id
                      (filter (\<lambda>st. st_trip_id st \<in> set (map trip_id active)) sts))) ss)))"

text \<open>
  \<^verbatim>\<open>compute_feed_stats(feed, trips_stats, date)\<close>. The trips active on the date are
  joined with the trips statistics on the trip identifier; the result is a frame of one row.
\<close>

definition compute_feed_stats :: "feed \<Rightarrow> trip_stats list \<Rightarrow> string \<Rightarrow> error + feed_stats table" where
  "compute_feed_stats fd trips_stats date =
     (case get_trips fd (Some date) None of
        Inl e \<Rightarrow> Inl e
      | Inr active \<Rightarrow>
          (if active = [] then Inr (empty_frame feed_stats_cols)
           else case get_routes fd active of
                  Inl e \<Rightarrow> Inl e
                | Inr rs \<Rightarrow>
                    (case get_stops fd active of
                       Inl e \<Rightarrow> Inl e
                     | Inr ss \<Rightarrow>
                         (let f = concat (map (\<lambda>t. filter (\<lambda>r. ts_trip_id r = trip_id t) trips_stats) active)
                          in case peak_fields f of
                               Inl e \<Rightarrow> Inl e
                             | Inr peak \<Rightarrow>
                                 (let service_distance = sum_present (map ts_distance f);
                                      service_duration = sum_list (map ts_duration f)
                                  in Inr \<lparr>tbl_columns = feed_stats_cols,
                                          tbl_rows =
                                            [\<lparr>fs_num_trips = length active,
                                              fs_num_routes = length rs,
                                              fs_num_stops = length ss,
                                              fs_peak = peak,
                                              fs_service_distance = service_distance,
                                              fs_service_duration = service_duration,
                                              fs_service_speed = fdiv service_distance service_duration\<rparr>]\<rparr>)))))"

subsection \<open>The documented columns\<close>

text \<open>
  The columns that the docstrings of \<^verbatim>\<open>compute_routes_stats_base\<close>,
  \<^verbatim>\<open>compute_stops_stats_base\<close> and \<^verbatim>\<open>compute_feed_stats\<close> list, in the order of the
  docstrings; \<^verbatim>\<open>direction_id\<close> is documented for direction splitting only.
\<close>

definition documented_routes_columns :: "bool \<Rightarrow> string list" where
  "documented_routes_columns split_directions =
     [''route_id'', ''route_short_name'']
     @ (if split_directions then [''direction_id''] else [])
     @ [''num_trips'', ''is_loop'', ''is_bidirectional'', ''start_time'', ''end_time'',
        ''max_headway'', ''min_headway'', ''mean_headway'', ''peak_num_trips'',
        ''peak_start_time'', ''peak_end_time'', ''service_duration'', ''service_distance'',
        ''service_speed'', ''mean_trip_distance'', ''mean_trip_duration'']"

definition documented_stops_columns :: "bool \<Rightarrow> string list" where
  "documented_stops_columns split_directions =
     [''stop_id'']
     @ (if split_directions then [''direction_id''] else [])
     @ [''num_routes'', ''num_trips'', ''max_headway'', ''min_headway'', ''mean_headway'',
        ''start_time'', ''end_time'']"

definition documented_feed_columns :: "string list" where
  "documented_feed_columns =
     [''num_trips'', ''num_routes'', ''num_stops'', ''peak_num_trips'', ''peak_start_time'',
      ''peak_end_time'', ''service_distance'', ''service_duration'', ''service_speed'']"

subsection \<open>Example groups\<close>

text \<open>
  Two trips of one route in opposite directions, starting at 07:00:00 and 07:15:00.
\<close>

definition trip_at :: "string \<Rightarrow> int option \<Rightarrow> int \<Rightarrow> int \<Rightarrow> trip_stats" where
  "trip_at tid direction start stop =
     \<lparr>ts_trip_id = tid, ts_route_id = ''R'', ts_route_short_name = ''1'',
      ts_direction_id = direction, ts_is_loop = 0, ts_start_time = start, ts_end_time = stop,
      ts_distance = Some 10, ts_duration = of_int (stop - start) / 3600\<rparr>"

definition opposite_trips :: "trip_stats list" where
  "opposite_trips = [trip_at ''a'' (Some 0) 25200 27000, trip_at ''b'' (Some 1) 26100 27900]"

text \<open>The same two trips in one direction.\<close>

definition same_direction_trips :: "trip_stats list" where
  "same_direction_trips = [trip_at ''a'' (Some 0) 25200 27000, trip_at ''b'' (Some 0) 26100 27900]"

text \<open>
  Two trips in direction 0, ten minutes apart, and four trips in direction 1, five
  minutes apart.
\<close>

definition uneven_trips :: "trip_stats list" where
  "uneven_trips =
     [trip_at ''a'' (Some 0) 25200 27000, trip_at ''b'' (Some 0) 25800 27600,
      trip_at ''c'' (Some 1) 25200 27000, trip_at ''d'' (Some 1) 25500 27300,
      trip_at ''e'' (Some 1) 25800 27600, trip_at ''f'' (Some 1) 26100 27900]"

subsection \<open>The combination of the directions as the specification words it\<close>

text \<open>
  The specification's mean headway without direction splitting: the mean of the two
  directions' mean headways (in minutes), weighted by the directions' trip counts.
\<close>

definition trip_count_weighted_mean :: "int \<Rightarrow> int \<Rightarrow> trip_stats list \<Rightarrow> rat" where
  "trip_count_weighted_mean hs he grp =
     (let n0 = length (filter (\<lambda>r. ts_direction_id r = Some 0) grp);
          n1 = length (filter (\<lambda>r. ts_direction_id r = Some 1) grp);
          m0 = np_mean (direction_headways hs he grp 0) / 60;
          m1 = np_mean (direction_headways hs he grp 1) / 60
      in (of_nat n0 * m0 + of_nat n1 * m1) / of_nat (n0 + n1))"

text \<open>
  Three trips: one from 0 to 40, one from 10 to 20 and one from 20 to 30 (in seconds).
  Two trips are in service at the sampled times 10 and 20.
\<close>

definition peak_trips :: "trip_stats list" where
  "peak_trips =
     [trip_at ''a'' (Some 0) 0 40, trip_at ''b'' (Some 0) 10 20, trip_at ''c'' (Some 0) 20 30]"

text \<open>
  Five trips: two from 0 to 10, one from 10 to 50, one from 20 to 30 and one from 30 to 40
  (in seconds). Two trips are in service at the sampled time 0 and at the sampled times
  20 and 30.
\<close>

definition two_peak_trips :: "trip_stats list" where
  "two_peak_trips =
     [trip_at ''a'' (Some 0) 0 10, trip_at ''b'' (Some 0) 0 10, trip_at ''c'' (Some 0) 10 50,
      trip_at ''d'' (Some 0) 20 30, trip_at ''e'' (Some 0) 30 40]"

text \<open>
  Trips of the route R that start at 06:00:00, 07:00:00 and 19:00:00 in direction 0 and
  at 08:20:00 in direction 1, with a trip of another route; and the visits of a stop at
  06:00:00, 07:00:00, at a time that is missing, at 19:00:00 and at 19:00:01.
\<close>

definition windowed_trips :: "trip_stats list" where
  "windowed_trips =
     [trip_at ''a'' (Some 0) 21600 23400, trip_at ''b'' (Some 0) 68400 70200,
      trip_at ''c'' (Some 1) 30000 31800, trip_at ''d'' (Some 0) 25200 27000,
      trip_at ''x'' (Some 0) 36000 37800 \<lparr>ts_route_id := ''S''\<rparr>]"

definition windowed_visits :: "stop_visit list" where
  "windowed_visits =
     map (\<lambda>t. \<lparr>sv_stop_id = ''A'', sv_route_id = ''R'', sv_direction_id = Some 0,
                 sv_departure_time = t\<rparr>)
       [Some 21600, Some 68400, None, Some 25200, Some 68401]"

section \<open>Time series of routes\<close>

text \<open>
  A row of the trips statistics as \<^verbatim>\<open>compute_routes_time_series_base\<close> reads it.
  The times are in seconds past midnight, as \<^verbatim>\<open>utils.timestr_to_seconds\<close> gives them,
  or missing; the loop skips a row without start time.
\<close>

record series_trip =
  st_route_id :: string
  st_direction_id :: "int option"
  st_start_time :: "int option"
  st_end_time :: "int option"
  st_distance :: "rat option"

text \<open>One bin for each minute of the day.\<close>

definition num_bins :: nat where
  "num_bins = 24 * 60"

definition bins :: "nat list" where
  "bins = [0 ..< 24 * 60]"

text \<open>
  The inner function \<^verbatim>\<open>F(x)\<close>: \<^verbatim>\<open>(utils.timestr_to_seconds(x)//60) % (24*60)\<close>.
  Python's \<^verbatim>\<open>//\<close> and \<^verbatim>\<open>%\<close> round towards minus infinity, as \<open>div\<close> and \<open>mod\<close> do;
  a missing time stays missing.
\<close>

definition F :: "int option \<Rightarrow> nat option" where
  "F x = (case x of None \<Rightarrow> None | Some seconds \<Rightarrow> Some (nat ((seconds div 60) mod (24 * 60))))"

text \<open>
  The four series of a route, each a list of \<^verbatim>\<open>num_bins\<close> numbers. The dictionaries
  have an entry for every route of the rows and are modelled by functions of the route
  identifier. A service distance is a float: \<open>None\<close> is NaN, and a sum with NaN is NaN.
\<close>

record series_by_route_by_indicator =
  num_trip_starts :: "string \<Rightarrow> int list"
  num_trips :: "string \<Rightarrow> int list"
  service_duration :: "string \<Rightarrow> rat list"
  service_distance :: "string \<Rightarrow> rat option list"

definition zero_series :: series_by_route_by_indicator where
  "zero_series =
     \<lparr>num_trip_starts = (\<lambda>route. replicate num_bins 0),
      num_trips = (\<lambda>route. replicate num_bins 0),
      service_duration = (\<lambda>route. replicate num_bins 0),
      service_distance = (\<lambda>route. replicate num_bins (Some 0))\<rparr>"

definition add_float :: "rat option \<Rightarrow> rat option \<Rightarrow> rat option" where
  "add_float a b = (case a of None \<Rightarrow> None | Some x \<Rightarrow> (case b of None \<Rightarrow> None | Some y \<Rightarrow> Some (x + y)))"

text \<open>\<^verbatim>\<open>for bin in bins_to_fill: series[bin] += weight\<close>.\<close>

definition fill_bins :: "('a \<Rightarrow> 'a) \<Rightarrow> nat list \<Rightarrow> 'a list \<Rightarrow> 'a list" where
  "fill_bins add bins_to_fill series = fold (\<lambda>bin s. s[bin := add (s ! bin)]) bins_to_fill series"

text \<open>
  The slices \<^verbatim>\<open>bins[start:end]\<close> and \<^verbatim>\<open>bins[start:] + bins[:end]\<close>, for indices that
  are not negative.
\<close>

definition bins_to_fill :: "nat \<Rightarrow> nat \<Rightarrow> nat list" where
  "bins_to_fill start stop =
     (if start \<le> stop then take (stop - start) (drop start bins)
      else drop start bins @ take stop bins)"

text \<open>
  One turn of the loop over the rows. The two index columns come from
  \<^verbatim>\<open>applymap(F)\<close>: a column with a missing value is a column of floats, and a float
  is no slice index. So when a start or an end time is missing anywhere in the subset
  (\<open>float_index\<close>), every row that reaches the slices raises TypeError; a row without
  start index, and a row whose two indices are equal, is skipped before.
\<close>

definition bin_trip ::
  "bool \<Rightarrow> series_by_route_by_indicator \<Rightarrow> series_trip \<Rightarrow> string
   \<Rightarrow> error + series_by_route_by_indicator" where
  "bin_trip float_index series row route =
     (case F (st_start_time row) of
        None \<Rightarrow> Inr series
      | Some start \<Rightarrow>
          (if F (st_end_time row) = Some start then Inr series
           else if float_index then Inl TypeError
           else
             (case F (st_end_time row) of
                None \<Rightarrow> Inl TypeError
              | Some stop \<Rightarrow>
                  (let fill = bins_to_fill start stop;
                       weight = (case st_distance row of None \<Rightarrow> None
                                 | Some d \<Rightarrow> Some (d / of_nat (length fill)));
                       starts = (num_trip_starts series route)
                                  [start := num_trip_starts series route ! start + 1]
                   in Inr \<lparr>num_trip_starts = (num_trip_starts series)(route := starts),
                           num_trips = (num_trips series)
                             (route := fill_bins (\<lambda>v. v + 1) fill (num_trips series route)),
                           service_duration = (service_duration series)
                             (route := fill_bins (\<lambda>v. v + 1 / 60) fill (service_duration series route)),
                           service_distance = (service_distance series)
                             (route := fill_bins (\<lambda>v. add_float v weight) fill
                                         (service_distance series route))\<rparr>))))"

text \<open>
  With direction splitting the route identifier of a row is first extended to
  \<^verbatim>\<open><route ID>-<direction>\<close>.
\<close>

fun str_nat :: "nat \<Rightarrow> string" where
  "str_nat n = (if n < 10 then [char_of (48 + n)] else str_nat (n div 10) @ [char_of (48 + n mod 10)])"

definition str_direction :: "int option \<Rightarrow> string" where
  "str_direction d =
     (case d of None \<Rightarrow> ''nan''
      | Some i \<Rightarrow> (if i < 0 then CHR ''-'' # str_nat (nat (- i)) else str_nat (nat i)))"

definition route_key :: "bool \<Rightarrow> series_trip \<Rightarrow> string" where
  "route_key split_directions row =
     (if split_directions then st_route_id row @ ''-'' @ str_direction (st_direction_id row)
      else st_route_id row)"

fun bin_trips ::
  "bool \<Rightarrow> bool \<Rightarrow> series_by_route_by_indicator \<Rightarrow> series_trip list
   \<Rightarrow> error + series_by_route_by_indicator" where
  "bin_trips float_index split_directions series [] = Inr series"
| "bin_trips float_index split_directions series (row # rows) =
     (case bin_trip float_index series row (route_key split_directions row) of
        Inl e \<Rightarrow> Inl e
      | Inr series' \<Rightarrow> bin_trips float_index split_directions series' rows)"

definition float_index_of :: "series_trip list \<Rightarrow> bool" where
  "float_index_of rows = list_ex (\<lambda>row. st_start_time row = None \<or> st_end_time row = None) rows"

text \<open>An example row: a trip of route R from 23:50:00 to 24:10:00 over 10 units.\<close>

definition midnight_trip :: series_trip where
  "midnight_trip =
     \<lparr>st_route_id = ''R'', st_direction_id = Some 0, st_start_time = Some 85800,
      st_end_time = Some 87000, st_distance = Some 10\<rparr>"

definition morning_trip :: series_trip where
  "morning_trip =
     \<lparr>st_route_id = ''R'', st_direction_id = Some 0, st_start_time = Some 25200,
      st_end_time = Some 25500, st_distance = Some 10\<rparr>"

text \<open>
  The contribution of a row to a bin, as the specification words it: the binned start
  and end of the row, whether the row fills the bin, and the number of bins it fills.
\<close>

definition start_bin :: "series_trip \<Rightarrow> nat" where
  "start_bin row = nat ((the (st_start_time row) div 60) mod 1440)"

definition end_bin :: "series_trip \<Rightarrow> nat" where
  "end_bin row = nat ((the (st_end_time row) div 60) mod 1440)"

definition fills :: "series_trip \<Rightarrow> nat \<Rightarrow> bool" where
  "fills row b =
     (start_bin row \<noteq> end_bin row
      \<and> (if start_bin row \<le> end_bin row then start_bin row \<le> b \<and> b < end_bin row
         else start_bin row \<le> b \<or> b < end_bin row))"

definition num_filled :: "series_trip \<Rightarrow> nat" where
  "num_filled row =
     (if start_bin row \<le> end_bin row then end_bin row - start_bin row
      else num_bins - start_bin row + end_bin row)"

definition sum_floats :: "rat option list \<Rightarrow> rat option" where
  "sum_floats ws = fold (\<lambda>w acc. add_float acc w) ws (Some 0)"

text \<open>
  Further example rows: a trip of route R in direction 1 from 23:55:00 to 24:00:00 over
  5 units, and a trip from 07:00:00 to 07:00:30, whose two bins are equal.
\<close>

definition evening_trip :: series_trip where
  "evening_trip =
     \<lparr>st_route_id = ''R'', st_direction_id = Some 1, st_start_time = Some 86100,
      st_end_time = Some 86400, st_distance = Some 5\<rparr>"

definition same_bin_trip :: series_trip where
  "same_bin_trip =
     \<lparr>st_route_id = ''R'', st_direction_id = Some 0, st_start_time = Some 25200,
      st_end_time = Some 25230, st_distance = Some 1\<rparr>"

section \<open>Time series frames and downsampling\<close>

text \<open>
  A time series frame: the names of the column levels (\<^verbatim>\<open>columns.names\<close>), the
  frequency of the index in seconds (one minute is 60), the number of rows, and the
  columns, each with its key (the tuple of its labels, or the single label of a feed
  series) and its values. A value is a float: \<open>None\<close> stands for one that is not finite.
\<close>

record time_series =
  column_names :: "string list"
  index_freq :: nat
  index_length :: nat
  columns :: "(string list \<times> rat option list) list"

text \<open>\<^verbatim>\<open>frame.empty\<close>: the frame has no row or no column.\<close>

definition ts_empty :: "time_series \<Rightarrow> bool" where
  "ts_empty ts = (index_length ts = 0 \<or> columns ts = [])"

text \<open>
  \<^verbatim>\<open>frame.resample(freq, how)\<close> of Pandas on an index of step \<open>n\<close> seconds that
  starts at midnight: the row \<open>i\<close>, at \<open>i * n\<close> seconds, falls into the window
  \<open>(i * n) div k\<close> of length \<open>k\<close> seconds; the windows up to that of the last row make
  the new index. \<^verbatim>\<open>sum\<close> and \<^verbatim>\<open>mean\<close> skip missing values.
\<close>

definition window :: "nat \<Rightarrow> nat \<Rightarrow> 'a list \<Rightarrow> nat \<Rightarrow> 'a list" where
  "window n k xs j = map (\<lambda>i. xs ! i) (filter (\<lambda>i. (i * n) div k = j) [0 ..< length xs])"

definition num_windows :: "nat \<Rightarrow> nat \<Rightarrow> nat \<Rightarrow> nat" where
  "num_windows n k len = (if len = 0 then 0 else ((len - 1) * n) div k + 1)"

definition resample :: "nat \<Rightarrow> nat \<Rightarrow> (rat option list \<Rightarrow> rat option) \<Rightarrow> rat option list \<Rightarrow> rat option list" where
  "resample n k how xs = map (\<lambda>j. how (window n k xs j)) [0 ..< num_windows n k (length xs)]"

definition mean_present :: "rat option list \<Rightarrow> rat option" where
  "mean_present xs =
     (case present xs of [] \<Rightarrow> None | y # ys \<Rightarrow> Some (sum_list (y # ys) / of_nat (length (y # ys))))"

definition float_div :: "rat option \<Rightarrow> rat option \<Rightarrow> rat option" where
  "float_div a b = (case b of None \<Rightarrow> None | Some y \<Rightarrow> fdiv a y)"

text \<open>\<^verbatim>\<open>sortlevel(axis=1)\<close> orders the columns by their keys.\<close>

fun labels_le :: "string list \<Rightarrow> string list \<Rightarrow> bool" where
  "labels_le [] _ = True"
| "labels_le (_ # _) [] = False"
| "labels_le (a # as) (b # bs) = (if a = b then labels_le as bs else str_le a b)"

definition sortlevel :: "(string list \<times> rat option list) list \<Rightarrow> (string list \<times> rat option list) list" where
  "sortlevel cols = sort_by (\<lambda>c d. labels_le (fst c) (fst d)) cols"

text \<open>
  The branch of \<^verbatim>\<open>downsample\<close> for a routes series (\<open>multi = True\<close>, the indicator
  is the first label of a key) and for a feed series (the indicator is the key):
  the columns of the trip starts, the service distance and the service duration are
  summed, those of the number of trips averaged, and no other column is kept; the
  speed is the quotient of the resampled distance and duration, column by column
  (a label without both gives NaN; no distance or no duration column is a KeyError).
\<close>

definition indicator_of :: "bool \<Rightarrow> string list \<Rightarrow> string option" where
  "indicator_of multi key =
     (if multi then (case key of [] \<Rightarrow> None | i # _ \<Rightarrow> Some i)
      else (case key of [i] \<Rightarrow> Some i | _ \<Rightarrow> None))"

definition select_level :: "string \<Rightarrow> (string list \<times> 'a) list \<Rightarrow> (string list \<times> 'a) list" where
  "select_level i cols = map (\<lambda>c. (tl (fst c), snd c)) (filter (\<lambda>c. fst c \<noteq> [] \<and> hd (fst c) = i) cols)"

definition speed_columns ::
  "nat \<Rightarrow> (string list \<times> rat option list) list \<Rightarrow> (string list \<times> rat option list) list
   \<Rightarrow> (string list \<times> rat option list) list" where
  "speed_columns len distances durations =
     map (\<lambda>sub. (''service_speed'' # sub,
                 (case map_of distances sub of
                    None \<Rightarrow> replicate len None
                  | Some d \<Rightarrow> (case map_of durations sub of
                                None \<Rightarrow> replicate len None
                              | Some u \<Rightarrow> map2 float_div d u))))
         (remdups (map fst distances @ map fst durations))"

definition resample_indicators :: "bool \<Rightarrow> time_series \<Rightarrow> nat \<Rightarrow> error + time_series" where
  "resample_indicators multi ts freq =
     (let n = index_freq ts;
          summed = filter (\<lambda>c. indicator_of multi (fst c)
                   \<in> {Some ''num_trip_starts'', Some ''service_distance'', Some ''service_duration''})
                   (columns ts);
          averaged = filter (\<lambda>c. indicator_of multi (fst c) = Some ''num_trips'') (columns ts);
          f = map (\<lambda>c. (fst c, resample n freq sum_present (snd c))) summed
              @ map (\<lambda>c. (fst c, resample n freq mean_present (snd c))) averaged;
          distances = select_level ''service_distance'' f;
          durations = select_level ''service_duration'' f
      in if distances = [] \<or> durations = [] then Inl KeyError
         else
           (let len = num_windows n freq (index_length ts);
                result = f @ speed_columns len distances durations
            in Inr \<lparr>column_names = column_names ts, index_freq = freq, index_length = len,
                    columns = (if multi then sortlevel result else result)\<rparr>))"

text \<open>
  \<^verbatim>\<open>downsample(time_series, freq)\<close>, the frequency in seconds. An empty series is
  returned before the frequency is read; a frequency that is no offset raises ValueError.
\<close>

definition downsample :: "time_series \<Rightarrow> nat \<Rightarrow> error + time_series" where
  "downsample ts freq =
     (if ts_empty ts then Inr ts
      else if freq = 0 then Inl ValueError
      else if freq < index_freq ts then Inr ts
      else if ''route_id'' \<in> set (column_names ts) then resample_indicators True ts freq
      else if ''stop_id'' \<in> set (column_names ts) then
        Inr \<lparr>column_names = column_names ts, index_freq = freq,
             index_length = num_windows (index_freq ts) freq (index_length ts),
             columns = sortlevel (map (\<lambda>c. (fst c, resample (index_freq ts) freq sum_present (snd c)))
                                      (columns ts))\<rparr>
      else resample_indicators False ts freq)"

section \<open>The routes time series\<close>

text \<open>\<^verbatim>\<open>k.rsplit('-', 1)\<close>: the key split at its last hyphen.\<close>

definition rsplit_hyphen :: "string \<Rightarrow> string list" where
  "rsplit_hyphen k =
     (if CHR ''-'' \<in> set k
      then [rev (tl (dropWhile (\<lambda>c. c \<noteq> CHR ''-'') (rev k))),
            rev (takeWhile (\<lambda>c. c \<noteq> CHR ''-'') (rev k))]
      else [k])"

text \<open>
  \<^verbatim>\<open>combine_time_series\<close> of the four frames of an indicator each, for the routes in
  sorted order. The frames have one row per minute and no missing value
  (\<^verbatim>\<open>fillna(0)\<close>).
\<close>

definition fillna0 :: "rat option list \<Rightarrow> rat option list" where
  "fillna0 xs = map (\<lambda>v. case v of None \<Rightarrow> Some 0 | Some x \<Rightarrow> Some x) xs"

definition combine_time_series :: "string list \<Rightarrow> series_by_route_by_indicator \<Rightarrow> bool \<Rightarrow> time_series" where
  "combine_time_series route_keys series split_directions =
     (let label = (\<lambda>route. if split_directions then rsplit_hyphen route else [route]);
          frame = (\<lambda>indicator values.
            map (\<lambda>route. (indicator # label route, fillna0 (values route))) route_keys)
      in \<lparr>column_names = [''indicator'', ''route_id'']
                            @ (if split_directions then [''direction_id''] else []),
           index_freq = 60,
           index_length = 24 * 60,
           columns =
             frame ''num_trip_starts'' (\<lambda>r. map (\<lambda>v. Some (of_int v)) (num_trip_starts series r))
             @ frame ''num_trips'' (\<lambda>r. map (\<lambda>v. Some (of_int v)) (num_trips series r))
             @ frame ''service_duration'' (\<lambda>r. map Some (service_duration series r))
             @ frame ''service_distance'' (service_distance series)\<rparr>)"

definition routes_time_series_cols :: "string list" where
  "routes_time_series_cols =
     [''service_distance'', ''service_duration'', ''num_trip_starts'', ''num_trips'',
      ''service_speed'']"

definition compute_routes_time_series_base :: "series_trip list \<Rightarrow> bool \<Rightarrow> nat \<Rightarrow> error + time_series" where
  "compute_routes_time_series_base trips_stats_subset split_directions freq =
     (if trips_stats_subset = []
      then Inr \<lparr>column_names = [], index_freq = 0, index_length = 0,
                columns = map (\<lambda>c. ([c], [])) routes_time_series_cols\<rparr>
      else
        (let route_keys = sort_by str_le (remdups (map (route_key split_directions) trips_stats_subset))
         in case bin_trips (float_index_of trips_stats_subset) split_directions zero_series
                   trips_stats_subset of
              Inl e \<Rightarrow> Inl e
            | Inr series \<Rightarrow> downsample (combine_time_series route_keys series split_directions) freq))"

text \<open>
  A routes series of one route over four minutes, and the same series with a speed
  column that is not the quotient of distance and duration.
\<close>

definition small_series :: time_series where
  "small_series =
     \<lparr>column_names = [''indicator'', ''route_id''], index_freq = 60, index_length = 4,
      columns =
        [([''num_trip_starts'', ''R''], [Some 1, Some 0, Some 1, Some 0]),
         ([''num_trips'', ''R''], [Some 1, Some 1, Some 2, Some 1]),
         ([''service_duration'', ''R''], [Some (1 / 60), Some (1 / 60), Some (2 / 60), Some (1 / 60)]),
         ([''service_distance'', ''R''], [Some 1, Some 2, Some 3, Some 1])]\<rparr>"

section \<open>Properties of the service-activity decision\<close>

lemma digits_val_bound:
  "list_all is_digit cs \<Longrightarrow> digits_val cs < 10 ^ length cs"
proof (induction cs)
  case Nil
  then show ?case by simp
next
  case (Cons c cs)
  then have d: "digit_val c \<le> 9" and ih: "digits_val cs < 10 ^ length cs"
    by (auto simp: is_digit_def digit_val_def)
  define P :: nat where "P = 10 ^ length cs"
  have "digit_val c * P \<le> 9 * P"
    using d by simp
  then have "digit_val c * P + digits_val cs < 10 * P"
    using ih unfolding P_def [symmetric] by arith
  then show ?case by (simp add: P_def)
qed

lemma digit_val_eq_iff:
  "is_digit a \<Longrightarrow> is_digit b \<Longrightarrow> (digit_val a = digit_val b) = (a = b)"
proof -
  assume a: "is_digit a" and b: "is_digit b"
  have "(digit_val a = digit_val b) = ((of_char a :: nat) = of_char b)"
    using a b unfolding is_digit_def digit_val_def by arith
  also have "\<dots> = (a = b)"
    by (metis of_char_eq_iff)
  finally show ?thesis .
qed

lemma str_le_digits:
  "length as = length bs \<Longrightarrow> list_all is_digit as \<Longrightarrow> list_all is_digit bs \<Longrightarrow>
   str_le as bs = (digits_val as \<le> digits_val bs)"
proof (induction as bs rule: list_induct2)
  case Nil
  then show ?case by simp
next
  case (Cons a as b bs)
  then have da: "is_digit a" and db: "is_digit b"
    and la: "list_all is_digit as" and lb: "list_all is_digit bs"
    by simp_all
  have ba: "digits_val as < 10 ^ length bs" using digits_val_bound [OF la] Cons.hyps by simp
  have bb: "digits_val bs < 10 ^ length bs" using digits_val_bound [OF lb] by simp
  show ?case
  proof (cases "a = b")
    case True
    then show ?thesis using Cons.IH [OF la lb] Cons.hyps by simp
  next
    case False
    then have ne: "digit_val a \<noteq> digit_val b"
      using digit_val_eq_iff [OF da db] by simp
    have lt: "((of_char a :: nat) < of_char b) = (digit_val a < digit_val b)"
      using da db by (auto simp: is_digit_def digit_val_def)
    show ?thesis
    proof (cases "digit_val a < digit_val b")
      case True
      then have "digit_val a + 1 \<le> digit_val b" by simp
      then have "(digit_val a + 1) * 10 ^ length bs \<le> digit_val b * 10 ^ length bs"
        by (rule mult_le_mono1)
      then have "digit_val a * 10 ^ length bs + digits_val as \<le> digit_val b * 10 ^ length bs + digits_val bs"
        using ba by (simp add: algebra_simps)
      then show ?thesis using False lt True Cons.hyps by simp
    next
      case F2: False
      then have "digit_val b + 1 \<le> digit_val a" using ne by simp
      then have "(digit_val b + 1) * 10 ^ length bs \<le> digit_val a * 10 ^ length bs"
        by (rule mult_le_mono1)
      then have "digit_val b * 10 ^ length bs + digits_val bs < digit_val a * 10 ^ length bs + digits_val as"
        using bb by (simp add: algebra_simps)
      then show ?thesis using False lt F2 Cons.hyps by simp
    qed
  qed
qed

lemma datestr_to_date_Inr: "datestr_to_date d = Inr ymd \<Longrightarrow> is_datestr d"
  by (auto simp: datestr_to_date_def split: if_splits)

lemma str_le_datestr:
  "is_datestr a \<Longrightarrow> is_datestr b \<Longrightarrow> str_le a b = (digits_val a \<le> digits_val b)"
  by (simp add: is_datestr_def str_le_digits)

lemma find_filter_Nil: "filter P xs = [] \<Longrightarrow> find P xs = None"
  by (induction xs) (auto split: if_splits)

lemma find_filter_single: "filter P xs = [r] \<Longrightarrow> find P xs = Some r"
  by (induction xs) (auto split: if_splits)

lemma filter_mem: "filter P xs = r # rs \<Longrightarrow> r \<in> set xs"
proof -
  assume "filter P xs = r # rs"
  then have "r \<in> set (filter P xs)" by simp
  then show ?thesis by simp
qed

lemma check_calendar_i_spec:
  assumes u: "unique_service f s" and wf: "calendar_wf f"
    and d: "datestr_to_date date = Inr ymd"
  shows "check_calendar_i (calendar_i f) (Scalar s) date =
         Inr (is_active_spec None (calendar_entry f s) date (weekday ymd))"
proof (cases "calendar f")
  case None
  then show ?thesis
    by (simp add: check_calendar_i_def calendar_i_def index_of_def is_active_spec_def calendar_entry_def)
next
  case (Some rows)
  note rows = Some
  have dd: "is_datestr date" using d by (rule datestr_to_date_Inr)
  show ?thesis
  proof (cases "filter (\<lambda>r. cal_service_id r = s) rows")
    case Nil
    then have "find (\<lambda>r. cal_service_id r = s) rows = None" by (rule find_filter_Nil)
    then show ?thesis using rows Nil
      by (simp add: check_calendar_i_def calendar_i_def index_of_def is_active_spec_def
          calendar_entry_def at_label_def)
  next
    case (Cons r rs)
    then have rs: "rs = []" using u rows by (simp add: unique_service_def)
    have fr: "find (\<lambda>r. cal_service_id r = s) rows = Some r"
      using Cons rs by (simp add: find_filter_single)
    have "r \<in> set rows" using Cons by (rule filter_mem)
    then have "is_datestr (start_date r)" "is_datestr (end_date r)"
      using wf rows by (auto simp: calendar_wf_def list_all_iff)
    then have le: "str_le (start_date r) date = (digits_val (start_date r) \<le> digits_val date)"
      "str_le date (end_date r) = (digits_val date \<le> digits_val (end_date r))"
      using dd by (simp_all add: str_le_datestr)
    have ne: "rows \<noteq> []" using Cons by auto
    show ?thesis using rows Cons rs fr le d ne
      by (simp add: check_calendar_i_def calendar_i_def index_of_def is_active_spec_def
          calendar_entry_def at_label_def)
  qed
qed

text \<open>
  C1. Service activity follows the priority order of the specification. For a trip of
  the feed, a parseable date, one calendar entry per service and calendar dates in the
  format YYYYMMDD, \<^verbatim>\<open>is_active_trip\<close> returns: when an exception row exists for
  (service, date), whether the exception is Added (the first row of the group,
  \<^verbatim>\<open>exception_type\<close> 1), whatever the calendar says; otherwise, when the service has a
  calendar entry, whether the date lies in [start_date, end_date] and the flag of the
  date's weekday is set; otherwise false.
\<close>

theorem is_active_trip_priority:
  assumes t: "trips f = Some ts" "filter (\<lambda>r. trip_id r = trip) ts = [t]"
    and u: "unique_service f (service_id t)" and wf: "calendar_wf f"
    and d: "datestr_to_date date = Inr ymd"
  shows "is_active_trip f trip date =
         Inr (is_active_spec (exception_for f (service_id t) date)
                (calendar_entry f (service_id t)) date (weekday ymd))"
proof -
  have ne: "ts \<noteq> []" using t(2) by auto
  have ti: "trips_i f = Some ts" using t(1) ne by (simp add: trips_i_def index_of_def)
  have at: "at_label trip_id ts trip = Inr (Scalar t)" using t(2) by (simp add: at_label_def)
  note cal = check_calendar_i_spec [OF u wf d]
  show ?thesis
  proof (cases "calendar_dates f")
    case None
    then show ?thesis using ti at cal
      by (simp add: is_active_trip_def calendar_dates_g_def index_of_def exception_for_def)
  next
    case (Some cd)
    show ?thesis
    proof (cases "get_group cd (service_id t) date")
      case Nil
      then have e: "exception_for f (service_id t) date = None"
        using Some by (simp add: exception_for_def)
      show ?thesis
      proof (cases "cd = []")
        case True
        then show ?thesis using ti at cal Some e
          by (simp add: is_active_trip_def calendar_dates_g_def index_of_def)
      next
        case False
        then show ?thesis using ti at cal Some e Nil
          by (simp add: is_active_trip_def calendar_dates_g_def index_of_def)
      qed
    next
      case (Cons g gs)
      then have ne': "cd \<noteq> []" by (auto simp: get_group_def)
      show ?thesis using ti at Some Cons ne'
        by (simp add: is_active_trip_def calendar_dates_g_def index_of_def exception_for_def
            is_active_spec_def)
    qed
  qed
qed

theorem is_active_trip_priority_witness:
  "is_active_trip scenario_feed ''T'' ''20200104'' = Inr True
   \<and> is_active_trip scenario_feed ''T'' ''20200106'' = Inr False
   \<and> is_active_trip scenario_feed ''T'' ''20200107'' = Inr True
   \<and> is_active_trip scenario_feed ''T'' ''20200111'' = Inr False"
proof -
  have t: "trips scenario_feed = Some [scenario_trip]"
    "filter (\<lambda>r. trip_id r = ''T'') [scenario_trip] = [scenario_trip]"
    by (simp_all add: scenario_feed_def scenario_trip_def)
  have u: "unique_service scenario_feed (service_id scenario_trip)"
    by (simp add: unique_service_def scenario_feed_def)
  have wf: "calendar_wf scenario_feed"
    by (simp add: calendar_wf_def scenario_feed_def weekdays_calendar_def is_datestr_def is_digit_def)
  have d: "datestr_to_date ''20200104'' = Inr (2020, 1, 4)"
    "datestr_to_date ''20200106'' = Inr (2020, 1, 6)"
    "datestr_to_date ''20200107'' = Inr (2020, 1, 7)"
    "datestr_to_date ''20200111'' = Inr (2020, 1, 11)"
    by (simp_all add: datestr_to_date_def is_datestr_def is_digit_def digit_val_def
        days_in_month_def is_leap_def)
  have e: "exception_for scenario_feed ''S'' ''20200104'' = Some Added"
    "exception_for scenario_feed ''S'' ''20200106'' = Some Removed"
    "exception_for scenario_feed ''S'' ''20200107'' = None"
    "exception_for scenario_feed ''S'' ''20200111'' = None"
    by (simp_all add: exception_for_def scenario_feed_def get_group_def)
  have c: "calendar_entry scenario_feed ''S'' = Some weekdays_calendar"
    by (simp add: calendar_entry_def scenario_feed_def weekdays_calendar_def)
  have s: "service_id scenario_trip = ''S''" by (simp add: scenario_trip_def)
  show ?thesis
    using is_active_trip_priority [OF t u wf d(1)] is_active_trip_priority [OF t u wf d(2)]
      is_active_trip_priority [OF t u wf d(3)] is_active_trip_priority [OF t u wf d(4)]
    by (simp add: s e c is_active_spec_def weekdays_calendar_def weekday_flag_def digit_val_def
        weekday_def days_from_civil_def)
qed


section \<open>Properties of the active trips\<close>

lemma py_le_error: "py_le a b = Inl e \<Longrightarrow> e = TypeError"
  by (cases a; cases b) auto

lemma chained_le_error: "chained_le a t b = Inl e \<Longrightarrow> e = TypeError"
  by (auto simp: chained_le_def split: sum.splits if_splits dest: py_le_error)

lemma series_min_uniform: "uniform deps \<Longrightarrow> \<exists>v. series_min deps = Inr v"
  by (auto simp: uniform_def series_min_def split: list.splits)

lemma series_max_uniform: "uniform deps \<Longrightarrow> \<exists>v. series_max deps = Inr v"
  by (auto simp: uniform_def series_max_def split: list.splits)

lemma series_min_mixed:
  "\<not> uniform deps \<Longrightarrow> series_min deps = Inl TypeError"
  by (auto simp: uniform_def series_min_def split: list.splits)

lemma group_is_active_uniform:
  assumes "uniform deps"
  shows "group_is_active t deps = Inr (group_flag t deps)"
proof -
  obtain a where a: "series_min deps = Inr a" using series_min_uniform [OF assms] by blast
  obtain b where b: "series_max deps = Inr b" using series_max_uniform [OF assms] by blast
  show ?thesis
  proof (cases "chained_le a t b")
    case (Inl e)
    then have "e = TypeError" by (rule chained_le_error)
    then show ?thesis using Inl a b by (simp add: group_is_active_def group_flag_def)
  next
    case (Inr c)
    then show ?thesis using a b by (simp add: group_is_active_def group_flag_def)
  qed
qed

lemma group_is_active_mixed:
  "\<not> uniform deps \<Longrightarrow> group_is_active t deps = Inl TypeError"
  by (simp add: group_is_active_def series_min_mixed)

lemma map_err_total:
  "(\<And>x. x \<in> set xs \<Longrightarrow> g x = Inr (h x)) \<Longrightarrow> map_err g xs = Inr (map h xs)"
  by (induction xs) simp_all

lemma map_err_raises:
  "x \<in> set xs \<Longrightarrow> (\<And>y. y \<in> set xs \<Longrightarrow> g y = Inl e \<or> (\<exists>v. g y = Inr v))
   \<Longrightarrow> g x = Inl e \<Longrightarrow> map_err g xs = Inl e"
proof (induction xs)
  case Nil
  then show ?case by simp
next
  case (Cons y ys)
  show ?case
  proof (cases "g y")
    case (Inl e')
    then have "e' = e" using Cons.prems(2) [of y] by auto
    then show ?thesis using Inl by simp
  next
    case (Inr v)
    then have "x \<in> set ys" using Cons.prems(1,3) by auto
    then have "map_err g ys = Inl e" using Cons.IH Cons.prems(2,3) by auto
    then show ?thesis using Inr by simp
  qed
qed

lemma zip_map_filter: "map fst (filter snd (zip xs (map h xs))) = filter h xs"
  by (induction xs) simp_all

text \<open>
  When the departure times of every active trip are uniform, \<^verbatim>\<open>get_trips\<close> with a
  time keeps the active trips with stop times whose comparison holds: a comparison that
  raises TypeError (all departure times missing) only excludes the trip.
\<close>

lemma active_at_uniform:
  assumes "r0 \<in> set f" and "departures_of sts (trip_id r0) \<noteq> []"
    and "\<And>r. r \<in> set f \<Longrightarrow> uniform (departures_of sts (trip_id r))"
  shows "active_at sts f t =
   Inr (filter (\<lambda>r. departures_of sts (trip_id r) \<noteq> []
                    \<and> group_flag t (departures_of sts (trip_id r))) f)"
proof -
  define groups where "groups = remdups (map trip_id (filter (\<lambda>r. departures_of sts (trip_id r) \<noteq> []) f))"
  define flag where "flag tid = group_flag t (departures_of sts tid)" for tid
  have u: "\<And>tid. tid \<in> set groups \<Longrightarrow> uniform (departures_of sts tid)"
    using assms(3) by (auto simp: groups_def)
  have m: "map_err (\<lambda>tid. group_is_active t (departures_of sts tid)) groups
           = Inr (map flag groups)"
    unfolding flag_def by (rule map_err_total) (rule group_is_active_uniform, rule u)
  have h: "map fst (filter snd (zip groups (map flag groups))) = filter flag groups"
    by (rule zip_map_filter)
  have mem: "\<And>r. r \<in> set f \<Longrightarrow>
     (trip_id r \<in> set (filter flag groups))
     = (departures_of sts (trip_id r) \<noteq> [] \<and> flag (trip_id r))"
    by (auto simp: groups_def)
  have "trip_id r0 \<in> set groups" using assms(1,2) by (auto simp: groups_def)
  then have ne: "groups \<noteq> []" by auto
  have "active_at sts f t = Inr (filter (\<lambda>r. trip_id r \<in> set (filter flag groups)) f)"
    by (simp only: active_at_def Let_def groups_def [symmetric] m h sum.case ne if_False)
  also have "filter (\<lambda>r. trip_id r \<in> set (filter flag groups)) f
    = filter (\<lambda>r. departures_of sts (trip_id r) \<noteq> [] \<and> flag (trip_id r)) f"
    by (rule filter_cong [OF refl]) (rule mem)
  finally show ?thesis unfolding flag_def .
qed

text \<open>
  A group that mixes time strings and missing values makes \<^verbatim>\<open>get_trips\<close> raise:
  the first such group in the order of the trip identifiers raises TypeError from
  \<^verbatim>\<open>min()\<close>, before the \<^verbatim>\<open>try\<close>.
\<close>

lemma active_at_mixed:
  assumes "r0 \<in> set f" and "\<not> uniform (departures_of sts (trip_id r0))"
  shows "active_at sts f t = Inl TypeError"
proof -
  define groups where "groups = remdups (map trip_id (filter (\<lambda>r. departures_of sts (trip_id r) \<noteq> []) f))"
  have "departures_of sts (trip_id r0) \<noteq> []" using assms(2) by (auto simp: uniform_def)
  then have g: "trip_id r0 \<in> set groups" using assms(1) by (auto simp: groups_def)
  have "map_err (\<lambda>tid. group_is_active t (departures_of sts tid)) groups = Inl TypeError"
  proof (rule map_err_raises [OF g])
    fix y
    show "group_is_active t (departures_of sts y) = Inl TypeError
          \<or> (\<exists>v. group_is_active t (departures_of sts y) = Inr v)"
      using group_is_active_uniform [of "departures_of sts y" t]
        group_is_active_mixed [of "departures_of sts y" t] by blast
  next
    show "group_is_active t (departures_of sts (trip_id r0)) = Inl TypeError"
      by (rule group_is_active_mixed [OF assms(2)])
  qed
  then show ?thesis by (simp add: active_at_def Let_def groups_def [symmetric])
qed

text \<open>
  C10. On the Tuesday 20200107 the three trips T, U and V are active. When the departure
  times of U are all missing, its comparison with 07:10:00 raises TypeError inside the
  \<^verbatim>\<open>try\<close>, and \<^verbatim>\<open>get_trips\<close> returns T alone. When T in addition has no departure
  time at its second stop, \<^verbatim>\<open>min()\<close> on the departure times of T raises TypeError
  before the \<^verbatim>\<open>try\<close>, and \<^verbatim>\<open>get_trips\<close> raises it to the caller instead of
  returning.
\<close>

theorem get_trips_mixed_departures_raise:
  "get_trips scenario_feed3 (Some ''20200107'') None =
     Inr [scenario_trip, scenario_trip\<lparr>trip_id := ''U''\<rparr>, scenario_trip\<lparr>trip_id := ''V''\<rparr>]
   \<and> departures_of (the (stop_times scenario_feed3)) ''T'' = [Str ''07:00:00'', NaN, Str ''07:30:00'']
   \<and> get_trips scenario_feed3 (Some ''20200107'') (Some (Str ''07:10:00'')) = Inl TypeError
   \<and> get_trips scenario_feed2 (Some ''20200107'') (Some (Str ''07:10:00'')) = Inr [scenario_trip]"
  by code_simp

text \<open>
  C3. \<^verbatim>\<open>get_busiest_date\<close> on two dates with the same number of active trips: the
  Saturday 20200104 (added by exception) and the Tuesday 20200107 both have all three
  trips active, and the maximum of the pairs (count, date) is the pair of the later date,
  not of the date listed first.
\<close>

theorem get_busiest_date_tie_latest:
  "compute_trips_activity scenario_feed2 (Some [''20200104'', ''20200107'']) =
     Inr \<lparr>ta_columns = [''trip_id'', ''20200104'', ''20200107''],
          ta_trip_id = [''T'', ''U'', ''V''],
          ta_dates = [(''20200104'', [1, 1, 1]), (''20200107'', [1, 1, 1])]\<rparr>
   \<and> get_busiest_date scenario_feed2 (Some [''20200104'', ''20200107'']) = Inr ''20200107''"
  by code_simp

text \<open>
  C9, as the code has it. For \<^verbatim>\<open>None\<close> and for the empty list of dates
  \<^verbatim>\<open>compute_trips_activity\<close> returns the empty table with the column \<^verbatim>\<open>trip_id\<close>,
  for every feed (also one without trips); \<^verbatim>\<open>get_busiest_date\<close> has no date to
  return and raises: ValueError on the empty list, TypeError on \<^verbatim>\<open>None\<close>.
\<close>

theorem empty_dates_activity:
  "compute_trips_activity fd None = Inr \<lparr>ta_columns = [''trip_id''], ta_trip_id = [], ta_dates = []\<rparr>
   \<and> compute_trips_activity fd (Some []) =
       Inr \<lparr>ta_columns = [''trip_id''], ta_trip_id = [], ta_dates = []\<rparr>
   \<and> get_busiest_date fd (Some []) = Inl ValueError
   \<and> get_busiest_date fd None = Inl TypeError"
  by (simp add: compute_trips_activity_def get_busiest_date_def py_max_def)

theorem empty_dates_activity_witness:
  "compute_trips_activity scenario_feed2 (Some []) =
     Inr \<lparr>ta_columns = [''trip_id''], ta_trip_id = [], ta_dates = []\<rparr>
   \<and> get_busiest_date scenario_feed2 (Some []) = Inl ValueError"
  using empty_dates_activity [of scenario_feed2] by simp

text \<open>
  The claim fails as stated: the busiest-date query raises on an empty list of dates.
\<close>

theorem busiest_date_empty_counterexample:
  "\<not> (\<exists>d. get_busiest_date scenario_feed2 (Some []) = Inr d)"
  by (simp add: compute_trips_activity_def get_busiest_date_def py_max_def)


section \<open>Properties of the peak window\<close>

lemma fold_max_Max: "counts \<noteq> [] \<Longrightarrow> fold max counts (0::nat) = Max (set counts)"
proof -
  assume ne: "counts \<noteq> []"
  have "fold max counts (0::nat) = Max (set (0 # counts))"
    by (simp only: Max.set_eq_fold)
  also have "\<dots> = max 0 (Max (set counts))"
    using ne by (simp add: Max_insert)
  finally show ?thesis by simp
qed

lemma is_max_run_iff:
  assumes "counts \<noteq> []"
  shows "is_max_run counts s e =
     (s \<le> e \<and> e < length counts
      \<and> (\<forall>i. s \<le> i \<and> i \<le> e \<longrightarrow> counts ! i = Max (set counts))
      \<and> (s = 0 \<or> counts ! (s - 1) \<noteq> Max (set counts))
      \<and> (Suc e = length counts \<or> counts ! Suc e \<noteq> Max (set counts)))"
proof -
  have "list_all (\<lambda>i. counts ! i = Max (set counts)) [s ..< Suc e]
        = (\<forall>i. s \<le> i \<and> i \<le> e \<longrightarrow> counts ! i = Max (set counts))"
    by (auto simp: list_all_iff)
  then show ?thesis
    unfolding is_max_run_def Let_def fold_max_Max [OF assms] by simp
qed

lemma max_runs_set: "set (max_runs counts) = {(s, e). is_max_run counts s e}"
proof -
  have "\<And>s e. is_max_run counts s e \<Longrightarrow> s \<le> e \<and> e < length counts"
    by (simp add: is_max_run_def Let_def)
  then show ?thesis
    by (fastforce simp: max_runs_def)
qed

lemma sorted_fst_concat:
  "sorted ss \<Longrightarrow> sorted (map fst (concat (map (\<lambda>s. map (\<lambda>e. (s, e)) (g s)) ss)))"
proof (induction ss)
  case Nil
  then show ?case by simp
next
  case (Cons a ss)
  have "map fst (map (\<lambda>e. (a, e)) (g a)) = replicate (length (g a)) a"
    by (simp add: map_replicate_const comp_def)
  then show ?case using Cons
    by (auto simp: sorted_append comp_def)
qed

lemma max_runs_sorted: "sorted (map fst (max_runs counts))"
  unfolding max_runs_def by (rule sorted_fst_concat) simp

lemma max_run_exists:
  assumes ne: "counts \<noteq> []"
  shows "\<exists>s e. is_max_run counts s e"
proof -
  define m where "m = Max (set counts)"
  have "m \<in> set counts" unfolding m_def using ne by (simp add: Max_in)
  then obtain i where i: "i < length counts" "counts ! i = m"
    by (auto simp: in_set_conv_nth)
  define P where "P s = (s \<le> i \<and> (\<forall>j. s \<le> j \<and> j \<le> i \<longrightarrow> counts ! j = m))" for s
  define Q where "Q e = (i \<le> e \<and> e < length counts \<and> (\<forall>j. i \<le> j \<and> j \<le> e \<longrightarrow> counts ! j = m))" for e
  have Pi: "P i" using i by (auto simp: P_def)
  have Qi: "Q i" using i by (auto simp: Q_def)
  define s0 where "s0 = (LEAST s. P s)"
  define e0 where "e0 = (GREATEST e. Q e)"
  have Ps: "P s0" unfolding s0_def using Pi by (rule LeastI)
  have Qb: "\<And>y. Q y \<Longrightarrow> y \<le> length counts" by (simp add: Q_def)
  have Qe: "Q e0" unfolding e0_def using Qi Qb by (rule GreatestI_nat)
  have left: "s0 = 0 \<or> counts ! (s0 - 1) \<noteq> m"
  proof (rule ccontr)
    assume "\<not> ?thesis"
    then have pos: "0 < s0" and c: "counts ! (s0 - 1) = m" by auto
    have "P (s0 - 1)" using Ps pos c unfolding P_def
      by (metis Suc_pred' diff_le_self le_trans not_less_eq_eq order_antisym_conv)
    then have "s0 \<le> s0 - 1" unfolding s0_def by (rule Least_le)
    then show False using pos by simp
  qed
  have right: "Suc e0 = length counts \<or> counts ! Suc e0 \<noteq> m"
  proof (rule ccontr)
    assume "\<not> ?thesis"
    then have lt: "Suc e0 \<noteq> length counts" and c: "counts ! Suc e0 = m" by auto
    have "Q (Suc e0)" using Qe lt c unfolding Q_def
      by (metis Suc_lessI le_Suc_eq)
    then have "Suc e0 \<le> e0" unfolding e0_def using Qb by (rule Greatest_le_nat)
    then show False by simp
  qed
  have mid: "\<forall>j. s0 \<le> j \<and> j \<le> e0 \<longrightarrow> counts ! j = m"
    using Ps Qe unfolding P_def Q_def by (metis nat_le_linear)
  have "s0 \<le> e0" "e0 < length counts" using Ps Qe unfolding P_def Q_def by auto
  then have "is_max_run counts s0 e0"
    using left right mid unfolding is_max_run_iff [OF ne] m_def by simp
  then show ?thesis by blast
qed

lemma first_longest_split:
  "\<exists>pre post. b # xs = pre @ first_longest f b xs # post
     \<and> (\<forall>y \<in> set pre. f y < f (first_longest f b xs))
     \<and> (\<forall>y \<in> set post. f y \<le> f (first_longest f b xs))"
proof (induction xs arbitrary: b)
  case Nil
  show ?case by (rule exI [of _ "[]"], rule exI [of _ "[]"]) simp
next
  case (Cons x xs)
  show ?case
  proof (cases "f b < f x")
    case True
    define r where "r = first_longest f x xs"
    from Cons [of x] obtain pre post where
      s: "x # xs = pre @ r # post" and p: "\<forall>y \<in> set pre. f y < f r" and q: "\<forall>y \<in> set post. f y \<le> f r"
      unfolding r_def by blast
    have "f x \<le> f r" using s p by (cases pre) auto
    then have "f b < f r" using True by simp
    then have "b # x # xs = (b # pre) @ r # post \<and> (\<forall>y \<in> set (b # pre). f y < f r)"
      using s p by simp
    then show ?thesis using q True unfolding r_def [symmetric]
      by (simp only: first_longest.simps if_True) (metis r_def)
  next
    case False
    define r where "r = first_longest f b xs"
    from Cons [of b] obtain pre post where
      s: "b # xs = pre @ r # post" and p: "\<forall>y \<in> set pre. f y < f r" and q: "\<forall>y \<in> set post. f y \<le> f r"
      unfolding r_def by blast
    have fr: "first_longest f b (x # xs) = r" using False by (simp add: r_def)
    show ?thesis
    proof (cases pre)
      case Nil
      then have "b # x # xs = [] @ r # (x # post)" and "f x \<le> f r" using s False by auto
      then show ?thesis unfolding fr using q by (metis empty_iff list.set(1) set_ConsD)
    next
      case (Cons b' pre')
      then have b: "b' = b" and xs: "xs = pre' @ r # post" using s by auto
      have "f b < f r" using p Cons b by simp
      then have "f x < f r" using False by simp
      then have "b # x # xs = (b # x # pre') @ r # post \<and> (\<forall>y \<in> set (b # x # pre'). f y < f r)"
        using xs p Cons b by simp
      then show ?thesis unfolding fr using q by blast
    qed
  qed
qed

lemma sample_times_props:
  "sorted (sample_times grp) \<and> distinct (sample_times grp)
   \<and> set (sample_times grp) = ts_start_time ` set grp \<union> ts_end_time ` set grp"
  by (auto simp: sample_times_def)

lemma count_active_trips_eq:
  "count_active_trips grp t = length (filter (\<lambda>r. ts_start_time r \<le> t \<and> t < ts_end_time r) grp)"
  by (simp add: count_active_trips_def)

lemma get_peak_indices_props:
  assumes ne: "counts \<noteq> []" and len: "length tms = length counts"
  shows "\<exists>s e. get_peak_indices tms counts = Inr (s, e) \<and> is_max_run counts s e
           \<and> (\<forall>s' e'. is_max_run counts s' e' \<longrightarrow>
                 span tms (s', e') \<le> span tms (s, e)
                 \<and> (span tms (s', e') = span tms (s, e) \<longrightarrow> s \<le> s'))"
proof -
  obtain s0 e0 where "is_max_run counts s0 e0" using max_run_exists [OF ne] by blast
  then have "(s0, e0) \<in> set (max_runs counts)" by (simp add: max_runs_set)
  then obtain r rs where rs: "max_runs counts = r # rs" by (cases "max_runs counts") auto
  define p where "p = first_longest (span tms) r rs"
  obtain pre post where sp: "r # rs = pre @ p # post"
    and lt: "\<forall>y \<in> set pre. span tms y < span tms p"
    and le: "\<forall>y \<in> set post. span tms y \<le> span tms p"
    using first_longest_split [of r rs "span tms"] unfolding p_def by blast
  have g: "get_peak_indices tms counts = Inr p"
    using ne len rs by (simp add: get_peak_indices_def p_def)
  have mem: "p \<in> set (max_runs counts)" using rs sp by simp
  then have run: "is_max_run counts (fst p) (snd p)" by (auto simp: max_runs_set)
  have srt: "sorted (map fst (pre @ p # post))"
    using max_runs_sorted [of counts] rs sp by simp
  have other: "span tms (s', e') \<le> span tms p \<and> (span tms (s', e') = span tms p \<longrightarrow> fst p \<le> s')"
    if "is_max_run counts s' e'" for s' e'
  proof -
    have "(s', e') \<in> set (max_runs counts)" using that by (simp add: max_runs_set)
    then have "(s', e') \<in> set (pre @ p # post)" using rs sp by simp
    then consider "(s', e') \<in> set pre" | "(s', e') = p" | "(s', e') \<in> set post" by auto
    then show ?thesis
    proof cases
      case 1
      then show ?thesis using lt by fastforce
    next
      case 2
      then show ?thesis by auto
    next
      case 3
      then have "fst p \<le> s'" using srt by (force simp: sorted_append)
      then show ?thesis using le 3 by fastforce
    qed
  qed
  show ?thesis
    using g run other by (cases p) auto
qed

lemma peak_fields_first_longest:
  assumes "grp \<noteq> []" and tms: "tms = sample_times grp"
    and counts: "counts = map (count_active_trips grp) tms"
  shows "\<exists>s e. get_peak_indices tms counts = Inr (s, e)
           \<and> peak_fields grp = Inr \<lparr>peak_num_trips = Max (set counts),
                peak_start_time = tms ! s, peak_end_time = tms ! e\<rparr>
           \<and> is_max_run counts s e
           \<and> (\<forall>s' e'. is_max_run counts s' e' \<longrightarrow>
                 tms ! e' - tms ! s' \<le> tms ! e - tms ! s
                 \<and> (tms ! e' - tms ! s' = tms ! e - tms ! s \<longrightarrow> s \<le> s'))"
proof -
  have "set tms \<noteq> {}" using assms(1) sample_times_props [of grp] by (simp add: tms)
  then have ne: "counts \<noteq> []" by (auto simp: counts)
  have len: "length tms = length counts" by (simp add: counts)
  obtain s e where g: "get_peak_indices tms counts = Inr (s, e)"
    and run: "is_max_run counts s e"
    and other: "\<forall>s' e'. is_max_run counts s' e' \<longrightarrow>
                 span tms (s', e') \<le> span tms (s, e)
                 \<and> (span tms (s', e') = span tms (s, e) \<longrightarrow> s \<le> s')"
    using get_peak_indices_props [OF ne len] by blast
  note r = run [unfolded is_max_run_iff [OF ne]]
  have cs: "counts ! s = Max (set counts)" using r by auto
  have pf: "peak_fields grp = Inr \<lparr>peak_num_trips = Max (set counts),
      peak_start_time = tms ! s, peak_end_time = tms ! e\<rparr>"
    using g cs by (simp add: peak_fields_def Let_def tms [symmetric] counts [symmetric])
  show ?thesis
    using g pf run other unfolding span_def by (intro exI [of _ s] exI [of _ e]) simp
qed

text \<open>
  The group function of a route returns a row for every non-empty group; the row has
  the headway fields of the headways and the peak fields of the group.
\<close>

lemma route_row_of_total:
  assumes "grp \<noteq> []"
  shows "\<exists>row. route_row_of route direction b headways grp = Inr row
           \<and> rs_headways row = headway_fields headways
           \<and> peak_fields grp = Inr (rs_peak row)
           \<and> rs_num_trips row = length grp"
proof -
  obtain s e where "peak_fields grp = Inr \<lparr>peak_num_trips = Max (set (map (count_active_trips grp) (sample_times grp))),
                peak_start_time = sample_times grp ! s, peak_end_time = sample_times grp ! e\<rparr>"
    using peak_fields_first_longest [OF assms refl refl] by blast
  then show ?thesis by (simp add: route_row_of_def Let_def)
qed

text \<open>
  C6. For a non-empty group of a route, or of a route and a direction under direction
  splitting, the sampled times are the sorted distinct start and end times of the group,
  the count at a time \<open>t\<close> is the number of trips with \<open>start \<le> t < end\<close>, and the row
  that the group function returns reports as peak fields the maximum of the counts and
  the times at the two ends of a run of consecutive sampled times: the count is maximal
  on the whole run and at no sampled time next to it, no such run spans a longer time,
  and no such run of the same span starts earlier. The counts 1, 2, 2, 1 at the times
  0, 10, 20, 30 give the run from index 1 to index 2, the window from 10 to 20.
\<close>

theorem peak_window_first_longest:
  assumes "grp \<noteq> []"
    and "(grp = filter (\<lambda>r. ts_route_id r = route) f
            \<and> res = compute_route_stats hs he f route)
         \<or> (grp = filter (\<lambda>r. ts_route_id r = route \<and> ts_direction_id r = Some d) f
            \<and> res = compute_route_stats_split_directions hs he f (route, d))"
    and "tms = sample_times grp" and "counts = map (count_active_trips grp) tms"
    and "m = Max (set counts)"
  shows "sorted tms \<and> distinct tms
     \<and> set tms = ts_start_time ` set grp \<union> ts_end_time ` set grp
     \<and> (\<forall>t. count_active_trips grp t
              = length (filter (\<lambda>r. ts_start_time r \<le> t \<and> t < ts_end_time r) grp))
     \<and> (\<exists>s e row. res = Inr row
           \<and> rs_peak row = \<lparr>peak_num_trips = m, peak_start_time = tms ! s,
                              peak_end_time = tms ! e\<rparr>
           \<and> get_peak_indices tms counts = Inr (s, e)
           \<and> s \<le> e \<and> e < length tms
           \<and> (\<forall>i. s \<le> i \<and> i \<le> e \<longrightarrow> counts ! i = m)
           \<and> (s = 0 \<or> counts ! (s - 1) \<noteq> m)
           \<and> (Suc e = length tms \<or> counts ! Suc e \<noteq> m)
           \<and> (\<forall>s' e'. s' \<le> e' \<and> e' < length tms
                   \<and> (\<forall>i. s' \<le> i \<and> i \<le> e' \<longrightarrow> counts ! i = m)
                   \<and> (s' = 0 \<or> counts ! (s' - 1) \<noteq> m)
                   \<and> (Suc e' = length tms \<or> counts ! Suc e' \<noteq> m)
                 \<longrightarrow> tms ! e' - tms ! s' \<le> tms ! e - tms ! s
                     \<and> (tms ! e' - tms ! s' = tms ! e - tms ! s \<longrightarrow> s \<le> s')))
     \<and> get_peak_indices [0, 10, 20, 30] [1, 2, 2, 1] = Inr (1, 2)"
proof -
  have "set tms \<noteq> {}" using assms(1) sample_times_props [of grp] by (simp add: assms(3))
  then have ne: "counts \<noteq> []" by (auto simp: assms(4))
  have len: "length tms = length counts" by (simp add: assms(4))
  obtain s e where g: "get_peak_indices tms counts = Inr (s, e)"
    and pf: "peak_fields grp = Inr \<lparr>peak_num_trips = m,
                peak_start_time = tms ! s, peak_end_time = tms ! e\<rparr>"
    and run: "is_max_run counts s e"
    and other: "\<forall>s' e'. is_max_run counts s' e' \<longrightarrow>
                 tms ! e' - tms ! s' \<le> tms ! e - tms ! s
                 \<and> (tms ! e' - tms ! s' = tms ! e - tms ! s \<longrightarrow> s \<le> s')"
    using peak_fields_first_longest [OF assms(1,3,4)] unfolding assms(5) by blast
  have "\<exists>b hw direction. res = route_row_of route direction b hw grp"
    using assms(2)
  proof (elim disjE conjE)
    assume "grp = filter (\<lambda>r. ts_route_id r = route) f"
      and "res = compute_route_stats hs he f route"
    then show ?thesis by (simp add: compute_route_stats_def Let_def) blast
  next
    assume "grp = filter (\<lambda>r. ts_route_id r = route \<and> ts_direction_id r = Some d) f"
      and "res = compute_route_stats_split_directions hs he f (route, d)"
    then show ?thesis by (simp add: compute_route_stats_split_directions_def Let_def) blast
  qed
  then obtain b hw direction where res: "res = route_row_of route direction b hw grp"
    by blast
  obtain row where row: "res = Inr row" and pk: "peak_fields grp = Inr (rs_peak row)"
    using route_row_of_total [OF assms(1), of route direction b hw] res by auto
  have rp: "rs_peak row = \<lparr>peak_num_trips = m, peak_start_time = tms ! s,
      peak_end_time = tms ! e\<rparr>"
    using pf pk by simp
  have r: "s \<le> e \<and> e < length tms
           \<and> (\<forall>i. s \<le> i \<and> i \<le> e \<longrightarrow> counts ! i = m)
           \<and> (s = 0 \<or> counts ! (s - 1) \<noteq> m)
           \<and> (Suc e = length tms \<or> counts ! Suc e \<noteq> m)"
    using run unfolding is_max_run_iff [OF ne] assms(5) len .
  have o: "\<forall>s' e'. s' \<le> e' \<and> e' < length tms
                   \<and> (\<forall>i. s' \<le> i \<and> i \<le> e' \<longrightarrow> counts ! i = m)
                   \<and> (s' = 0 \<or> counts ! (s' - 1) \<noteq> m)
                   \<and> (Suc e' = length tms \<or> counts ! Suc e' \<noteq> m)
                 \<longrightarrow> tms ! e' - tms ! s' \<le> tms ! e - tms ! s
                     \<and> (tms ! e' - tms ! s' = tms ! e - tms ! s \<longrightarrow> s \<le> s')"
    using other unfolding is_max_run_iff [OF ne] assms(5) len .
  have main: "\<exists>s e row. res = Inr row
           \<and> rs_peak row = \<lparr>peak_num_trips = m, peak_start_time = tms ! s,
                              peak_end_time = tms ! e\<rparr>
           \<and> get_peak_indices tms counts = Inr (s, e)
           \<and> s \<le> e \<and> e < length tms
           \<and> (\<forall>i. s \<le> i \<and> i \<le> e \<longrightarrow> counts ! i = m)
           \<and> (s = 0 \<or> counts ! (s - 1) \<noteq> m)
           \<and> (Suc e = length tms \<or> counts ! Suc e \<noteq> m)
           \<and> (\<forall>s' e'. s' \<le> e' \<and> e' < length tms
                   \<and> (\<forall>i. s' \<le> i \<and> i \<le> e' \<longrightarrow> counts ! i = m)
                   \<and> (s' = 0 \<or> counts ! (s' - 1) \<noteq> m)
                   \<and> (Suc e' = length tms \<or> counts ! Suc e' \<noteq> m)
                 \<longrightarrow> tms ! e' - tms ! s' \<le> tms ! e - tms ! s
                     \<and> (tms ! e' - tms ! s' = tms ! e - tms ! s \<longrightarrow> s \<le> s'))"
    apply (rule exI [of _ s], rule exI [of _ e], rule exI [of _ row])
    apply (rule conjI [OF row], rule conjI [OF rp], rule conjI [OF g])
    using r o apply (intro conjI)
            apply blast
           apply blast
          apply blast
         apply blast
        apply blast
       apply (rule o)
    done
  have ex: "get_peak_indices [0, 10, 20, 30] [1, 2, 2, 1] = Inr (1, 2)"
    by code_simp
  have st: "sorted tms \<and> distinct tms
     \<and> set tms = ts_start_time ` set grp \<union> ts_end_time ` set grp"
    unfolding assms(3) by (rule sample_times_props)
  have ct: "\<forall>t. count_active_trips grp t
              = length (filter (\<lambda>r. ts_start_time r \<le> t \<and> t < ts_end_time r) grp)"
    by (simp add: count_active_trips_eq)
  show ?thesis
    apply (intro conjI)
    using st apply blast
    using st apply blast
    using st apply blast
    apply (rule ct)
    apply (rule main)
    apply (rule ex)
    done
qed

theorem peak_window_first_longest_witness:
  "sample_times two_peak_trips = [0, 10, 20, 30, 40, 50]
   \<and> map (count_active_trips two_peak_trips) (sample_times two_peak_trips) = [2, 1, 2, 2, 1, 0]
   \<and> map_sum id rs_peak
        (compute_route_stats headway_start_default headway_end_default
           (trip_at ''x'' None 0 50 \<lparr>ts_route_id := ''S''\<rparr> # two_peak_trips) ''R'')
       = Inr \<lparr>peak_num_trips = 2, peak_start_time = 20, peak_end_time = 30\<rparr>
   \<and> map_sum id rs_peak
        (compute_route_stats_split_directions headway_start_default headway_end_default
           (trip_at ''x'' (Some 1) 0 50 # two_peak_trips) (''R'', 0))
       = Inr \<lparr>peak_num_trips = 2, peak_start_time = 20, peak_end_time = 30\<rparr>"
proof -
  have ne: "two_peak_trips \<noteq> []" by (simp add: two_peak_trips_def)
  have t: "sample_times two_peak_trips = [0, 10, 20, 30, 40, 50]" by code_simp
  have c: "map (count_active_trips two_peak_trips) [0, 10, 20, 30, 40, 50] = [2, 1, 2, 2, 1, 0]"
    by code_simp
  have i: "get_peak_indices [0, 10, 20, 30, 40, 50] [2, 1, 2, 2, 1, 0] = Inr (2, 3)" by code_simp
  have m: "(2::nat) = Max (set [2, 1, 2, 2, 1, 0])" by simp
  have f1: "two_peak_trips = filter (\<lambda>r. ts_route_id r = ''R'')
      (trip_at ''x'' None 0 50 \<lparr>ts_route_id := ''S''\<rparr> # two_peak_trips)"
    by (simp add: two_peak_trips_def trip_at_def)
  have f2: "two_peak_trips = filter (\<lambda>r. ts_route_id r = ''R'' \<and> ts_direction_id r = Some 0)
      (trip_at ''x'' (Some 1) 0 50 # two_peak_trips)"
    by (simp add: two_peak_trips_def trip_at_def)
  have a1: "(two_peak_trips = filter (\<lambda>r. ts_route_id r = ''R'')
      (trip_at ''x'' None 0 50 \<lparr>ts_route_id := ''S''\<rparr> # two_peak_trips)
      \<and> compute_route_stats headway_start_default headway_end_default
           (trip_at ''x'' None 0 50 \<lparr>ts_route_id := ''S''\<rparr> # two_peak_trips) ''R''
        = compute_route_stats headway_start_default headway_end_default
           (trip_at ''x'' None 0 50 \<lparr>ts_route_id := ''S''\<rparr> # two_peak_trips) ''R'')
     \<or> (two_peak_trips = filter (\<lambda>r. ts_route_id r = ''R'' \<and> ts_direction_id r = Some 0)
          (trip_at ''x'' None 0 50 \<lparr>ts_route_id := ''S''\<rparr> # two_peak_trips)
        \<and> compute_route_stats headway_start_default headway_end_default
           (trip_at ''x'' None 0 50 \<lparr>ts_route_id := ''S''\<rparr> # two_peak_trips) ''R''
        = compute_route_stats_split_directions headway_start_default headway_end_default
           (trip_at ''x'' None 0 50 \<lparr>ts_route_id := ''S''\<rparr> # two_peak_trips) (''R'', 0))"
    using f1 by blast
  have a2: "(two_peak_trips = filter (\<lambda>r. ts_route_id r = ''R'')
      (trip_at ''x'' (Some 1) 0 50 # two_peak_trips)
      \<and> compute_route_stats_split_directions headway_start_default headway_end_default
           (trip_at ''x'' (Some 1) 0 50 # two_peak_trips) (''R'', 0)
        = compute_route_stats headway_start_default headway_end_default
           (trip_at ''x'' (Some 1) 0 50 # two_peak_trips) ''R'')
     \<or> (two_peak_trips = filter (\<lambda>r. ts_route_id r = ''R'' \<and> ts_direction_id r = Some 0)
          (trip_at ''x'' (Some 1) 0 50 # two_peak_trips)
        \<and> compute_route_stats_split_directions headway_start_default headway_end_default
           (trip_at ''x'' (Some 1) 0 50 # two_peak_trips) (''R'', 0)
        = compute_route_stats_split_directions headway_start_default headway_end_default
           (trip_at ''x'' (Some 1) 0 50 # two_peak_trips) (''R'', 0))"
    using f2 by blast
  from peak_window_first_longest [OF ne a1 t [symmetric] c [symmetric] m]
  obtain s e row where r1: "compute_route_stats headway_start_default headway_end_default
           (trip_at ''x'' None 0 50 \<lparr>ts_route_id := ''S''\<rparr> # two_peak_trips) ''R'' = Inr row"
    and p1: "rs_peak row = \<lparr>peak_num_trips = 2, peak_start_time = [0, 10, 20, 30, 40, 50] ! s,
        peak_end_time = [0, 10, 20, 30, 40, 50] ! e\<rparr>"
    and g1: "get_peak_indices [0, 10, 20, 30, 40, 50] [2, 1, 2, 2, 1, 0] = Inr (s, e)"
    by blast
  have "s = 2" "e = 3" using g1 i by simp_all
  then have w1: "map_sum id rs_peak
        (compute_route_stats headway_start_default headway_end_default
           (trip_at ''x'' None 0 50 \<lparr>ts_route_id := ''S''\<rparr> # two_peak_trips) ''R'')
       = Inr \<lparr>peak_num_trips = 2, peak_start_time = 20, peak_end_time = 30\<rparr>"
    using r1 p1 by simp
  from peak_window_first_longest [OF ne a2 t [symmetric] c [symmetric] m]
  obtain s' e' row' where r2: "compute_route_stats_split_directions headway_start_default
           headway_end_default (trip_at ''x'' (Some 1) 0 50 # two_peak_trips) (''R'', 0) = Inr row'"
    and p2: "rs_peak row' = \<lparr>peak_num_trips = 2, peak_start_time = [0, 10, 20, 30, 40, 50] ! s',
        peak_end_time = [0, 10, 20, 30, 40, 50] ! e'\<rparr>"
    and g2: "get_peak_indices [0, 10, 20, 30, 40, 50] [2, 1, 2, 2, 1, 0] = Inr (s', e')"
    by blast
  have "s' = 2" "e' = 3" using g2 i by simp_all
  then have w2: "map_sum id rs_peak
        (compute_route_stats_split_directions headway_start_default headway_end_default
           (trip_at ''x'' (Some 1) 0 50 # two_peak_trips) (''R'', 0))
       = Inr \<lparr>peak_num_trips = 2, peak_start_time = 20, peak_end_time = 30\<rparr>"
    using r2 p2 by simp
  show ?thesis using t c w1 w2 by simp
qed


section \<open>Properties of the statistics\<close>

lemma routes_cols_documented:
  "set (routes_stats_cols split) = set (documented_routes_columns split)"
  by (cases split) (auto simp: routes_stats_cols_def documented_routes_columns_def)

lemma stops_cols_documented:
  "set (stops_stats_cols split) = set (documented_stops_columns split)"
  by (cases split) (auto simp: stops_stats_cols_def documented_stops_columns_def)

text \<open>
  On an empty subset \<^verbatim>\<open>compute_routes_stats_base\<close> and \<^verbatim>\<open>compute_stops_stats_base\<close>
  return a frame without rows that has every documented column, with \<^verbatim>\<open>direction_id\<close>
  under direction splitting, and so does \<^verbatim>\<open>compute_feed_stats\<close> when no trip is active
  on the date.
\<close>

lemma empty_subset_full_columns:
  "compute_routes_stats_base [] split hs he = Inr (empty_frame (routes_stats_cols split))
   \<and> set (routes_stats_cols split) = set (documented_routes_columns split)
   \<and> compute_stops_stats_base sts [] split hs he = Inr (empty_frame (stops_stats_cols split))
   \<and> set (stops_stats_cols split) = set (documented_stops_columns split)
   \<and> (get_trips fd (Some date) None = Inr []
        \<longrightarrow> compute_feed_stats fd stats date = Inr (empty_frame feed_stats_cols))
   \<and> set feed_stats_cols = set documented_feed_columns
   \<and> tbl_rows (empty_frame cols :: 'r table) = [] \<and> tbl_columns (empty_frame cols :: 'r table) = cols"
  by (simp add: routes_cols_documented stops_cols_documented compute_routes_stats_base_def
      compute_stops_stats_base_def compute_feed_stats_def feed_stats_cols_def
      documented_feed_columns_def empty_frame_def)

text \<open>
  When trips are active on the date and the trips statistics are empty,
  \<^verbatim>\<open>compute_feed_stats\<close> goes past its guard, which tests the active trips only, and
  has no sampled time for the peak: it raises instead of returning the empty frame.
\<close>

lemma compute_feed_stats_no_stats:
  assumes "get_trips fd (Some date) None = Inr active" and "active \<noteq> []"
    and "get_routes fd active = Inr rs" and "get_stops fd active = Inr ss"
  shows "compute_feed_stats fd [] date = Inl ValueError"
proof -
  have c: "concat (map (\<lambda>t. ([] :: trip_stats list)) active) = []"
    by (induction active) simp_all
  have p: "peak_fields [] = Inl ValueError"
    by (simp add: peak_fields_def sample_times_def get_peak_indices_def)
  show ?thesis
    using assms by (simp add: compute_feed_stats_def Let_def c p)
qed

text \<open>
  C8. The routes and the stops statistics of an empty subset are the empty frames with
  the documented columns. For the feed statistics the claim fails: on the Tuesday
  20200107 the three trips of the feed are active, and with empty trips statistics
  \<^verbatim>\<open>compute_feed_stats\<close> raises, where its docstring promises the empty frame with the
  documented columns.
\<close>

theorem compute_feed_stats_empty_stats_raises:
  "get_trips scenario_feed2 (Some ''20200107'') None =
     Inr [scenario_trip, scenario_trip\<lparr>trip_id := ''U''\<rparr>, scenario_trip\<lparr>trip_id := ''V''\<rparr>]
   \<and> compute_feed_stats scenario_feed2 [] ''20200107'' = Inl ValueError
   \<and> compute_feed_stats scenario_feed2 [] ''20200107'' \<noteq> Inr (empty_frame feed_stats_cols)
   \<and> compute_routes_stats_base [] True headway_start_default headway_end_default
       = Inr (empty_frame (routes_stats_cols True))
   \<and> compute_stops_stats_base (the (stop_times scenario_feed2)) [] True headway_start_default
        headway_end_default = Inr (empty_frame (stops_stats_cols True))"
  by code_simp

lemma in_window_sorted: "sorted (in_window hs he xs)"
  by (simp add: in_window_def)

lemma in_window_set: "set (in_window hs he xs) = {t \<in> set xs. hs \<le> t \<and> t \<le> he}"
  by (auto simp: in_window_def)

lemma in_window_length: "length (in_window hs he xs) = length (filter (\<lambda>t. hs \<le> t \<and> t \<le> he) xs)"
  by (simp add: in_window_def)

lemma diff_short: "length xs < 2 \<Longrightarrow> diff xs = []"
  by (cases xs rule: diff.cases) simp_all

lemma consecutive_differences_diff: "consecutive_differences xs = diff xs"
proof (induction xs rule: diff.induct)
  case (1 x y xs)
  have "[0 ..< Suc (length xs)] = 0 # map Suc [0 ..< length xs]"
    by (simp add: upt_conv_Cons map_Suc_upt del: upt_Suc)
  then show ?case using 1 by (simp add: consecutive_differences_def comp_def del: upt_Suc)
qed (simp_all add: consecutive_differences_def)

lemma headway_fields_Nil: "headway_fields [] = no_headways"
  by (simp add: headway_fields_def no_headways_def)

lemma headway_fields_single: "headway_fields [d] = one_headway d"
  by (simp add: headway_fields_def np_max_def np_min_def np_mean_def one_headway_def)

lemma headways_both_append:
  "headways_both_directions hs he grp = direction_headways hs he grp 0 @ direction_headways hs he grp 1"
  by (simp add: headways_both_directions_def)


lemma headways_of_short: "length q < 2 \<Longrightarrow> headway_fields (diff q) = no_headways"
  by (simp add: diff_short headway_fields_Nil)

lemma headways_of_two: "q = [t1, t2] \<Longrightarrow> headway_fields (diff q) = one_headway (t2 - t1)"
  by (simp add: headway_fields_single)

lemma diff_nth: "diff q = map (\<lambda>i. q ! Suc i - q ! i) [0 ..< length q - 1]"
  using consecutive_differences_diff [of q] by (simp add: consecutive_differences_def)

lemma filter_route_direction:
  "filter (\<lambda>r. ts_direction_id r = Some d) (filter (\<lambda>r. ts_route_id r = route) f)
   = filter (\<lambda>r. ts_route_id r = route \<and> ts_direction_id r = Some d) f"
  by simp

lemma split_row_headways:
  assumes "grp = filter (\<lambda>r. ts_route_id r = route \<and> ts_direction_id r = Some d) f"
    and "grp \<noteq> []"
    and "q = sort (filter (\<lambda>t. hs \<le> t \<and> t \<le> he) (map ts_start_time grp))"
  shows "\<exists>row. compute_route_stats_split_directions hs he f (route, d) = Inr row
           \<and> rs_headways row = headway_fields (diff q)"
proof -
  have h: "headways_split_directions hs he grp = diff q"
    by (simp add: headways_split_directions_def in_window_def assms(3))
  obtain b where "compute_route_stats_split_directions hs he f (route, d)
      = route_row_of route (Some d) b (diff q) grp"
    by (simp add: compute_route_stats_split_directions_def Let_def assms(1) [symmetric] h)
  then show ?thesis
    using route_row_of_total [OF assms(2), of route "Some d" b "diff q"] by auto
qed

lemma both_row_headways:
  assumes "grp = filter (\<lambda>r. ts_route_id r = route) f" and "grp \<noteq> []"
    and "q0 = sort (filter (\<lambda>t. hs \<le> t \<and> t \<le> he)
                 (map ts_start_time (filter (\<lambda>r. ts_direction_id r = Some 0) grp)))"
    and "q1 = sort (filter (\<lambda>t. hs \<le> t \<and> t \<le> he)
                 (map ts_start_time (filter (\<lambda>r. ts_direction_id r = Some 1) grp)))"
  shows "\<exists>row. compute_route_stats hs he f route = Inr row
           \<and> rs_headways row = headway_fields (diff q0 @ diff q1)"
proof -
  have h: "headways_both_directions hs he grp = diff q0 @ diff q1"
    by (simp add: headways_both_append direction_headways_def in_window_def assms(3,4))
  obtain b where "compute_route_stats hs he f route = route_row_of route None b (diff q0 @ diff q1) grp"
    by (simp add: compute_route_stats_def Let_def assms(1) [symmetric] h)
  then show ?thesis
    using route_row_of_total [OF assms(2), of route None b "diff q0 @ diff q1"] by auto
qed

lemma stop_row_headways:
  assumes "q = sort (filter (\<lambda>t. hs \<le> t \<and> t \<le> he) (present (map sv_departure_time visits)))"
  shows "ss_headways (compute_stop_stats hs he stop direction visits) = headway_fields (diff q)"
  by (simp add: compute_stop_stats_def headways_stop_def consecutive_differences_diff
      in_window_def assms)

text \<open>
  C7, as the code has it. The headways of a group are the differences of consecutive
  times of the sorted list of the times of the group that lie in the window, both bounds
  included (by default from 07:00:00 to 19:00:00). For the row of a route and a direction
  under direction splitting, and for the row of a stop: with fewer than two such times
  the three headway fields are NaN, with exactly two, the three fields are their
  difference in minutes. For the row of a route without direction splitting the same
  holds of the times of each direction: all fields are NaN when neither direction has
  two times in the window, and the difference in minutes when one direction has exactly
  two and the other fewer than two.
\<close>

theorem headway_window_rules:
  "(grp = filter (\<lambda>r. ts_route_id r = route \<and> ts_direction_id r = Some d) f \<and> grp \<noteq> []
      \<and> q = sort (filter (\<lambda>t. hs \<le> t \<and> t \<le> he) (map ts_start_time grp))
    \<longrightarrow> (\<exists>row. compute_route_stats_split_directions hs he f (route, d) = Inr row
           \<and> rs_headways row = headway_fields (map (\<lambda>i. q ! Suc i - q ! i) [0 ..< length q - 1])
           \<and> (length q < 2 \<longrightarrow> rs_headways row = no_headways)
           \<and> (\<forall>t1 t2. q = [t1, t2] \<longrightarrow> rs_headways row = one_headway (t2 - t1))))
   \<and> (qs = sort (filter (\<lambda>t. hs \<le> t \<and> t \<le> he) (present (map sv_departure_time visits)))
      \<longrightarrow> ss_headways (compute_stop_stats hs he stop direction visits)
            = headway_fields (map (\<lambda>i. qs ! Suc i - qs ! i) [0 ..< length qs - 1])
          \<and> (length qs < 2
               \<longrightarrow> ss_headways (compute_stop_stats hs he stop direction visits) = no_headways)
          \<and> (\<forall>t1 t2. qs = [t1, t2]
               \<longrightarrow> ss_headways (compute_stop_stats hs he stop direction visits)
                     = one_headway (t2 - t1)))
   \<and> (grp' = filter (\<lambda>r. ts_route_id r = route) f \<and> grp' \<noteq> []
       \<and> q0 = sort (filter (\<lambda>t. hs \<le> t \<and> t \<le> he)
                   (map ts_start_time (filter (\<lambda>r. ts_direction_id r = Some 0) grp')))
       \<and> q1 = sort (filter (\<lambda>t. hs \<le> t \<and> t \<le> he)
                   (map ts_start_time (filter (\<lambda>r. ts_direction_id r = Some 1) grp')))
      \<longrightarrow> (\<exists>row. compute_route_stats hs he f route = Inr row
             \<and> rs_headways row
                 = headway_fields (map (\<lambda>i. q0 ! Suc i - q0 ! i) [0 ..< length q0 - 1]
                                   @ map (\<lambda>i. q1 ! Suc i - q1 ! i) [0 ..< length q1 - 1])
             \<and> (length q0 < 2 \<and> length q1 < 2 \<longrightarrow> rs_headways row = no_headways)
             \<and> (\<forall>t1 t2. q0 = [t1, t2] \<and> length q1 < 2
                    \<longrightarrow> rs_headways row = one_headway (t2 - t1))
             \<and> (\<forall>t1 t2. length q0 < 2 \<and> q1 = [t1, t2]
                    \<longrightarrow> rs_headways row = one_headway (t2 - t1))))"
proof -
  have A: "grp = filter (\<lambda>r. ts_route_id r = route \<and> ts_direction_id r = Some d) f \<and> grp \<noteq> []
      \<and> q = sort (filter (\<lambda>t. hs \<le> t \<and> t \<le> he) (map ts_start_time grp))
    \<longrightarrow> (\<exists>row. compute_route_stats_split_directions hs he f (route, d) = Inr row
           \<and> rs_headways row = headway_fields (map (\<lambda>i. q ! Suc i - q ! i) [0 ..< length q - 1])
           \<and> (length q < 2 \<longrightarrow> rs_headways row = no_headways)
           \<and> (\<forall>t1 t2. q = [t1, t2] \<longrightarrow> rs_headways row = one_headway (t2 - t1)))"
  proof (rule impI)
    assume a: "grp = filter (\<lambda>r. ts_route_id r = route \<and> ts_direction_id r = Some d) f \<and> grp \<noteq> []
      \<and> q = sort (filter (\<lambda>t. hs \<le> t \<and> t \<le> he) (map ts_start_time grp))"
    then obtain row where r: "compute_route_stats_split_directions hs he f (route, d) = Inr row"
      and h: "rs_headways row = headway_fields (diff q)"
      using split_row_headways [of grp route d f q hs he] by blast
    have 1: "length q < 2 \<longrightarrow> rs_headways row = no_headways"
      unfolding h by (simp add: headways_of_short)
    have 2: "\<forall>t1 t2. q = [t1, t2] \<longrightarrow> rs_headways row = one_headway (t2 - t1)"
      unfolding h by (simp add: headway_fields_single)
    have 0: "rs_headways row = headway_fields (map (\<lambda>i. q ! Suc i - q ! i) [0 ..< length q - 1])"
      unfolding h by (simp only: diff_nth)
    show "\<exists>row. compute_route_stats_split_directions hs he f (route, d) = Inr row
           \<and> rs_headways row = headway_fields (map (\<lambda>i. q ! Suc i - q ! i) [0 ..< length q - 1])
           \<and> (length q < 2 \<longrightarrow> rs_headways row = no_headways)
           \<and> (\<forall>t1 t2. q = [t1, t2] \<longrightarrow> rs_headways row = one_headway (t2 - t1))"
      using r 0 1 2 by blast
  qed
  have B: "qs = sort (filter (\<lambda>t. hs \<le> t \<and> t \<le> he) (present (map sv_departure_time visits)))
      \<longrightarrow> ss_headways (compute_stop_stats hs he stop direction visits)
            = headway_fields (map (\<lambda>i. qs ! Suc i - qs ! i) [0 ..< length qs - 1])
          \<and> (length qs < 2
               \<longrightarrow> ss_headways (compute_stop_stats hs he stop direction visits) = no_headways)
          \<and> (\<forall>t1 t2. qs = [t1, t2]
               \<longrightarrow> ss_headways (compute_stop_stats hs he stop direction visits)
                     = one_headway (t2 - t1))"
  proof (rule impI)
    assume a: "qs = sort (filter (\<lambda>t. hs \<le> t \<and> t \<le> he) (present (map sv_departure_time visits)))"
    have h: "ss_headways (compute_stop_stats hs he stop direction visits) = headway_fields (diff qs)"
      by (rule stop_row_headways [OF a])
    have 0: "ss_headways (compute_stop_stats hs he stop direction visits)
        = headway_fields (map (\<lambda>i. qs ! Suc i - qs ! i) [0 ..< length qs - 1])"
      unfolding h by (simp only: diff_nth)
    have 1: "length qs < 2
        \<longrightarrow> ss_headways (compute_stop_stats hs he stop direction visits) = no_headways"
      unfolding h by (simp add: headways_of_short)
    have 2: "\<forall>t1 t2. qs = [t1, t2]
        \<longrightarrow> ss_headways (compute_stop_stats hs he stop direction visits) = one_headway (t2 - t1)"
      unfolding h by (simp add: headway_fields_single)
    show "ss_headways (compute_stop_stats hs he stop direction visits)
            = headway_fields (map (\<lambda>i. qs ! Suc i - qs ! i) [0 ..< length qs - 1])
          \<and> (length qs < 2
               \<longrightarrow> ss_headways (compute_stop_stats hs he stop direction visits) = no_headways)
          \<and> (\<forall>t1 t2. qs = [t1, t2]
               \<longrightarrow> ss_headways (compute_stop_stats hs he stop direction visits)
                     = one_headway (t2 - t1))"
      using 0 1 2 by blast
  qed
  have C: "grp' = filter (\<lambda>r. ts_route_id r = route) f \<and> grp' \<noteq> []
       \<and> q0 = sort (filter (\<lambda>t. hs \<le> t \<and> t \<le> he)
                   (map ts_start_time (filter (\<lambda>r. ts_direction_id r = Some 0) grp')))
       \<and> q1 = sort (filter (\<lambda>t. hs \<le> t \<and> t \<le> he)
                   (map ts_start_time (filter (\<lambda>r. ts_direction_id r = Some 1) grp')))
      \<longrightarrow> (\<exists>row. compute_route_stats hs he f route = Inr row
             \<and> rs_headways row
                 = headway_fields (map (\<lambda>i. q0 ! Suc i - q0 ! i) [0 ..< length q0 - 1]
                                   @ map (\<lambda>i. q1 ! Suc i - q1 ! i) [0 ..< length q1 - 1])
             \<and> (length q0 < 2 \<and> length q1 < 2 \<longrightarrow> rs_headways row = no_headways)
             \<and> (\<forall>t1 t2. q0 = [t1, t2] \<and> length q1 < 2
                    \<longrightarrow> rs_headways row = one_headway (t2 - t1))
             \<and> (\<forall>t1 t2. length q0 < 2 \<and> q1 = [t1, t2]
                    \<longrightarrow> rs_headways row = one_headway (t2 - t1)))"
  proof (rule impI)
    assume a: "grp' = filter (\<lambda>r. ts_route_id r = route) f \<and> grp' \<noteq> []
       \<and> q0 = sort (filter (\<lambda>t. hs \<le> t \<and> t \<le> he)
                   (map ts_start_time (filter (\<lambda>r. ts_direction_id r = Some 0) grp')))
       \<and> q1 = sort (filter (\<lambda>t. hs \<le> t \<and> t \<le> he)
                   (map ts_start_time (filter (\<lambda>r. ts_direction_id r = Some 1) grp')))"
    then obtain row where r: "compute_route_stats hs he f route = Inr row"
      and h: "rs_headways row = headway_fields (diff q0 @ diff q1)"
      using both_row_headways [of grp' route f q0 hs he q1] by blast
    have 1: "length q0 < 2 \<and> length q1 < 2 \<longrightarrow> rs_headways row = no_headways"
      unfolding h by (simp add: diff_short headway_fields_Nil)
    have 2: "\<forall>t1 t2. q0 = [t1, t2] \<and> length q1 < 2 \<longrightarrow> rs_headways row = one_headway (t2 - t1)"
      unfolding h by (simp add: diff_short headway_fields_single)
    have 3: "\<forall>t1 t2. length q0 < 2 \<and> q1 = [t1, t2] \<longrightarrow> rs_headways row = one_headway (t2 - t1)"
      unfolding h by (simp add: diff_short headway_fields_single)
    have 0: "rs_headways row
                 = headway_fields (map (\<lambda>i. q0 ! Suc i - q0 ! i) [0 ..< length q0 - 1]
                                   @ map (\<lambda>i. q1 ! Suc i - q1 ! i) [0 ..< length q1 - 1])"
      unfolding h by (simp only: diff_nth)
    show "\<exists>row. compute_route_stats hs he f route = Inr row
             \<and> rs_headways row
                 = headway_fields (map (\<lambda>i. q0 ! Suc i - q0 ! i) [0 ..< length q0 - 1]
                                   @ map (\<lambda>i. q1 ! Suc i - q1 ! i) [0 ..< length q1 - 1])
             \<and> (length q0 < 2 \<and> length q1 < 2 \<longrightarrow> rs_headways row = no_headways)
             \<and> (\<forall>t1 t2. q0 = [t1, t2] \<and> length q1 < 2
                    \<longrightarrow> rs_headways row = one_headway (t2 - t1))
             \<and> (\<forall>t1 t2. length q0 < 2 \<and> q1 = [t1, t2]
                    \<longrightarrow> rs_headways row = one_headway (t2 - t1))"
      using r 0 1 2 3 by blast
  qed
  show ?thesis
    by (rule conjI [OF A conjI [OF B C]])
qed

theorem headway_window_rules_witness:
  "map_sum id rs_headways
     (compute_route_stats_split_directions headway_start_default headway_end_default
        windowed_trips (''R'', 0)) = Inr (one_headway 43200)
   \<and> ss_headways (compute_stop_stats headway_start_default headway_end_default ''A'' None
        windowed_visits) = one_headway 43200
   \<and> map_sum id rs_headways
       (compute_route_stats headway_start_default headway_end_default windowed_trips ''R'')
       = Inr (one_headway 43200)
   \<and> timestr_to_seconds ''07:00:00'' = Inr headway_start_default
   \<and> timestr_to_seconds ''19:00:00'' = Inr headway_end_default"
proof -
  define g0 where "g0 = filter (\<lambda>r. ts_route_id r = ''R'' \<and> ts_direction_id r = Some 0) windowed_trips"
  define g where "g = filter (\<lambda>r. ts_route_id r = ''R'') windowed_trips"
  have n0: "g0 \<noteq> []" and n: "g \<noteq> []"
    by (simp_all add: g0_def g_def windowed_trips_def trip_at_def)
  have q: "sort (filter (\<lambda>t. headway_start_default \<le> t \<and> t \<le> headway_end_default)
              (map ts_start_time g0)) = [25200, 68400]"
    by (simp add: g0_def windowed_trips_def trip_at_def headway_start_default_def
        headway_end_default_def)
  have qs: "sort (filter (\<lambda>t. headway_start_default \<le> t \<and> t \<le> headway_end_default)
              (present (map sv_departure_time windowed_visits))) = [25200, 68400]"
    by (simp add: windowed_visits_def headway_start_default_def headway_end_default_def)
  have q0: "sort (filter (\<lambda>t. headway_start_default \<le> t \<and> t \<le> headway_end_default)
              (map ts_start_time (filter (\<lambda>r. ts_direction_id r = Some 0) g))) = [25200, 68400]"
    by (simp add: g_def windowed_trips_def trip_at_def headway_start_default_def
        headway_end_default_def)
  have q1: "sort (filter (\<lambda>t. headway_start_default \<le> t \<and> t \<le> headway_end_default)
              (map ts_start_time (filter (\<lambda>r. ts_direction_id r = Some 1) g))) = [30000]"
    by (simp add: g_def windowed_trips_def trip_at_def headway_start_default_def
        headway_end_default_def)
  have t: "timestr_to_seconds ''07:00:00'' = Inr headway_start_default"
    "timestr_to_seconds ''19:00:00'' = Inr headway_end_default"
    by (simp_all add: timestr_to_seconds_def is_digit_def digit_val_def headway_start_default_def
        headway_end_default_def)
  note r = headway_window_rules [of g0 "''R''" 0 windowed_trips "[25200, 68400]"
      headway_start_default headway_end_default "[25200, 68400]" windowed_visits "''A''" None
      g "[25200, 68400]" "[30000]"]
  have ra: "\<exists>row. compute_route_stats_split_directions headway_start_default headway_end_default
        windowed_trips (''R'', 0) = Inr row
      \<and> (\<forall>t1 t2. [25200, 68400] = [t1, t2] \<longrightarrow> rs_headways row = one_headway (t2 - t1))"
    using r [THEN conjunct1, rule_format, OF conjI [OF g0_def conjI [OF n0 q [symmetric]]]]
    by blast
  have a: "\<exists>row. compute_route_stats_split_directions headway_start_default headway_end_default
        windowed_trips (''R'', 0) = Inr row \<and> rs_headways row = one_headway (68400 - 25200)"
    using ra by blast
  have rb: "\<forall>t1 t2. [25200, 68400] = [t1, t2]
        \<longrightarrow> ss_headways (compute_stop_stats headway_start_default headway_end_default ''A'' None
              windowed_visits) = one_headway (t2 - t1)"
    using r [THEN conjunct2, THEN conjunct1, rule_format, OF qs [symmetric]]
    by blast
  have b: "ss_headways (compute_stop_stats headway_start_default headway_end_default ''A'' None
        windowed_visits) = one_headway (68400 - 25200)"
    using rb by blast
  have l: "length [30000 :: int] < 2" by simp
  have rc: "\<exists>row. compute_route_stats headway_start_default headway_end_default
        windowed_trips ''R'' = Inr row
      \<and> (\<forall>t1 t2. [25200, 68400] = [t1, t2] \<and> length [30000 :: int] < 2
             \<longrightarrow> rs_headways row = one_headway (t2 - t1))"
    using r [THEN conjunct2, THEN conjunct2, rule_format,
        OF conjI [OF g_def conjI [OF n conjI [OF q0 [symmetric] q1 [symmetric]]]]]
    by blast
  have c: "\<exists>row. compute_route_stats headway_start_default headway_end_default
        windowed_trips ''R'' = Inr row \<and> rs_headways row = one_headway (68400 - 25200)"
    using rc l by blast
  show ?thesis using a b c t by auto
qed

text \<open>
  The claim fails as stated for a route without direction splitting: two trips in
  opposite directions start in the window, fifteen minutes apart, and the headways are NaN.
\<close>

theorem headway_two_times_counterexample:
  "in_window headway_start_default headway_end_default (map ts_start_time opposite_trips)
     = [25200, 26100]
   \<and> map_sum id rs_headways
        (compute_route_stats headway_start_default headway_end_default opposite_trips ''R'')
     = Inr no_headways
   \<and> no_headways \<noteq> one_headway (26100 - 25200)"
  by code_simp

lemma np_max_Max: "xs \<noteq> [] \<Longrightarrow> np_max xs = Max (set xs)"
  by (cases xs) (simp_all add: np_max_def Max.set_eq_fold [symmetric])

lemma np_max_append:
  "xs \<noteq> [] \<Longrightarrow> ys \<noteq> [] \<Longrightarrow> np_max (xs @ ys) = max (np_max xs) (np_max ys)"
  by (simp add: np_max_Max Max_Un)

lemma np_mean_append:
  assumes "xs \<noteq> []" and "ys \<noteq> []"
  shows "np_mean (xs @ ys) =
         (of_nat (length xs) * np_mean xs + of_nat (length ys) * np_mean ys)
           / of_nat (length xs + length ys)"
  using assms by (simp add: np_mean_def)

lemma diff_length: "length (diff xs) = length xs - 1"
  by (induction xs rule: diff.induct) simp_all

lemma np_min_Min: "xs \<noteq> [] \<Longrightarrow> np_min xs = Min (set xs)"
  by (cases xs) (simp_all add: np_min_def Min.set_eq_fold [symmetric])

lemma headway_fields_explicit:
  "h \<noteq> [] \<Longrightarrow> headway_fields h =
     \<lparr>max_headway = Some (of_int (Max (set h)) / 60),
      min_headway = Some (of_int (Min (set h)) / 60),
      mean_headway = Some (of_int (sum_list h) / of_nat (length h) / 60)\<rparr>"
  by (simp add: headway_fields_def np_max_Max np_min_Min np_mean_def)

lemma diff_nonempty_length: "diff q \<noteq> [] \<Longrightarrow> 2 \<le> length q"
  by (cases q rule: diff.cases) simp_all

lemma headway_fields_append:
  assumes ne: "h0 \<noteq> []" "h1 \<noteq> []"
  shows "max_headway (headway_fields (h0 @ h1)) =
        Some (max (of_int (Max (set h0)) / 60) (of_int (Max (set h1)) / 60))
      \<and> mean_headway (headway_fields (h0 @ h1)) =
        Some ((of_nat (length h0) * (of_int (sum_list h0) / of_nat (length h0) / 60)
               + of_nat (length h1) * (of_int (sum_list h1) / of_nat (length h1) / 60))
              / of_nat (length h0 + length h1))
      \<and> mean_headway (headway_fields (h0 @ h1)) =
        Some (of_int (sum_list (h0 @ h1)) / of_nat (length (h0 @ h1)) / 60)"
proof -
  have mx: "\<And>a b :: int. (of_int (max a b) :: rat) / 60 = max (of_int a / 60) (of_int b / 60)"
    by (simp add: max_def divide_le_cancel)
  have "length h0 + length h1 \<noteq> 0" using ne by simp
  then have n: "(of_nat (length h0 + length h1) :: rat) \<noteq> 0"
    by (simp only: of_nat_eq_0_iff) simp
  have hm: "mean_headway (headway_fields (h0 @ h1)) = Some (np_mean (h0 @ h1) / 60)"
    and hx: "max_headway (headway_fields (h0 @ h1)) = Some (of_int (np_max (h0 @ h1)) / 60)"
    using ne by (simp_all add: headway_fields_def)
  have e: "np_mean (h0 @ h1) / 60 =
        (of_nat (length h0) * (np_mean h0 / 60) + of_nat (length h1) * (np_mean h1 / 60))
          / of_nat (length h0 + length h1)"
    unfolding np_mean_append [OF ne] using n by (simp add: field_simps)
  have 1: "max_headway (headway_fields (h0 @ h1)) =
        Some (max (of_int (Max (set h0)) / 60) (of_int (Max (set h1)) / 60))"
    unfolding hx np_max_append [OF ne] mx using ne by (simp add: np_max_Max)
  have 2: "mean_headway (headway_fields (h0 @ h1)) =
        Some ((of_nat (length h0) * (of_int (sum_list h0) / of_nat (length h0) / 60)
               + of_nat (length h1) * (of_int (sum_list h1) / of_nat (length h1) / 60))
              / of_nat (length h0 + length h1))"
    unfolding hm e by (simp add: np_mean_def)
  have 3: "mean_headway (headway_fields (h0 @ h1)) =
        Some (of_int (sum_list (h0 @ h1)) / of_nat (length (h0 @ h1)) / 60)"
    unfolding hm by (simp add: np_mean_def)
  show ?thesis using 1 2 3 by blast
qed

text \<open>
  C2, as the code has it. Without direction splitting the headways of a route are the
  headways of direction 0 followed by those of direction 1, each direction's headways
  being the differences of its consecutive start times in the window; they are the
  headways that the row of the route and that direction has under direction splitting.
  When both directions have headways, the maximal headway of the route is the maximum of
  the directions' maximal headways, and its mean headway is the mean of the directions'
  mean headways weighted by their numbers of headways, which is the mean of all the
  per-direction differences; when one direction has none, the fields are those of the
  other direction.
\<close>

theorem combined_headways_both_directions:
  assumes "grp = filter (\<lambda>r. ts_route_id r = route) f" and "grp \<noteq> []"
    and "q0 = sort (filter (\<lambda>t. hs \<le> t \<and> t \<le> he)
                 (map ts_start_time (filter (\<lambda>r. ts_direction_id r = Some 0) grp)))"
    and "q1 = sort (filter (\<lambda>t. hs \<le> t \<and> t \<le> he)
                 (map ts_start_time (filter (\<lambda>r. ts_direction_id r = Some 1) grp)))"
    and "h0 = map (\<lambda>i. q0 ! Suc i - q0 ! i) [0 ..< length q0 - 1]"
    and "h1 = map (\<lambda>i. q1 ! Suc i - q1 ! i) [0 ..< length q1 - 1]"
  shows "\<exists>row. compute_route_stats hs he f route = Inr row
     \<and> (h0 \<noteq> [] \<longrightarrow>
          (\<exists>row0. compute_route_stats_split_directions hs he f (route, 0) = Inr row0
             \<and> max_headway (rs_headways row0) = Some (of_int (Max (set h0)) / 60)
             \<and> mean_headway (rs_headways row0)
                 = Some (of_int (sum_list h0) / of_nat (length h0) / 60)
             \<and> (h1 = [] \<longrightarrow> rs_headways row = rs_headways row0)))
     \<and> (h1 \<noteq> [] \<longrightarrow>
          (\<exists>row1. compute_route_stats_split_directions hs he f (route, 1) = Inr row1
             \<and> max_headway (rs_headways row1) = Some (of_int (Max (set h1)) / 60)
             \<and> mean_headway (rs_headways row1)
                 = Some (of_int (sum_list h1) / of_nat (length h1) / 60)
             \<and> (h0 = [] \<longrightarrow> rs_headways row = rs_headways row1)))
     \<and> (h0 \<noteq> [] \<and> h1 \<noteq> [] \<longrightarrow>
          max_headway (rs_headways row)
            = Some (max (of_int (Max (set h0)) / 60) (of_int (Max (set h1)) / 60))
          \<and> mean_headway (rs_headways row)
            = Some ((of_nat (length h0) * (of_int (sum_list h0) / of_nat (length h0) / 60)
                     + of_nat (length h1) * (of_int (sum_list h1) / of_nat (length h1) / 60))
                    / of_nat (length h0 + length h1))
          \<and> mean_headway (rs_headways row)
            = Some (of_int (sum_list (h0 @ h1)) / of_nat (length (h0 @ h1)) / 60))
     \<and> (h0 = [] \<and> h1 = [] \<longrightarrow> rs_headways row = no_headways)"
proof -
  have d0: "h0 = diff q0" and d1: "h1 = diff q1" by (simp_all add: assms(5,6) diff_nth)
  obtain row where r: "compute_route_stats hs he f route = Inr row"
    and h: "rs_headways row = headway_fields (h0 @ h1)"
    using both_row_headways [OF assms(1-4)] unfolding d0 d1 by blast
  have dir: "\<exists>rowd. compute_route_stats_split_directions hs he f (route, d) = Inr rowd
             \<and> rs_headways rowd = headway_fields hd"
    if "hd \<noteq> []" and hd: "hd = diff qd"
      and qd: "qd = sort (filter (\<lambda>t. hs \<le> t \<and> t \<le> he)
                 (map ts_start_time (filter (\<lambda>r. ts_direction_id r = Some d) grp)))"
    for d hd qd
  proof -
    define gd where "gd = filter (\<lambda>r. ts_route_id r = route \<and> ts_direction_id r = Some d) f"
    have g: "filter (\<lambda>r. ts_direction_id r = Some d) grp = gd"
      unfolding assms(1) gd_def by (rule filter_route_direction)
    have "2 \<le> length qd" using that(1) hd by (simp add: diff_nonempty_length)
    then have "qd \<noteq> []" by auto
    then have ne: "gd \<noteq> []" using qd g by auto
    show ?thesis
      using split_row_headways [OF gd_def ne, of qd hs he] qd g hd by simp
  qed
  have p0: "h0 \<noteq> [] \<longrightarrow>
          (\<exists>row0. compute_route_stats_split_directions hs he f (route, 0) = Inr row0
             \<and> max_headway (rs_headways row0) = Some (of_int (Max (set h0)) / 60)
             \<and> mean_headway (rs_headways row0)
                 = Some (of_int (sum_list h0) / of_nat (length h0) / 60)
             \<and> (h1 = [] \<longrightarrow> rs_headways row = rs_headways row0))"
  proof
    assume ne: "h0 \<noteq> []"
    obtain row0 where "compute_route_stats_split_directions hs he f (route, 0) = Inr row0"
      and "rs_headways row0 = headway_fields h0"
      using dir [OF ne d0 assms(3)] by blast
    then show "\<exists>row0. compute_route_stats_split_directions hs he f (route, 0) = Inr row0
             \<and> max_headway (rs_headways row0) = Some (of_int (Max (set h0)) / 60)
             \<and> mean_headway (rs_headways row0)
                 = Some (of_int (sum_list h0) / of_nat (length h0) / 60)
             \<and> (h1 = [] \<longrightarrow> rs_headways row = rs_headways row0)"
      using h by (intro exI [of _ row0]) (simp add: headway_fields_explicit [OF ne])
  qed
  have p1: "h1 \<noteq> [] \<longrightarrow>
          (\<exists>row1. compute_route_stats_split_directions hs he f (route, 1) = Inr row1
             \<and> max_headway (rs_headways row1) = Some (of_int (Max (set h1)) / 60)
             \<and> mean_headway (rs_headways row1)
                 = Some (of_int (sum_list h1) / of_nat (length h1) / 60)
             \<and> (h0 = [] \<longrightarrow> rs_headways row = rs_headways row1))"
  proof
    assume ne: "h1 \<noteq> []"
    obtain row1 where "compute_route_stats_split_directions hs he f (route, 1) = Inr row1"
      and "rs_headways row1 = headway_fields h1"
      using dir [OF ne d1 assms(4)] by blast
    then show "\<exists>row1. compute_route_stats_split_directions hs he f (route, 1) = Inr row1
             \<and> max_headway (rs_headways row1) = Some (of_int (Max (set h1)) / 60)
             \<and> mean_headway (rs_headways row1)
                 = Some (of_int (sum_list h1) / of_nat (length h1) / 60)
             \<and> (h0 = [] \<longrightarrow> rs_headways row = rs_headways row1)"
      using h by (intro exI [of _ row1]) (simp add: headway_fields_explicit [OF ne])
  qed
  have p2: "h0 \<noteq> [] \<and> h1 \<noteq> [] \<longrightarrow>
          max_headway (rs_headways row)
            = Some (max (of_int (Max (set h0)) / 60) (of_int (Max (set h1)) / 60))
          \<and> mean_headway (rs_headways row)
            = Some ((of_nat (length h0) * (of_int (sum_list h0) / of_nat (length h0) / 60)
                     + of_nat (length h1) * (of_int (sum_list h1) / of_nat (length h1) / 60))
                    / of_nat (length h0 + length h1))
          \<and> mean_headway (rs_headways row)
            = Some (of_int (sum_list (h0 @ h1)) / of_nat (length (h0 @ h1)) / 60)"
    unfolding h using headway_fields_append [of h0 h1] by blast
  have p3: "h0 = [] \<and> h1 = [] \<longrightarrow> rs_headways row = no_headways"
    unfolding h by (simp add: headway_fields_Nil)
  show ?thesis
    using r p0 p1 p2 p3 by blast
qed

theorem combined_headways_both_directions_witness:
  "map_sum id (max_headway \<circ> rs_headways)
      (compute_route_stats headway_start_default headway_end_default uneven_trips ''R'')
     = Inr (Some (max (600 / 60) (300 / 60)))
   \<and> map_sum id (mean_headway \<circ> rs_headways)
      (compute_route_stats headway_start_default headway_end_default uneven_trips ''R'')
     = Inr (Some ((1 * (600 / 1 / 60) + 3 * (900 / 3 / 60)) / 4))
   \<and> map_sum id (mean_headway \<circ> rs_headways)
      (compute_route_stats_split_directions headway_start_default headway_end_default
         uneven_trips (''R'', 0)) = Inr (Some (600 / 1 / 60))
   \<and> map_sum id (mean_headway \<circ> rs_headways)
      (compute_route_stats_split_directions headway_start_default headway_end_default
         uneven_trips (''R'', 1)) = Inr (Some (900 / 3 / 60))"
proof -
  have g: "uneven_trips = filter (\<lambda>r. ts_route_id r = ''R'') uneven_trips"
    by (simp add: uneven_trips_def trip_at_def)
  have n: "uneven_trips \<noteq> []" by (simp add: uneven_trips_def)
  have q0: "[25200, 25800] = sort (filter (\<lambda>t. headway_start_default \<le> t \<and> t \<le> headway_end_default)
       (map ts_start_time (filter (\<lambda>r. ts_direction_id r = Some 0) uneven_trips)))"
    by (simp add: uneven_trips_def trip_at_def headway_start_default_def headway_end_default_def)
  have q1: "[25200, 25500, 25800, 26100]
     = sort (filter (\<lambda>t. headway_start_default \<le> t \<and> t \<le> headway_end_default)
       (map ts_start_time (filter (\<lambda>r. ts_direction_id r = Some 1) uneven_trips)))"
    by (simp add: uneven_trips_def trip_at_def headway_start_default_def headway_end_default_def)
  have h0: "[600] = map (\<lambda>i. [25200, 25800 :: int] ! Suc i - [25200, 25800] ! i)
      [0 ..< length [25200, 25800 :: int] - 1]"
    by simp
  have h1: "[300, 300, 300] = map (\<lambda>i. [25200, 25500, 25800, 26100 :: int] ! Suc i
        - [25200, 25500, 25800, 26100] ! i) [0 ..< length [25200, 25500, 25800, 26100 :: int] - 1]"
    by (simp add: upt_conv_Cons)
  from combined_headways_both_directions [OF g n q0 q1 h0 h1]
  obtain row row0 row1 where
    r: "compute_route_stats headway_start_default headway_end_default uneven_trips ''R'' = Inr row"
    and r0: "compute_route_stats_split_directions headway_start_default headway_end_default
         uneven_trips (''R'', 0) = Inr row0"
    and m0: "mean_headway (rs_headways row0)
         = Some (of_int (sum_list [600]) / of_nat (length [600 :: int]) / 60)"
    and r1: "compute_route_stats_split_directions headway_start_default headway_end_default
         uneven_trips (''R'', 1) = Inr row1"
    and m1: "mean_headway (rs_headways row1)
         = Some (of_int (sum_list [300, 300, 300]) / of_nat (length [300, 300, 300 :: int]) / 60)"
    and mx: "max_headway (rs_headways row)
         = Some (max (of_int (Max (set [600])) / 60) (of_int (Max (set [300, 300, 300])) / 60))"
    and mn: "mean_headway (rs_headways row)
         = Some ((of_nat (length [600 :: int]) * (of_int (sum_list [600]) / of_nat (length [600 :: int]) / 60)
                  + of_nat (length [300, 300, 300 :: int])
                    * (of_int (sum_list [300, 300, 300]) / of_nat (length [300, 300, 300 :: int]) / 60))
                 / of_nat (length [600 :: int] + length [300, 300, 300 :: int]))"
    by blast
  show ?thesis
    using r r0 m0 r1 m1 mx mn by simp
qed

text \<open>
  The claim fails as stated: with two trips ten minutes apart in one direction and four
  trips five minutes apart in the other, the mean headway of the route is 25/4 minutes,
  and the mean weighted by the trip counts is 20/3 minutes.
\<close>

theorem trip_count_weighted_mean_counterexample:
  "map_sum id (mean_headway \<circ> rs_headways)
      (compute_route_stats headway_start_default headway_end_default uneven_trips ''R'')
     = Inr (Some (25 / 4))
   \<and> trip_count_weighted_mean headway_start_default headway_end_default uneven_trips = 20 / 3
   \<and> (25 / 4 :: rat) \<noteq> 20 / 3"
  by code_simp


section \<open>Properties of the time series\<close>

lemma fill_bins_length: "length (fill_bins g bs xs) = length xs"
  unfolding fill_bins_def by (induction bs arbitrary: xs) simp_all

lemma fill_bins_nth:
  "distinct bs \<Longrightarrow> i < length xs \<Longrightarrow>
   fill_bins g bs xs ! i = (if i \<in> set bs then g (xs ! i) else xs ! i)"
  unfolding fill_bins_def
proof (induction bs arbitrary: xs)
  case Nil
  then show ?case by simp
next
  case (Cons b bs)
  have "fold (\<lambda>bin s. s[bin := g (s ! bin)]) bs (xs[b := g (xs ! b)]) ! i
        = (if i \<in> set bs then g (xs[b := g (xs ! b)] ! i) else xs[b := g (xs ! b)] ! i)"
    using Cons.prems by (intro Cons.IH) simp_all
  then show ?case using Cons.prems by (cases "i = b") (auto simp: nth_list_update)
qed

lemma bins_to_fill_eq:
  "start < num_bins \<Longrightarrow> stop < num_bins \<Longrightarrow>
   bins_to_fill start stop = (if start \<le> stop then [start ..< stop] else [start ..< num_bins] @ [0 ..< stop])"
  by (simp add: bins_to_fill_def bins_def num_bins_def)

lemma bins_to_fill_props:
  assumes "start < num_bins" and "stop < num_bins"
  shows "distinct (bins_to_fill start stop)"
    and "set (bins_to_fill start stop) =
         {b. b < num_bins \<and> (if start \<le> stop then start \<le> b \<and> b < stop else start \<le> b \<or> b < stop)}"
    and "length (bins_to_fill start stop) = (if start \<le> stop then stop - start else num_bins - start + stop)"
  using assms by (auto simp: bins_to_fill_eq)

lemma F_range: "F (Some t) = Some (nat ((t div 60) mod 1440)) \<and> nat ((t div 60) mod 1440) < num_bins"
  by (simp add: F_def num_bins_def nat_less_iff)

text \<open>
  One turn of the loop, for a row with both times, when no time is missing in the
  subset: what the turn adds to each bin of each route.
\<close>

lemma bin_trip_step:
  assumes t: "st_start_time row = Some t0" "st_end_time row = Some t1"
    and len: "\<And>k. length (num_trip_starts series k) = num_bins"
      "\<And>k. length (num_trips series k) = num_bins"
      "\<And>k. length (service_duration series k) = num_bins"
      "\<And>k. length (service_distance series k) = num_bins"
  shows "\<exists>series'. bin_trip False series row route = Inr series'
     \<and> (\<forall>k. length (num_trip_starts series' k) = num_bins
            \<and> length (num_trips series' k) = num_bins
            \<and> length (service_duration series' k) = num_bins
            \<and> length (service_distance series' k) = num_bins)
     \<and> (\<forall>k b. b < num_bins \<longrightarrow>
          num_trip_starts series' k ! b
            = num_trip_starts series k ! b
              + (if k = route \<and> start_bin row \<noteq> end_bin row \<and> start_bin row = b then 1 else 0)
        \<and> num_trips series' k ! b
            = num_trips series k ! b + (if k = route \<and> fills row b then 1 else 0)
        \<and> service_duration series' k ! b
            = service_duration series k ! b + (if k = route \<and> fills row b then 1 / 60 else 0)
        \<and> service_distance series' k ! b
            = (if k = route \<and> fills row b
               then add_float (service_distance series k ! b)
                      (map_option (\<lambda>d. d / of_nat (num_filled row)) (st_distance row))
               else service_distance series k ! b))"
proof -
  define start where "start = start_bin row"
  define stop where "stop = end_bin row"
  have Fs: "F (st_start_time row) = Some start" and s: "start < num_bins"
    using F_range [of t0] t by (simp_all add: start_def start_bin_def)
  have Fe: "F (st_end_time row) = Some stop" and e: "stop < num_bins"
    using F_range [of t1] t by (simp_all add: stop_def end_bin_def)
  note p = bins_to_fill_props [OF s e]
  have mem: "(b \<in> set (bins_to_fill start stop)) = fills row b" if "b < num_bins" "start \<noteq> stop" for b
    using that unfolding fills_def start_def [symmetric] stop_def [symmetric] by (simp add: p(2))
  have n: "length (bins_to_fill start stop) = num_filled row"
    unfolding num_filled_def start_def [symmetric] stop_def [symmetric] by (simp add: p(3))
  have w: "(case st_distance row of None \<Rightarrow> None
            | Some d \<Rightarrow> Some (d / of_nat (length (bins_to_fill start stop))))
           = map_option (\<lambda>d. d / of_nat (num_filled row)) (st_distance row)"
    by (cases "st_distance row") (simp_all add: n)
  show ?thesis
  proof (cases "start = stop")
    case True
    then have "bin_trip False series row route = Inr series"
      using Fs Fe by (simp add: bin_trip_def)
    moreover have "\<not> fills row b" for b
      using True by (simp add: fills_def start_def stop_def)
    moreover have "start_bin row = end_bin row"
      using True by (simp add: start_def stop_def)
    ultimately show ?thesis using len by simp
  next
    case False
    define series' where "series' =
       \<lparr>num_trip_starts = (num_trip_starts series)
          (route := (num_trip_starts series route)[start := num_trip_starts series route ! start + 1]),
        num_trips = (num_trips series)
          (route := fill_bins (\<lambda>v. v + 1) (bins_to_fill start stop) (num_trips series route)),
        service_duration = (service_duration series)
          (route := fill_bins (\<lambda>v. v + 1 / 60) (bins_to_fill start stop) (service_duration series route)),
        service_distance = (service_distance series)
          (route := fill_bins (\<lambda>v. add_float v
              (map_option (\<lambda>d. d / of_nat (num_filled row)) (st_distance row)))
            (bins_to_fill start stop) (service_distance series route))\<rparr>"
    have eq: "bin_trip False series row route = Inr series'"
      using Fs Fe False by (simp add: bin_trip_def Let_def w series'_def)
    have ne: "start_bin row \<noteq> end_bin row" using False by (simp add: start_def stop_def)
    have l: "length (num_trip_starts series' k) = num_bins
            \<and> length (num_trips series' k) = num_bins
            \<and> length (service_duration series' k) = num_bins
            \<and> length (service_distance series' k) = num_bins" for k
      using len by (simp add: series'_def fill_bins_length)
    have c1: "num_trip_starts series' k ! b
            = num_trip_starts series k ! b
              + (if k = route \<and> start_bin row \<noteq> end_bin row \<and> start_bin row = b then 1 else 0)"
      if "b < num_bins" for k b
      using that len(1) [of route] ne
      by (auto simp: series'_def nth_list_update start_def)
    have c2: "num_trips series' k ! b
            = num_trips series k ! b + (if k = route \<and> fills row b then 1 else 0)"
      if "b < num_bins" for k b
      using that len(2) [of route] mem [OF that False]
      by (simp add: series'_def fill_bins_nth [OF p(1)])
    have c3: "service_duration series' k ! b
            = service_duration series k ! b + (if k = route \<and> fills row b then 1 / 60 else 0)"
      if "b < num_bins" for k b
      using that len(3) [of route] mem [OF that False]
      by (simp add: series'_def fill_bins_nth [OF p(1)])
    have c4: "service_distance series' k ! b
            = (if k = route \<and> fills row b
               then add_float (service_distance series k ! b)
                      (map_option (\<lambda>d. d / of_nat (num_filled row)) (st_distance row))
               else service_distance series k ! b)"
      if "b < num_bins" for k b
      using that len(4) [of route] mem [OF that False]
      by (simp add: series'_def fill_bins_nth [OF p(1)])
    show ?thesis
      using eq l c1 c2 c3 c4 by (intro exI [of _ series']) simp
  qed
qed

text \<open>
  The loop over rows that all have both times: every route and bin gains the number of
  rows of the route that start in the bin, the number of rows of the route that fill
  it, a sixtieth of that number, and the distance shares of these rows, added one by one.
\<close>

lemma bin_trips_loop:
  assumes "\<And>row. row \<in> set rows \<Longrightarrow> st_start_time row \<noteq> None \<and> st_end_time row \<noteq> None"
    and "\<And>k. length (num_trip_starts series k) = num_bins"
      "\<And>k. length (num_trips series k) = num_bins"
      "\<And>k. length (service_duration series k) = num_bins"
      "\<And>k. length (service_distance series k) = num_bins"
  shows "\<exists>series'. bin_trips False split series rows = Inr series'
     \<and> (\<forall>k. length (num_trip_starts series' k) = num_bins
            \<and> length (num_trips series' k) = num_bins
            \<and> length (service_duration series' k) = num_bins
            \<and> length (service_distance series' k) = num_bins)
     \<and> (\<forall>k b. b < num_bins \<longrightarrow>
          num_trip_starts series' k ! b
            = num_trip_starts series k ! b
              + int (length (filter (\<lambda>row. route_key split row = k
                     \<and> start_bin row \<noteq> end_bin row \<and> start_bin row = b) rows))
        \<and> num_trips series' k ! b
            = num_trips series k ! b
              + int (length (filter (\<lambda>row. route_key split row = k \<and> fills row b) rows))
        \<and> service_duration series' k ! b
            = service_duration series k ! b
              + of_nat (length (filter (\<lambda>row. route_key split row = k \<and> fills row b) rows)) / 60
        \<and> service_distance series' k ! b
            = fold (\<lambda>w acc. add_float acc w)
                (map (\<lambda>row. map_option (\<lambda>d. d / of_nat (num_filled row)) (st_distance row))
                   (filter (\<lambda>row. route_key split row = k \<and> fills row b) rows))
                (service_distance series k ! b))"
  using assms
proof (induction rows arbitrary: series)
  case Nil
  then show ?case by simp
next
  case (Cons row rows)
  obtain t0 t1 where t: "st_start_time row = Some t0" "st_end_time row = Some t1"
    using Cons.prems(1) [of row] by auto
  from bin_trip_step [OF t Cons.prems(2-5), of "route_key split row"]
  obtain s1 where e1: "bin_trip False series row (route_key split row) = Inr s1"
    and l1: "\<And>k. length (num_trip_starts s1 k) = num_bins"
      "\<And>k. length (num_trips s1 k) = num_bins"
      "\<And>k. length (service_duration s1 k) = num_bins"
      "\<And>k. length (service_distance s1 k) = num_bins"
    and a1: "\<And>k b. b < num_bins \<Longrightarrow> num_trip_starts s1 k ! b
            = num_trip_starts series k ! b
              + (if k = route_key split row \<and> start_bin row \<noteq> end_bin row \<and> start_bin row = b
                 then 1 else 0)"
    and a2: "\<And>k b. b < num_bins \<Longrightarrow> num_trips s1 k ! b
            = num_trips series k ! b + (if k = route_key split row \<and> fills row b then 1 else 0)"
    and a3: "\<And>k b. b < num_bins \<Longrightarrow> service_duration s1 k ! b
            = service_duration series k ! b
              + (if k = route_key split row \<and> fills row b then 1 / 60 else 0)"
    and a4: "\<And>k b. b < num_bins \<Longrightarrow> service_distance s1 k ! b
            = (if k = route_key split row \<and> fills row b
               then add_float (service_distance series k ! b)
                      (map_option (\<lambda>d. d / of_nat (num_filled row)) (st_distance row))
               else service_distance series k ! b)"
    by blast
  have pr: "\<And>r. r \<in> set rows \<Longrightarrow> st_start_time r \<noteq> None \<and> st_end_time r \<noteq> None"
    using Cons.prems(1) by simp
  from Cons.IH [OF pr l1]
  obtain s2 where e2: "bin_trips False split s1 rows = Inr s2"
    and l2: "\<forall>k. length (num_trip_starts s2 k) = num_bins
            \<and> length (num_trips s2 k) = num_bins
            \<and> length (service_duration s2 k) = num_bins
            \<and> length (service_distance s2 k) = num_bins"
    and b1: "\<And>k b. b < num_bins \<Longrightarrow> num_trip_starts s2 k ! b
            = num_trip_starts s1 k ! b
              + int (length (filter (\<lambda>row. route_key split row = k
                     \<and> start_bin row \<noteq> end_bin row \<and> start_bin row = b) rows))"
    and b2: "\<And>k b. b < num_bins \<Longrightarrow> num_trips s2 k ! b
            = num_trips s1 k ! b
              + int (length (filter (\<lambda>row. route_key split row = k \<and> fills row b) rows))"
    and b3: "\<And>k b. b < num_bins \<Longrightarrow> service_duration s2 k ! b
            = service_duration s1 k ! b
              + of_nat (length (filter (\<lambda>row. route_key split row = k \<and> fills row b) rows)) / 60"
    and b4: "\<And>k b. b < num_bins \<Longrightarrow> service_distance s2 k ! b
            = fold (\<lambda>w acc. add_float acc w)
                (map (\<lambda>row. map_option (\<lambda>d. d / of_nat (num_filled row)) (st_distance row))
                   (filter (\<lambda>row. route_key split row = k \<and> fills row b) rows))
                (service_distance s1 k ! b)"
    by blast
  have e: "bin_trips False split series (row # rows) = Inr s2"
    using e1 e2 by simp
  have c1: "num_trip_starts s2 k ! b
            = num_trip_starts series k ! b
              + int (length (filter (\<lambda>row. route_key split row = k
                     \<and> start_bin row \<noteq> end_bin row \<and> start_bin row = b) (row # rows)))"
    if "b < num_bins" for k b
    unfolding b1 [OF that] a1 [OF that] by auto
  have c2: "num_trips s2 k ! b
            = num_trips series k ! b
              + int (length (filter (\<lambda>row. route_key split row = k \<and> fills row b) (row # rows)))"
    if "b < num_bins" for k b
    unfolding b2 [OF that] a2 [OF that] by auto
  have c3: "service_duration s2 k ! b
            = service_duration series k ! b
              + of_nat (length (filter (\<lambda>row. route_key split row = k \<and> fills row b) (row # rows))) / 60"
    if "b < num_bins" for k b
    unfolding b3 [OF that] a3 [OF that] by (auto simp: add_divide_distrib)
  have c4: "service_distance s2 k ! b
            = fold (\<lambda>w acc. add_float acc w)
                (map (\<lambda>row. map_option (\<lambda>d. d / of_nat (num_filled row)) (st_distance row))
                   (filter (\<lambda>row. route_key split row = k \<and> fills row b) (row # rows)))
                (service_distance series k ! b)"
    if "b < num_bins" for k b
    unfolding b4 [OF that] a4 [OF that] by auto
  show ?case
    using e l2 c1 c2 c3 c4 by (intro exI [of _ s2]) simp
qed

text \<open>
  When a start or an end time is missing in the subset, the index columns are floats:
  the loop raises TypeError at the first row that has a start time and whose two bins
  differ, and leaves the series as they are when there is no such row.
\<close>

lemma bin_trips_float_index:
  "bin_trips True split series rows =
     (if list_ex (\<lambda>row. st_start_time row \<noteq> None \<and> F (st_end_time row) \<noteq> F (st_start_time row)) rows
      then Inl TypeError else Inr series)"
proof (induction rows)
  case Nil
  then show ?case by simp
next
  case (Cons row rows)
  show ?case
  proof (cases "st_start_time row")
    case None
    then show ?thesis using Cons by (simp add: bin_trip_def F_def)
  next
    case (Some t0)
    then show ?thesis using Cons by (auto simp: bin_trip_def F_def)
  qed
qed

text \<open>
  C4. The loop of \<^verbatim>\<open>compute_routes_time_series_base\<close> over the rows of the subset,
  from series of zeros. When every row has its start and end time, the loop returns the
  series of which the routes time series is made, and in the bin \<open>b\<close> of the route \<open>k\<close>:
  the trip starts are the number of rows of the route whose start bin is \<open>b\<close> and differs
  from their end bin; the number of trips is the number of rows of the route that fill
  \<open>b\<close>; the service duration is a sixtieth of that number; and the service distance is
  the sum, over these rows, of the row's distance divided by the number of bins the row
  fills. The bins of a time are \<open>(t div 60) mod 1440\<close>; a row fills no bin when its two
  bins are equal, the bins from its start bin up to and without its end bin when the
  start bin is smaller, and otherwise the bins from its start bin to the last one and
  those before its end bin. When a start or an end time is missing in the subset, the
  bins are floats: the loop raises TypeError if a row with a start time has two different
  bins, and no row contributes otherwise.
\<close>

theorem bin_trip_contribution:
  "(\<not> float_index_of rows \<longrightarrow>
     (\<exists>series. bin_trips (float_index_of rows) split zero_series rows = Inr series
        \<and> (rows \<noteq> [] \<longrightarrow>
             compute_routes_time_series_base rows split freq
               = downsample (combine_time_series
                    (sort_by str_le (remdups (map (route_key split) rows))) series split) freq)
        \<and> (\<forall>k b. b < num_bins \<longrightarrow>
              length (num_trip_starts series k) = num_bins
            \<and> length (num_trips series k) = num_bins
            \<and> length (service_duration series k) = num_bins
            \<and> length (service_distance series k) = num_bins
            \<and> num_trip_starts series k ! b
                = int (length (filter (\<lambda>row. route_key split row = k
                         \<and> start_bin row \<noteq> end_bin row \<and> start_bin row = b) rows))
            \<and> num_trips series k ! b
                = int (length (filter (\<lambda>row. route_key split row = k \<and> fills row b) rows))
            \<and> service_duration series k ! b
                = of_nat (length (filter (\<lambda>row. route_key split row = k \<and> fills row b) rows)) / 60
            \<and> service_distance series k ! b
                = sum_floats (map (\<lambda>row. map_option (\<lambda>d. d / of_nat (num_filled row)) (st_distance row))
                    (filter (\<lambda>row. route_key split row = k \<and> fills row b) rows)))))
   \<and> (float_index_of rows \<longrightarrow>
        bin_trips (float_index_of rows) split zero_series rows
          = (if list_ex (\<lambda>row. st_start_time row \<noteq> None
                                \<and> F (st_end_time row) \<noteq> F (st_start_time row)) rows
             then Inl TypeError else Inr zero_series)
        \<and> (list_ex (\<lambda>row. st_start_time row \<noteq> None
                              \<and> F (st_end_time row) \<noteq> F (st_start_time row)) rows
             \<longrightarrow> compute_routes_time_series_base rows split freq = Inl TypeError))"
proof -
  have A: "\<not> float_index_of rows \<longrightarrow>
     (\<exists>series. bin_trips (float_index_of rows) split zero_series rows = Inr series
        \<and> (rows \<noteq> [] \<longrightarrow>
             compute_routes_time_series_base rows split freq
               = downsample (combine_time_series
                    (sort_by str_le (remdups (map (route_key split) rows))) series split) freq)
        \<and> (\<forall>k b. b < num_bins \<longrightarrow>
              length (num_trip_starts series k) = num_bins
            \<and> length (num_trips series k) = num_bins
            \<and> length (service_duration series k) = num_bins
            \<and> length (service_distance series k) = num_bins
            \<and> num_trip_starts series k ! b
                = int (length (filter (\<lambda>row. route_key split row = k
                         \<and> start_bin row \<noteq> end_bin row \<and> start_bin row = b) rows))
            \<and> num_trips series k ! b
                = int (length (filter (\<lambda>row. route_key split row = k \<and> fills row b) rows))
            \<and> service_duration series k ! b
                = of_nat (length (filter (\<lambda>row. route_key split row = k \<and> fills row b) rows)) / 60
            \<and> service_distance series k ! b
                = sum_floats (map (\<lambda>row. map_option (\<lambda>d. d / of_nat (num_filled row)) (st_distance row))
                    (filter (\<lambda>row. route_key split row = k \<and> fills row b) rows))))"
  proof (rule impI)
    assume nf: "\<not> float_index_of rows"
    then have fi: "float_index_of rows = False" by simp
    have pr: "\<And>row. row \<in> set rows \<Longrightarrow> st_start_time row \<noteq> None \<and> st_end_time row \<noteq> None"
      using nf by (auto simp: float_index_of_def list_ex_iff)
    have z: "\<And>k. length (num_trip_starts zero_series k) = num_bins"
      "\<And>k. length (num_trips zero_series k) = num_bins"
      "\<And>k. length (service_duration zero_series k) = num_bins"
      "\<And>k. length (service_distance zero_series k) = num_bins"
      by (simp_all add: zero_series_def)
    have z0: "\<And>k b. b < num_bins \<Longrightarrow> num_trip_starts zero_series k ! b = 0"
      "\<And>k b. b < num_bins \<Longrightarrow> num_trips zero_series k ! b = 0"
      "\<And>k b. b < num_bins \<Longrightarrow> service_duration zero_series k ! b = 0"
      "\<And>k b. b < num_bins \<Longrightarrow> service_distance zero_series k ! b = Some 0"
      by (simp_all add: zero_series_def)
    from bin_trips_loop [OF pr z, of rows split]
    obtain series where e: "bin_trips False split zero_series rows = Inr series"
      and l: "\<And>k. length (num_trip_starts series k) = num_bins
            \<and> length (num_trips series k) = num_bins
            \<and> length (service_duration series k) = num_bins
            \<and> length (service_distance series k) = num_bins"
      and c: "\<And>k b. b < num_bins \<Longrightarrow>
          num_trip_starts series k ! b
            = num_trip_starts zero_series k ! b
              + int (length (filter (\<lambda>row. route_key split row = k
                     \<and> start_bin row \<noteq> end_bin row \<and> start_bin row = b) rows))
        \<and> num_trips series k ! b
            = num_trips zero_series k ! b
              + int (length (filter (\<lambda>row. route_key split row = k \<and> fills row b) rows))
        \<and> service_duration series k ! b
            = service_duration zero_series k ! b
              + of_nat (length (filter (\<lambda>row. route_key split row = k \<and> fills row b) rows)) / 60
        \<and> service_distance series k ! b
            = fold (\<lambda>w acc. add_float acc w)
                (map (\<lambda>row. map_option (\<lambda>d. d / of_nat (num_filled row)) (st_distance row))
                   (filter (\<lambda>row. route_key split row = k \<and> fills row b) rows))
                (service_distance zero_series k ! b)"
      by blast
    have base: "rows \<noteq> [] \<longrightarrow>
             compute_routes_time_series_base rows split freq
               = downsample (combine_time_series
                    (sort_by str_le (remdups (map (route_key split) rows))) series split) freq"
      using e by (simp add: compute_routes_time_series_base_def Let_def fi)
    have bins: "\<forall>k b. b < num_bins \<longrightarrow>
              length (num_trip_starts series k) = num_bins
            \<and> length (num_trips series k) = num_bins
            \<and> length (service_duration series k) = num_bins
            \<and> length (service_distance series k) = num_bins
            \<and> num_trip_starts series k ! b
                = int (length (filter (\<lambda>row. route_key split row = k
                         \<and> start_bin row \<noteq> end_bin row \<and> start_bin row = b) rows))
            \<and> num_trips series k ! b
                = int (length (filter (\<lambda>row. route_key split row = k \<and> fills row b) rows))
            \<and> service_duration series k ! b
                = of_nat (length (filter (\<lambda>row. route_key split row = k \<and> fills row b) rows)) / 60
            \<and> service_distance series k ! b
                = sum_floats (map (\<lambda>row. map_option (\<lambda>d. d / of_nat (num_filled row)) (st_distance row))
                    (filter (\<lambda>row. route_key split row = k \<and> fills row b) rows))"
    proof (intro allI impI)
      fix k b
      assume b: "b < num_bins"
      show "length (num_trip_starts series k) = num_bins
            \<and> length (num_trips series k) = num_bins
            \<and> length (service_duration series k) = num_bins
            \<and> length (service_distance series k) = num_bins
            \<and> num_trip_starts series k ! b
                = int (length (filter (\<lambda>row. route_key split row = k
                         \<and> start_bin row \<noteq> end_bin row \<and> start_bin row = b) rows))
            \<and> num_trips series k ! b
                = int (length (filter (\<lambda>row. route_key split row = k \<and> fills row b) rows))
            \<and> service_duration series k ! b
                = of_nat (length (filter (\<lambda>row. route_key split row = k \<and> fills row b) rows)) / 60
            \<and> service_distance series k ! b
                = sum_floats (map (\<lambda>row. map_option (\<lambda>d. d / of_nat (num_filled row)) (st_distance row))
                    (filter (\<lambda>row. route_key split row = k \<and> fills row b) rows))"
        using l [of k] c [OF b, of k] z0 [OF b, of k] by (simp add: sum_floats_def)
    qed
    show "\<exists>series. bin_trips (float_index_of rows) split zero_series rows = Inr series
        \<and> (rows \<noteq> [] \<longrightarrow>
             compute_routes_time_series_base rows split freq
               = downsample (combine_time_series
                    (sort_by str_le (remdups (map (route_key split) rows))) series split) freq)
        \<and> (\<forall>k b. b < num_bins \<longrightarrow>
              length (num_trip_starts series k) = num_bins
            \<and> length (num_trips series k) = num_bins
            \<and> length (service_duration series k) = num_bins
            \<and> length (service_distance series k) = num_bins
            \<and> num_trip_starts series k ! b
                = int (length (filter (\<lambda>row. route_key split row = k
                         \<and> start_bin row \<noteq> end_bin row \<and> start_bin row = b) rows))
            \<and> num_trips series k ! b
                = int (length (filter (\<lambda>row. route_key split row = k \<and> fills row b) rows))
            \<and> service_duration series k ! b
                = of_nat (length (filter (\<lambda>row. route_key split row = k \<and> fills row b) rows)) / 60
            \<and> service_distance series k ! b
                = sum_floats (map (\<lambda>row. map_option (\<lambda>d. d / of_nat (num_filled row)) (st_distance row))
                    (filter (\<lambda>row. route_key split row = k \<and> fills row b) rows)))"
      unfolding fi using e base bins by (intro exI [of _ series] conjI)
  qed
  have B: "float_index_of rows \<longrightarrow>
        bin_trips (float_index_of rows) split zero_series rows
          = (if list_ex (\<lambda>row. st_start_time row \<noteq> None
                                \<and> F (st_end_time row) \<noteq> F (st_start_time row)) rows
             then Inl TypeError else Inr zero_series)
        \<and> (list_ex (\<lambda>row. st_start_time row \<noteq> None
                              \<and> F (st_end_time row) \<noteq> F (st_start_time row)) rows
             \<longrightarrow> compute_routes_time_series_base rows split freq = Inl TypeError)"
  proof (rule impI)
    assume f: "float_index_of rows"
    then have fi: "float_index_of rows = True" by simp
    have ne: "rows \<noteq> []" using f by (auto simp: float_index_of_def)
    show "bin_trips (float_index_of rows) split zero_series rows
          = (if list_ex (\<lambda>row. st_start_time row \<noteq> None
                                \<and> F (st_end_time row) \<noteq> F (st_start_time row)) rows
             then Inl TypeError else Inr zero_series)
        \<and> (list_ex (\<lambda>row. st_start_time row \<noteq> None
                              \<and> F (st_end_time row) \<noteq> F (st_start_time row)) rows
             \<longrightarrow> compute_routes_time_series_base rows split freq = Inl TypeError)"
      unfolding fi using ne
      by (simp add: bin_trips_float_index compute_routes_time_series_base_def Let_def fi)
  qed
  show ?thesis by (rule conjI [OF A B])
qed

theorem bin_trip_contribution_witness:
  "\<exists>series. bin_trips False False zero_series
        [midnight_trip, same_bin_trip, morning_trip, evening_trip] = Inr series
     \<and> compute_routes_time_series_base [midnight_trip, same_bin_trip, morning_trip, evening_trip]
           False 3600
         = downsample (combine_time_series [''R''] series False) 3600
     \<and> num_trip_starts series ''R'' ! 420 = 1
     \<and> num_trips series ''R'' ! 424 = 1
     \<and> num_trips series ''R'' ! 425 = 0
     \<and> num_trip_starts series ''R'' ! 1436 = 0
     \<and> num_trips series ''R'' ! 1436 = 2
     \<and> service_duration series ''R'' ! 1436 = 2 / 60
     \<and> service_distance series ''R'' ! 1436 = Some (10 / 20 + 5 / 5)
     \<and> num_trips series ''R'' ! 5 = 1
     \<and> service_distance series ''R'' ! 5 = Some (10 / 20)"
proof -
  define rows where "rows = [midnight_trip, same_bin_trip, morning_trip, evening_trip]"
  have nf: "\<not> float_index_of rows"
    by (simp add: rows_def float_index_of_def midnight_trip_def same_bin_trip_def
        morning_trip_def evening_trip_def)
  have ne: "rows \<noteq> []" by (simp add: rows_def)
  have keys: "sort_by str_le (remdups (map (route_key False) rows)) = [''R'']"
    by (simp add: rows_def route_key_def sort_by_def midnight_trip_def same_bin_trip_def
        morning_trip_def evening_trip_def)
  have sb: "start_bin midnight_trip = 1430" "end_bin midnight_trip = 10"
    "start_bin same_bin_trip = 420" "end_bin same_bin_trip = 420"
    "start_bin morning_trip = 420" "end_bin morning_trip = 425"
    "start_bin evening_trip = 1435" "end_bin evening_trip = 0"
    by (simp_all add: start_bin_def end_bin_def midnight_trip_def same_bin_trip_def
        morning_trip_def evening_trip_def)
  have rk: "route_key False midnight_trip = ''R''" "route_key False same_bin_trip = ''R''"
    "route_key False morning_trip = ''R''" "route_key False evening_trip = ''R''"
    by (simp_all add: route_key_def midnight_trip_def same_bin_trip_def
        morning_trip_def evening_trip_def)
  have d: "st_distance midnight_trip = Some 10" "st_distance evening_trip = Some 5"
    by (simp_all add: midnight_trip_def evening_trip_def)
  have nb: "420 < num_bins" "424 < num_bins" "425 < num_bins" "1436 < num_bins" "5 < num_bins"
    by (simp_all add: num_bins_def)
  from bin_trip_contribution [of rows False 3600, THEN conjunct1, rule_format, OF nf]
  obtain series where e: "bin_trips (float_index_of rows) False zero_series rows = Inr series"
    and base: "rows \<noteq> [] \<longrightarrow> compute_routes_time_series_base rows False 3600
               = downsample (combine_time_series
                    (sort_by str_le (remdups (map (route_key False) rows))) series False) 3600"
    and c: "\<And>k b. b < num_bins \<Longrightarrow>
            num_trip_starts series k ! b
                = int (length (filter (\<lambda>row. route_key False row = k
                         \<and> start_bin row \<noteq> end_bin row \<and> start_bin row = b) rows))
            \<and> num_trips series k ! b
                = int (length (filter (\<lambda>row. route_key False row = k \<and> fills row b) rows))
            \<and> service_duration series k ! b
                = of_nat (length (filter (\<lambda>row. route_key False row = k \<and> fills row b) rows)) / 60
            \<and> service_distance series k ! b
                = sum_floats (map (\<lambda>row. map_option (\<lambda>d. d / of_nat (num_filled row)) (st_distance row))
                    (filter (\<lambda>row. route_key False row = k \<and> fills row b) rows))"
    by blast
  have e': "bin_trips False False zero_series rows = Inr series" using e nf by simp
  have base': "compute_routes_time_series_base rows False 3600
         = downsample (combine_time_series [''R''] series False) 3600"
    using base ne keys by simp
  have v: "num_trip_starts series ''R'' ! 420 = 1"
    "num_trips series ''R'' ! 424 = 1"
    "num_trips series ''R'' ! 425 = 0"
    "num_trip_starts series ''R'' ! 1436 = 0"
    "num_trips series ''R'' ! 1436 = 2"
    "service_duration series ''R'' ! 1436 = 2 / 60"
    "service_distance series ''R'' ! 1436 = Some (10 / 20 + 5 / 5)"
    "num_trips series ''R'' ! 5 = 1"
    "service_distance series ''R'' ! 5 = Some (10 / 20)"
    using c [OF nb(1), of "''R''"] c [OF nb(2), of "''R''"] c [OF nb(3), of "''R''"]
      c [OF nb(4), of "''R''"] c [OF nb(5), of "''R''"]
    by (simp_all add: rows_def rk sb d fills_def num_filled_def sum_floats_def add_float_def
        num_bins_def)
  show ?thesis
    unfolding rows_def [symmetric] using e' base' v by blast
qed

lemma insort_by_set: "set (insort_by le x ys) = insert x (set ys)"
  by (induction ys) auto

lemma sort_by_set: "set (sort_by le xs) = set xs"
  unfolding sort_by_def by (induction xs) (simp_all add: insort_by_set)

lemma sortlevel_set: "set (sortlevel cols) = set cols"
  by (simp add: sortlevel_def sort_by_set)

lemma resample_length: "length (resample n k how xs) = num_windows n k (length xs)"
  by (simp add: resample_def)

lemma resample_nth:
  "j < num_windows n k (length xs) \<Longrightarrow> resample n k how xs ! j = how (window n k xs j)"
  by (simp add: resample_def)

lemma window_nonempty:
  assumes n: "0 < n" and nk: "n \<le> k" and j: "j < num_windows n k len"
  shows "\<exists>i < len. (i * n) div k = j"
proof -
  have len: "0 < len" using j by (auto simp: num_windows_def split: if_splits)
  have jl: "j \<le> ((len - 1) * n) div k" using j len by (simp add: num_windows_def)
  have k: "0 < k" using n nk by simp
  have jk: "j * k \<le> (len - 1) * n"
  proof -
    have "j * k \<le> (((len - 1) * n) div k) * k" using jl by (rule mult_le_mono1)
    also have "\<dots> \<le> (len - 1) * n" by (rule div_times_less_eq_dividend)
    finally show ?thesis .
  qed
  define i where "i = (j * k + (n - 1)) div n"
  have up: "i * n \<le> j * k + (n - 1)" unfolding i_def by (rule div_times_less_eq_dividend)
  have "j * k + (n - 1) < (i + 1) * n"
    unfolding i_def using n by (simp add: dividend_less_div_times)
  then have lo: "j * k \<le> i * n" using n by (simp add: algebra_simps)
  have "i * n < j * k + k" using up n nk by simp
  then have "i * n < (j + 1) * k" by (simp add: algebra_simps)
  then have d: "(i * n) div k = j"
    using lo k by (metis Suc_eq_plus1 div_nat_eqI mult.commute)
  have "j * k + (n - 1) \<le> (len - 1) * n + (n - 1)" using jk by simp
  then have "i \<le> ((len - 1) * n + (n - 1)) div n" unfolding i_def by (rule div_le_mono)
  also have "\<dots> = (len - 1) + (n - 1) div n"
    using n by (subst div_mult_self3) simp_all
  also have "\<dots> = len - 1" using n by simp
  finally have "i < len" using len by simp
  then show ?thesis using d by blast
qed

lemma window_set: "set (window n k xs j) \<subseteq> set xs"
  by (auto simp: window_def)

lemma window_Nil_iff: "(window n k xs j = []) = (\<forall>i < length xs. (i * n) div k \<noteq> j)"
  by (auto simp: window_def filter_empty_conv)

lemma present_finite: "list_all (\<lambda>v. v \<noteq> None) ws \<Longrightarrow> present ws = map the ws"
  by (induction ws rule: present.induct) simp_all

lemma sum_present_finite:
  "list_all (\<lambda>v. v \<noteq> None) ws \<Longrightarrow> sum_present ws = Some (sum_list (map the ws))"
  by (simp add: sum_present_def present_finite)

lemma mean_present_finite:
  "list_all (\<lambda>v. v \<noteq> None) ws \<Longrightarrow> ws \<noteq> [] \<Longrightarrow>
   mean_present ws = Some (sum_list (map the ws) / of_nat (length ws))"
  by (cases ws) (auto simp: mean_present_def present_finite split: list.splits)

lemma resample_finite:
  assumes "0 < n" and "n \<le> k" and "list_all (\<lambda>v. v \<noteq> None) xs" and "j < num_windows n k (length xs)"
  shows "resample n k sum_present xs ! j = Some (sum_list (map the (window n k xs j)))"
    and "resample n k mean_present xs ! j
         = Some (sum_list (map the (window n k xs j)) / of_nat (length (window n k xs j)))"
proof -
  have ne: "window n k xs j \<noteq> []"
    using window_nonempty [OF assms(1,2,4)] by (simp add: window_Nil_iff)
  have fin: "list_all (\<lambda>v. v \<noteq> None) (window n k xs j)"
    using assms(3) window_set [of n k xs j] by (auto simp: list_all_iff)
  show "resample n k sum_present xs ! j = Some (sum_list (map the (window n k xs j)))"
    using assms(4) by (simp add: resample_nth sum_present_finite [OF fin])
  show "resample n k mean_present xs ! j
         = Some (sum_list (map the (window n k xs j)) / of_nat (length (window n k xs j)))"
    using assms(4) by (simp add: resample_nth mean_present_finite [OF fin ne])
qed

lemma div_eq_window: "0 < k \<Longrightarrow> ((m::nat) div k = j) = (j * k \<le> m \<and> m < (j + 1) * k)"
proof
  assume k: "0 < k" and "m div k = j"
  then have j: "j = m div k" by simp
  have "(m div k) * k \<le> m" by (rule div_times_less_eq_dividend)
  moreover have "m < k + (m div k) * k" using k by (rule dividend_less_div_times)
  ultimately show "j * k \<le> m \<and> m < (j + 1) * k" unfolding j by (simp add: algebra_simps)
next
  assume k: "0 < k" and b: "j * k \<le> m \<and> m < (j + 1) * k"
  have "k * j \<le> m" using b by (simp add: mult.commute)
  moreover have "m < k * Suc j" using b by (simp add: algebra_simps)
  ultimately show "m div k = j" by (rule div_nat_eqI)
qed

lemma present_map_filter:
  "present (map g xs) = map (\<lambda>i. the (g i)) (filter (\<lambda>i. g i \<noteq> None) xs)"
proof (induction xs)
  case Nil
  then show ?case by simp
next
  case (Cons x xs)
  then show ?case by (cases "g x") simp_all
qed

lemma window_present:
  assumes "0 < k"
  shows "present (window n k v j)
     = map (\<lambda>i. the (v ! i))
         (filter (\<lambda>i. j * k \<le> i * n \<and> i * n < (j + 1) * k \<and> v ! i \<noteq> None) [0 ..< length v])"
  unfolding window_def present_map_filter filter_filter div_eq_window [OF assms]
  by (rule arg_cong [where f = "map (\<lambda>i. the (v ! i))"], rule filter_cong) auto

lemma window_rows:
  "set (filter (\<lambda>i. j * k \<le> i * n \<and> i * n < (j + 1) * k \<and> v ! i \<noteq> None) [0 ..< length v])
   = {i. i < length v \<and> j * k \<le> i * n \<and> i * n < (j + 1) * k \<and> v ! i \<noteq> None}"
  by auto

lemma resample_window:
  assumes k: "0 < k" and j: "j < num_windows n k (length v)"
  defines "rows \<equiv> {i. i < length v \<and> j * k \<le> i * n \<and> i * n < (j + 1) * k \<and> v ! i \<noteq> None}"
  shows "resample n k sum_present v ! j = Some (\<Sum>i \<in> rows. the (v ! i))"
    and "resample n k mean_present v ! j
         = (if rows = {} then None else Some ((\<Sum>i \<in> rows. the (v ! i)) / of_nat (card rows)))"
proof -
  define idx where "idx = filter (\<lambda>i. j * k \<le> i * n \<and> i * n < (j + 1) * k \<and> v ! i \<noteq> None) [0 ..< length v]"
  have d: "distinct idx" by (simp add: idx_def)
  have st: "set idx = rows" unfolding idx_def rows_def by (rule window_rows)
  have p: "present (window n k v j) = map (\<lambda>i. the (v ! i)) idx"
    unfolding idx_def by (rule window_present [OF k])
  have sm: "sum_list (map (\<lambda>i. the (v ! i)) idx) = (\<Sum>i \<in> rows. the (v ! i))"
    using sum_list_distinct_conv_sum_set [OF d, of "\<lambda>i. the (v ! i)"] st by simp
  have ln: "length idx = card rows"
    using distinct_card [OF d] st by simp
  show "resample n k sum_present v ! j = Some (\<Sum>i \<in> rows. the (v ! i))"
    using j by (simp add: resample_nth sum_present_def p sm)
  show "resample n k mean_present v ! j
         = (if rows = {} then None else Some ((\<Sum>i \<in> rows. the (v ! i)) / of_nat (card rows)))"
  proof (cases idx)
    case Nil
    then have "rows = {}" using st by simp
    then show ?thesis using j Nil by (simp add: resample_nth mean_present_def p)
  next
    case (Cons i rest)
    then have ne: "rows \<noteq> {}" using st by auto
    have "mean_present (window n k v j)
          = Some (sum_list (map (\<lambda>i. the (v ! i)) idx) / of_nat (length idx))"
      unfolding mean_present_def p using Cons by simp
    then show ?thesis using j ne by (simp add: resample_nth sm ln)
  qed
qed

lemma select_level_keys:
  "map fst (select_level i cols) = map tl (filter (\<lambda>k. k \<noteq> [] \<and> hd k = i) (map fst cols))"
  by (induction cols) (simp_all add: select_level_def)

lemma select_level_distinct:
  assumes "distinct (map fst cols)"
  shows "distinct (map fst (select_level i cols))"
proof -
  have "inj_on tl (set (filter (\<lambda>k. k \<noteq> [] \<and> hd k = i) (map fst cols)))"
    by (rule inj_onI) (auto intro: list.expand)
  then show ?thesis
    unfolding select_level_keys using assms by (simp add: distinct_map)
qed

lemma speed_columns_mem:
  assumes "distinct (map fst distances)" and "distinct (map fst durations)"
    and "(sub, d) \<in> set distances" and "(sub, u) \<in> set durations"
  shows "(''service_speed'' # sub, map2 float_div d u) \<in> set (speed_columns len distances durations)"
proof -
  have md: "map_of distances sub = Some d" using assms(1,3) by (rule map_of_is_SomeI)
  have mu: "map_of durations sub = Some u" using assms(2,4) by (rule map_of_is_SomeI)
  have "sub \<in> set (remdups (map fst distances @ map fst durations))"
    using assms(3) by force
  then show ?thesis
    unfolding speed_columns_def using md mu by (force simp: image_iff)
qed

lemma indicator_of_hd: "indicator_of multi key = Some i \<Longrightarrow> key \<noteq> [] \<and> hd key = i"
  by (auto simp: indicator_of_def split: if_splits list.splits)

lemma select_level_mem:
  "(key, v) \<in> set cols \<Longrightarrow> key \<noteq> [] \<Longrightarrow> hd key = i \<Longrightarrow> (tl key, v) \<in> set (select_level i cols)"
  by (force simp: select_level_def)

lemma select_level_D:
  "(sub, v) \<in> set (select_level i cols) \<Longrightarrow> (i # sub, v) \<in> set cols"
  by (auto simp: select_level_def)

lemma speed_columns_D:
  assumes "c \<in> set (speed_columns len distances durations)"
  shows "\<exists>sub. fst c = ''service_speed'' # sub
     \<and> ((\<exists>d u. (sub, d) \<in> set distances \<and> (sub, u) \<in> set durations \<and> snd c = map2 float_div d u)
        \<or> snd c = replicate len None)"
  using assms unfolding speed_columns_def
  by (auto split: option.splits dest!: map_of_SomeD) blast+

lemma speed_columns_I:
  "(sub, d) \<in> set distances \<Longrightarrow> \<exists>v. (''service_speed'' # sub, v) \<in> set (speed_columns len distances durations)"
  unfolding speed_columns_def by (force simp: image_iff)

lemma resample_indicators_columns:
  assumes dd: "\<exists>c \<in> set (columns ts). indicator_of multi (fst c) = Some ''service_distance''"
    and du: "\<exists>c \<in> set (columns ts). indicator_of multi (fst c) = Some ''service_duration''"
    and dk: "distinct (map fst (columns ts))"
  shows "\<exists>res. resample_indicators multi ts freq = Inr res
     \<and> column_names res = column_names ts \<and> index_freq res = freq
     \<and> index_length res = num_windows (index_freq ts) freq (index_length ts)
     \<and> (\<forall>c \<in> set (columns ts).
           indicator_of multi (fst c)
             \<in> {Some ''num_trip_starts'', Some ''service_distance'', Some ''service_duration''}
           \<longrightarrow> (fst c, resample (index_freq ts) freq sum_present (snd c)) \<in> set (columns res))
     \<and> (\<forall>c \<in> set (columns ts).
           indicator_of multi (fst c) = Some ''num_trips''
           \<longrightarrow> (fst c, resample (index_freq ts) freq mean_present (snd c)) \<in> set (columns res))
     \<and> (\<forall>c \<in> set (columns res).
           fst c \<noteq> [] \<and> hd (fst c) = ''service_speed''
           \<longrightarrow> (\<exists>d u. (''service_distance'' # tl (fst c), d) \<in> set (columns ts)
                    \<and> (''service_duration'' # tl (fst c), u) \<in> set (columns ts)
                    \<and> snd c = map2 float_div (resample (index_freq ts) freq sum_present d)
                                (resample (index_freq ts) freq sum_present u))
               \<or> snd c = replicate (num_windows (index_freq ts) freq (index_length ts)) None)
     \<and> (\<forall>c \<in> set (columns ts). \<forall>c' \<in> set (columns ts).
           indicator_of multi (fst c) = Some ''service_distance''
           \<and> indicator_of multi (fst c') = Some ''service_duration'' \<and> tl (fst c) = tl (fst c')
           \<longrightarrow> (''service_speed'' # tl (fst c),
                map2 float_div (resample (index_freq ts) freq sum_present (snd c))
                  (resample (index_freq ts) freq sum_present (snd c'))) \<in> set (columns res))"
proof -
  define n where "n = index_freq ts"
  define S where "S = {Some ''num_trip_starts'', Some ''service_distance'', Some ''service_duration''}"
  define summed where "summed = filter (\<lambda>c. indicator_of multi (fst c) \<in> S) (columns ts)"
  define averaged where "averaged = filter (\<lambda>c. indicator_of multi (fst c) = Some ''num_trips'') (columns ts)"
  define f where "f = map (\<lambda>c. (fst c, resample n freq sum_present (snd c))) summed
              @ map (\<lambda>c. (fst c, resample n freq mean_present (snd c))) averaged"
  define distances where "distances = select_level ''service_distance'' f"
  define durations where "durations = select_level ''service_duration'' f"
  define len where "len = num_windows n freq (index_length ts)"
  define result where "result = f @ speed_columns len distances durations"
  define res where "res = \<lparr>column_names = column_names ts, index_freq = freq, index_length = len,
                    columns = (if multi then sortlevel result else result)\<rparr>"
  have f_sum: "(fst c, resample n freq sum_present (snd c)) \<in> set f"
    if "c \<in> set (columns ts)" "indicator_of multi (fst c) \<in> S" for c
    using that by (auto simp: f_def summed_def)
  have f_mean: "(fst c, resample n freq mean_present (snd c)) \<in> set f"
    if "c \<in> set (columns ts)" "indicator_of multi (fst c) = Some ''num_trips''" for c
    using that by (force simp: f_def averaged_def)
  have f_D: "\<exists>c0 \<in> set (columns ts). key = fst c0
      \<and> ((indicator_of multi key \<in> S \<and> v = resample n freq sum_present (snd c0))
         \<or> (indicator_of multi key = Some ''num_trips'' \<and> v = resample n freq mean_present (snd c0)))"
    if "(key, v) \<in> set f" for key v
    using that by (auto simp: f_def summed_def averaged_def)
  have f_level: "\<exists>v0. (i # sub, v0) \<in> set (columns ts) \<and> v = resample n freq sum_present v0"
    if "(i # sub, v) \<in> set f" "i \<noteq> ''num_trips''" for i sub v
  proof -
    from f_D [OF that(1)] obtain c0 where c0: "c0 \<in> set (columns ts)" "i # sub = fst c0"
      and alt: "(indicator_of multi (i # sub) \<in> S \<and> v = resample n freq sum_present (snd c0))
         \<or> (indicator_of multi (i # sub) = Some ''num_trips'' \<and> v = resample n freq mean_present (snd c0))"
      by blast
    have "indicator_of multi (i # sub) \<noteq> Some ''num_trips''"
      using that(2) by (auto simp: indicator_of_def split: list.splits)
    then have "v = resample n freq sum_present (snd c0)" using alt by blast
    moreover have "(i # sub, snd c0) \<in> set (columns ts)" using c0 by (metis prod.collapse)
    ultimately show ?thesis by blast
  qed
  have f_heads: "hd key \<noteq> ''service_speed''" if "(key, v) \<in> set f" for key v
  proof -
    from f_D [OF that] have "indicator_of multi key \<in> S \<or> indicator_of multi key = Some ''num_trips''"
      by blast
    then consider "indicator_of multi key = Some ''num_trip_starts''"
      | "indicator_of multi key = Some ''service_distance''"
      | "indicator_of multi key = Some ''service_duration''"
      | "indicator_of multi key = Some ''num_trips''"
      by (auto simp: S_def)
    then show ?thesis
      by cases (auto dest!: indicator_of_hd)
  qed
  obtain cd where cd: "cd \<in> set (columns ts)" "indicator_of multi (fst cd) = Some ''service_distance''"
    using dd by blast
  obtain cu where cu: "cu \<in> set (columns ts)" "indicator_of multi (fst cu) = Some ''service_duration''"
    using du by blast
  have dist_mem: "(tl (fst c), resample n freq sum_present (snd c)) \<in> set distances"
    if "c \<in> set (columns ts)" "indicator_of multi (fst c) = Some ''service_distance''" for c
    unfolding distances_def
    using f_sum [OF that(1)] that(2) indicator_of_hd [OF that(2)]
    by (intro select_level_mem) (simp_all add: S_def)
  have dur_mem: "(tl (fst c), resample n freq sum_present (snd c)) \<in> set durations"
    if "c \<in> set (columns ts)" "indicator_of multi (fst c) = Some ''service_duration''" for c
    unfolding durations_def
    using f_sum [OF that(1)] that(2) indicator_of_hd [OF that(2)]
    by (intro select_level_mem) (simp_all add: S_def)
  have ne: "distances \<noteq> []" "durations \<noteq> []"
    using dist_mem [OF cd] dur_mem [OF cu] by auto
  have eq: "resample_indicators multi ts freq = Inr res"
    using ne
    by (simp add: resample_indicators_def Let_def n_def [symmetric] S_def [symmetric]
        summed_def [symmetric] averaged_def [symmetric] f_def [symmetric]
        distances_def [symmetric] durations_def [symmetric] len_def [symmetric]
        result_def [symmetric] res_def)
  have cols: "set (columns res) = set f \<union> set (speed_columns len distances durations)"
    by (simp add: res_def result_def sortlevel_set)
  have speed: "(\<exists>d u. (''service_distance'' # tl (fst c), d) \<in> set (columns ts)
                    \<and> (''service_duration'' # tl (fst c), u) \<in> set (columns ts)
                    \<and> snd c = map2 float_div (resample n freq sum_present d)
                                (resample n freq sum_present u))
               \<or> snd c = replicate len None"
    if c: "c \<in> set (columns res)" and h: "fst c \<noteq> []" "hd (fst c) = ''service_speed''" for c
  proof -
    have "c \<notin> set f" using f_heads [of "fst c" "snd c"] h by auto
    then have "c \<in> set (speed_columns len distances durations)" using c cols by blast
    from speed_columns_D [OF this] obtain sub where sub: "fst c = ''service_speed'' # sub"
      and alt: "(\<exists>d u. (sub, d) \<in> set distances \<and> (sub, u) \<in> set durations \<and> snd c = map2 float_div d u)
        \<or> snd c = replicate len None"
      by blast
    show ?thesis
    proof (cases "snd c = replicate len None")
      case True
      then show ?thesis by simp
    next
      case False
      then obtain d u where d: "(sub, d) \<in> set distances" and u: "(sub, u) \<in> set durations"
        and q: "snd c = map2 float_div d u"
        using alt by blast
      have fd: "(''service_distance'' # sub, d) \<in> set f"
        using d unfolding distances_def by (rule select_level_D)
      have nd: "''service_distance'' \<noteq> ''num_trips''" by simp
      from f_level [OF fd nd] obtain d0 where d0: "(''service_distance'' # sub, d0) \<in> set (columns ts)"
        "d = resample n freq sum_present d0"
        by blast
      have fu: "(''service_duration'' # sub, u) \<in> set f"
        using u unfolding durations_def by (rule select_level_D)
      have nu: "''service_duration'' \<noteq> ''num_trips''" by simp
      from f_level [OF fu nu] obtain u0 where u0: "(''service_duration'' # sub, u0) \<in> set (columns ts)"
        "u = resample n freq sum_present u0"
        by blast
      have "tl (fst c) = sub" using sub by simp
      then show ?thesis using d0 u0 q by blast
    qed
  qed
  have kf: "map fst f = map fst summed @ map fst averaged"
    by (simp add: f_def comp_def)
  have "set (map fst summed) \<inter> set (map fst averaged) = {}"
    by (auto simp: summed_def averaged_def S_def)
  then have df: "distinct (map fst f)"
    unfolding kf using dk by (simp add: summed_def averaged_def distinct_map_filter)
  have dd': "distinct (map fst distances)" "distinct (map fst durations)"
    unfolding distances_def durations_def by (rule select_level_distinct [OF df])+
  have speed_mem: "(''service_speed'' # tl (fst c),
        map2 float_div (resample n freq sum_present (snd c)) (resample n freq sum_present (snd c')))
      \<in> set (columns res)"
    if "c \<in> set (columns ts)" "indicator_of multi (fst c) = Some ''service_distance''"
      "c' \<in> set (columns ts)" "indicator_of multi (fst c') = Some ''service_duration''"
      "tl (fst c) = tl (fst c')" for c c'
  proof -
    have 1: "(tl (fst c), resample n freq sum_present (snd c)) \<in> set distances"
      by (rule dist_mem [OF that(1,2)])
    have 2: "(tl (fst c), resample n freq sum_present (snd c')) \<in> set durations"
      using dur_mem [OF that(3,4)] that(5) by simp
    show ?thesis
      using speed_columns_mem [OF dd' 1 2, of len] cols by blast
  qed
  have hdr: "column_names res = column_names ts" "index_freq res = freq" "index_length res = len"
    by (simp_all add: res_def)
  have c1: "\<forall>c \<in> set (columns ts). indicator_of multi (fst c) \<in> S
      \<longrightarrow> (fst c, resample n freq sum_present (snd c)) \<in> set (columns res)"
    using f_sum cols by blast
  have c2: "\<forall>c \<in> set (columns ts). indicator_of multi (fst c) = Some ''num_trips''
      \<longrightarrow> (fst c, resample n freq mean_present (snd c)) \<in> set (columns res)"
    using f_mean cols by blast
  have c3: "\<forall>c \<in> set (columns res). fst c \<noteq> [] \<and> hd (fst c) = ''service_speed''
      \<longrightarrow> (\<exists>d u. (''service_distance'' # tl (fst c), d) \<in> set (columns ts)
                    \<and> (''service_duration'' # tl (fst c), u) \<in> set (columns ts)
                    \<and> snd c = map2 float_div (resample n freq sum_present d)
                                (resample n freq sum_present u))
               \<or> snd c = replicate len None"
    using speed by blast
  have c4: "\<forall>c \<in> set (columns ts). \<forall>c' \<in> set (columns ts).
           indicator_of multi (fst c) = Some ''service_distance''
           \<and> indicator_of multi (fst c') = Some ''service_duration'' \<and> tl (fst c) = tl (fst c')
           \<longrightarrow> (''service_speed'' # tl (fst c),
                map2 float_div (resample n freq sum_present (snd c))
                  (resample n freq sum_present (snd c'))) \<in> set (columns res)"
    using speed_mem by blast
  show ?thesis
    unfolding n_def [symmetric] len_def [symmetric] S_def [symmetric]
    using eq hdr c1 c2 c3 c4 by (intro exI [of _ res] conjI)
qed

text \<open>
  C5. \<^verbatim>\<open>downsample\<close> returns an empty series, and a series whose frequency is
  coarser than the target, as it is. Otherwise, for a routes or a feed series with
  distance and duration columns and no two columns of the same labels, the result has the
  target frequency and holds: every column of the trip starts, the service distance and
  the service duration, summed per window; every column of the number of trips, averaged
  per window; for every distance column and the duration column of the same labels, the
  speed column of these labels, which is the quotient, window by window, of the summed
  distance and the summed duration; and no other speed column but such quotients (or NaN
  for labels without duration column). The window \<open>j\<close> of the new index holds the fine
  rows \<open>i\<close> whose time \<open>i * n\<close> lies from \<open>j * freq\<close> up to, and without,
  \<open>(j + 1) * freq\<close>: the sum is the sum of the values of these rows that are not missing,
  and the mean is that sum divided by their number.
\<close>

theorem downsample_rules:
  fixes ts :: time_series and freq :: nat
  defines "multi \<equiv> ''route_id'' \<in> set (column_names ts)"
  defines "n \<equiv> index_freq ts"
  defines "rows \<equiv> (\<lambda>v j. {i. i < length v \<and> j * freq \<le> i * n \<and> i * n < (j + 1) * freq
                              \<and> v ! i \<noteq> None})"
  shows "(ts_empty ts \<or> (0 < freq \<and> freq < n) \<longrightarrow> downsample ts freq = Inr ts)
   \<and> (\<not> ts_empty ts \<and> 0 < n \<and> n \<le> freq
        \<and> (multi \<or> ''stop_id'' \<notin> set (column_names ts))
        \<and> (\<exists>c \<in> set (columns ts). indicator_of multi (fst c) = Some ''service_distance'')
        \<and> (\<exists>c \<in> set (columns ts). indicator_of multi (fst c) = Some ''service_duration'')
        \<and> distinct (map fst (columns ts))
      \<longrightarrow> (\<exists>res. downsample ts freq = Inr res
             \<and> column_names res = column_names ts \<and> index_freq res = freq
             \<and> index_length res = num_windows n freq (index_length ts)
             \<and> (\<forall>c \<in> set (columns ts).
                   indicator_of multi (fst c)
                     \<in> {Some ''num_trip_starts'', Some ''service_distance'', Some ''service_duration''}
                   \<longrightarrow> (fst c, resample n freq sum_present (snd c)) \<in> set (columns res))
             \<and> (\<forall>c \<in> set (columns ts).
                   indicator_of multi (fst c) = Some ''num_trips''
                   \<longrightarrow> (fst c, resample n freq mean_present (snd c)) \<in> set (columns res))
             \<and> (\<forall>c \<in> set (columns res).
                   fst c \<noteq> [] \<and> hd (fst c) = ''service_speed''
                   \<longrightarrow> (\<exists>d u. (''service_distance'' # tl (fst c), d) \<in> set (columns ts)
                            \<and> (''service_duration'' # tl (fst c), u) \<in> set (columns ts)
                            \<and> snd c = map2 float_div (resample n freq sum_present d)
                                        (resample n freq sum_present u))
                       \<or> snd c = replicate (num_windows n freq (index_length ts)) None)
             \<and> (\<forall>c \<in> set (columns ts). \<forall>c' \<in> set (columns ts).
                   indicator_of multi (fst c) = Some ''service_distance''
                   \<and> indicator_of multi (fst c') = Some ''service_duration''
                   \<and> tl (fst c) = tl (fst c')
                   \<longrightarrow> (''service_speed'' # tl (fst c),
                        map2 float_div (resample n freq sum_present (snd c))
                          (resample n freq sum_present (snd c'))) \<in> set (columns res))))
   \<and> (0 < freq \<and> j < num_windows n freq (length v)
      \<longrightarrow> resample n freq sum_present v ! j = Some (\<Sum>i \<in> rows v j. the (v ! i))
          \<and> resample n freq mean_present v ! j
              = (if rows v j = {} then None
                 else Some ((\<Sum>i \<in> rows v j. the (v ! i)) / of_nat (card (rows v j))))
          \<and> (j < length (resample n freq sum_present d) \<and> j < length (resample n freq sum_present u)
               \<longrightarrow> map2 float_div (resample n freq sum_present d) (resample n freq sum_present u) ! j
                   = float_div (Some (\<Sum>i \<in> rows d j. the (d ! i)))
                       (Some (\<Sum>i \<in> rows u j. the (u ! i)))))"
proof -
  have A: "ts_empty ts \<or> (0 < freq \<and> freq < n) \<longrightarrow> downsample ts freq = Inr ts"
    by (auto simp: downsample_def n_def)
  have B: "\<not> ts_empty ts \<and> 0 < n \<and> n \<le> freq
        \<and> (multi \<or> ''stop_id'' \<notin> set (column_names ts))
        \<and> (\<exists>c \<in> set (columns ts). indicator_of multi (fst c) = Some ''service_distance'')
        \<and> (\<exists>c \<in> set (columns ts). indicator_of multi (fst c) = Some ''service_duration'')
        \<and> distinct (map fst (columns ts))
      \<longrightarrow> (\<exists>res. downsample ts freq = Inr res
             \<and> column_names res = column_names ts \<and> index_freq res = freq
             \<and> index_length res = num_windows n freq (index_length ts)
             \<and> (\<forall>c \<in> set (columns ts).
                   indicator_of multi (fst c)
                     \<in> {Some ''num_trip_starts'', Some ''service_distance'', Some ''service_duration''}
                   \<longrightarrow> (fst c, resample n freq sum_present (snd c)) \<in> set (columns res))
             \<and> (\<forall>c \<in> set (columns ts).
                   indicator_of multi (fst c) = Some ''num_trips''
                   \<longrightarrow> (fst c, resample n freq mean_present (snd c)) \<in> set (columns res))
             \<and> (\<forall>c \<in> set (columns res).
                   fst c \<noteq> [] \<and> hd (fst c) = ''service_speed''
                   \<longrightarrow> (\<exists>d u. (''service_distance'' # tl (fst c), d) \<in> set (columns ts)
                            \<and> (''service_duration'' # tl (fst c), u) \<in> set (columns ts)
                            \<and> snd c = map2 float_div (resample n freq sum_present d)
                                        (resample n freq sum_present u))
                       \<or> snd c = replicate (num_windows n freq (index_length ts)) None)
             \<and> (\<forall>c \<in> set (columns ts). \<forall>c' \<in> set (columns ts).
                   indicator_of multi (fst c) = Some ''service_distance''
                   \<and> indicator_of multi (fst c') = Some ''service_duration''
                   \<and> tl (fst c) = tl (fst c')
                   \<longrightarrow> (''service_speed'' # tl (fst c),
                        map2 float_div (resample n freq sum_present (snd c))
                          (resample n freq sum_present (snd c'))) \<in> set (columns res)))"
  proof (rule impI)
    assume a: "\<not> ts_empty ts \<and> 0 < n \<and> n \<le> freq
        \<and> (multi \<or> ''stop_id'' \<notin> set (column_names ts))
        \<and> (\<exists>c \<in> set (columns ts). indicator_of multi (fst c) = Some ''service_distance'')
        \<and> (\<exists>c \<in> set (columns ts). indicator_of multi (fst c) = Some ''service_duration'')
        \<and> distinct (map fst (columns ts))"
    then have e: "downsample ts freq = resample_indicators multi ts freq"
      by (auto simp: downsample_def n_def multi_def)
    have dd: "\<exists>c \<in> set (columns ts). indicator_of multi (fst c) = Some ''service_distance''"
      and du: "\<exists>c \<in> set (columns ts). indicator_of multi (fst c) = Some ''service_duration''"
      and dk: "distinct (map fst (columns ts))"
      using a by blast+
    show "\<exists>res. downsample ts freq = Inr res
             \<and> column_names res = column_names ts \<and> index_freq res = freq
             \<and> index_length res = num_windows n freq (index_length ts)
             \<and> (\<forall>c \<in> set (columns ts).
                   indicator_of multi (fst c)
                     \<in> {Some ''num_trip_starts'', Some ''service_distance'', Some ''service_duration''}
                   \<longrightarrow> (fst c, resample n freq sum_present (snd c)) \<in> set (columns res))
             \<and> (\<forall>c \<in> set (columns ts).
                   indicator_of multi (fst c) = Some ''num_trips''
                   \<longrightarrow> (fst c, resample n freq mean_present (snd c)) \<in> set (columns res))
             \<and> (\<forall>c \<in> set (columns res).
                   fst c \<noteq> [] \<and> hd (fst c) = ''service_speed''
                   \<longrightarrow> (\<exists>d u. (''service_distance'' # tl (fst c), d) \<in> set (columns ts)
                            \<and> (''service_duration'' # tl (fst c), u) \<in> set (columns ts)
                            \<and> snd c = map2 float_div (resample n freq sum_present d)
                                        (resample n freq sum_present u))
                       \<or> snd c = replicate (num_windows n freq (index_length ts)) None)
             \<and> (\<forall>c \<in> set (columns ts). \<forall>c' \<in> set (columns ts).
                   indicator_of multi (fst c) = Some ''service_distance''
                   \<and> indicator_of multi (fst c') = Some ''service_duration''
                   \<and> tl (fst c) = tl (fst c')
                   \<longrightarrow> (''service_speed'' # tl (fst c),
                        map2 float_div (resample n freq sum_present (snd c))
                          (resample n freq sum_present (snd c'))) \<in> set (columns res))"
      unfolding e n_def by (rule resample_indicators_columns [OF dd du dk])
  qed
  have C: "0 < freq \<and> j < num_windows n freq (length v)
      \<longrightarrow> resample n freq sum_present v ! j = Some (\<Sum>i \<in> rows v j. the (v ! i))
          \<and> resample n freq mean_present v ! j
              = (if rows v j = {} then None
                 else Some ((\<Sum>i \<in> rows v j. the (v ! i)) / of_nat (card (rows v j))))
          \<and> (j < length (resample n freq sum_present d) \<and> j < length (resample n freq sum_present u)
               \<longrightarrow> map2 float_div (resample n freq sum_present d) (resample n freq sum_present u) ! j
                   = float_div (Some (\<Sum>i \<in> rows d j. the (d ! i)))
                       (Some (\<Sum>i \<in> rows u j. the (u ! i))))"
  proof (rule impI)
    assume a: "0 < freq \<and> j < num_windows n freq (length v)"
    then have k: "0 < freq" and j: "j < num_windows n freq (length v)" by simp_all
    have 1: "resample n freq sum_present v ! j = Some (\<Sum>i \<in> rows v j. the (v ! i))"
      unfolding rows_def by (rule resample_window(1) [OF k j])
    have 2: "resample n freq mean_present v ! j
              = (if rows v j = {} then None
                 else Some ((\<Sum>i \<in> rows v j. the (v ! i)) / of_nat (card (rows v j))))"
      unfolding rows_def by (rule resample_window(2) [OF k j])
    have 3: "j < length (resample n freq sum_present d) \<and> j < length (resample n freq sum_present u)
               \<longrightarrow> map2 float_div (resample n freq sum_present d) (resample n freq sum_present u) ! j
                   = float_div (Some (\<Sum>i \<in> rows d j. the (d ! i)))
                       (Some (\<Sum>i \<in> rows u j. the (u ! i)))"
    proof (rule impI)
      assume l: "j < length (resample n freq sum_present d) \<and> j < length (resample n freq sum_present u)"
      then have jd: "j < num_windows n freq (length d)" and ju: "j < num_windows n freq (length u)"
        by (simp_all add: resample_length)
      have "resample n freq sum_present d ! j = Some (\<Sum>i \<in> rows d j. the (d ! i))"
        unfolding rows_def by (rule resample_window(1) [OF k jd])
      moreover have "resample n freq sum_present u ! j = Some (\<Sum>i \<in> rows u j. the (u ! i))"
        unfolding rows_def by (rule resample_window(1) [OF k ju])
      ultimately show "map2 float_div (resample n freq sum_present d) (resample n freq sum_present u) ! j
                   = float_div (Some (\<Sum>i \<in> rows d j. the (d ! i)))
                       (Some (\<Sum>i \<in> rows u j. the (u ! i)))"
        using l by simp
    qed
    show "resample n freq sum_present v ! j = Some (\<Sum>i \<in> rows v j. the (v ! i))
          \<and> resample n freq mean_present v ! j
              = (if rows v j = {} then None
                 else Some ((\<Sum>i \<in> rows v j. the (v ! i)) / of_nat (card (rows v j))))
          \<and> (j < length (resample n freq sum_present d) \<and> j < length (resample n freq sum_present u)
               \<longrightarrow> map2 float_div (resample n freq sum_present d) (resample n freq sum_present u) ! j
                   = float_div (Some (\<Sum>i \<in> rows d j. the (d ! i)))
                       (Some (\<Sum>i \<in> rows u j. the (u ! i))))"
      by (rule conjI [OF 1 conjI [OF 2 3]])
  qed
  show ?thesis by (rule conjI [OF A conjI [OF B C]])
qed

theorem downsample_rules_witness:
  "downsample small_series 30 = Inr small_series
   \<and> (\<exists>res. downsample small_series 120 = Inr res
        \<and> index_freq res = 120 \<and> index_length res = 2
        \<and> ([''service_distance'', ''R''], [Some (1 + 2), Some (3 + 1)]) \<in> set (columns res)
        \<and> ([''service_duration'', ''R''], [Some (1 / 60 + 1 / 60), Some (2 / 60 + 1 / 60)])
            \<in> set (columns res)
        \<and> ([''num_trips'', ''R''], [Some ((1 + 1) / 2), Some ((2 + 1) / 2)]) \<in> set (columns res)
        \<and> ([''service_speed'', ''R''], [Some (3 / (2 / 60)), Some (4 / (3 / 60))])
            \<in> set (columns res))
   \<and> resample 60 120 sum_present [Some 1, Some 2, None, Some 1] ! 1 = Some 1
   \<and> resample 60 120 mean_present [Some 1, Some 2, None, Some 1] ! 1 = Some (1 / 1)"
proof -
  have u: "downsample small_series 30 = Inr small_series"
    using downsample_rules [where ts = small_series and freq = 30] by (simp add: small_series_def)
  have s: "index_freq small_series = 60" "index_length small_series = 4"
    "column_names small_series = [''indicator'', ''route_id'']"
    "columns small_series =
        [([''num_trip_starts'', ''R''], [Some 1, Some 0, Some 1, Some 0]),
         ([''num_trips'', ''R''], [Some 1, Some 1, Some 2, Some 1]),
         ([''service_duration'', ''R''], [Some (1 / 60), Some (1 / 60), Some (2 / 60), Some (1 / 60)]),
         ([''service_distance'', ''R''], [Some 1, Some 2, Some 3, Some 1])]"
    by (simp_all add: small_series_def)
  have h: "\<not> ts_empty small_series \<and> 0 < index_freq small_series \<and> index_freq small_series \<le> 120
        \<and> (''route_id'' \<in> set (column_names small_series)
           \<or> ''stop_id'' \<notin> set (column_names small_series))
        \<and> (\<exists>c \<in> set (columns small_series).
              indicator_of (''route_id'' \<in> set (column_names small_series)) (fst c)
                = Some ''service_distance'')
        \<and> (\<exists>c \<in> set (columns small_series).
              indicator_of (''route_id'' \<in> set (column_names small_series)) (fst c)
                = Some ''service_duration'')
        \<and> distinct (map fst (columns small_series))"
    by (simp add: s ts_empty_def indicator_of_def)
  have r: "resample 60 120 sum_present [Some 1, Some 2, Some 3, Some 1] = [Some 3, Some 4]"
    "resample 60 120 sum_present [Some (1 / 60), Some (1 / 60), Some (1 / 30), Some (1 / 60)]
       = [Some (1 / 30), Some (1 / 20)]"
    "resample 60 120 mean_present [Some 1, Some 1, Some 2, Some 1] = [Some 1, Some (3 / 2)]"
    "num_windows 60 120 4 = 2"
    by code_simp+
  from downsample_rules [where ts = small_series and freq = 120, THEN conjunct2, THEN conjunct1, rule_format, OF h]
  obtain res where e: "downsample small_series 120 = Inr res"
    and f: "index_freq res = 120"
    and l: "index_length res = num_windows (index_freq small_series) 120 (index_length small_series)"
    and c1: "\<forall>c \<in> set (columns small_series).
                   indicator_of (''route_id'' \<in> set (column_names small_series)) (fst c)
                     \<in> {Some ''num_trip_starts'', Some ''service_distance'', Some ''service_duration''}
                   \<longrightarrow> (fst c, resample (index_freq small_series) 120 sum_present (snd c))
                        \<in> set (columns res)"
    and c2: "\<forall>c \<in> set (columns small_series).
                   indicator_of (''route_id'' \<in> set (column_names small_series)) (fst c) = Some ''num_trips''
                   \<longrightarrow> (fst c, resample (index_freq small_series) 120 mean_present (snd c))
                        \<in> set (columns res)"
    and c4: "\<forall>c \<in> set (columns small_series). \<forall>c' \<in> set (columns small_series).
                   indicator_of (''route_id'' \<in> set (column_names small_series)) (fst c)
                     = Some ''service_distance''
                   \<and> indicator_of (''route_id'' \<in> set (column_names small_series)) (fst c')
                     = Some ''service_duration''
                   \<and> tl (fst c) = tl (fst c')
                   \<longrightarrow> (''service_speed'' # tl (fst c),
                        map2 float_div (resample (index_freq small_series) 120 sum_present (snd c))
                          (resample (index_freq small_series) 120 sum_present (snd c')))
                       \<in> set (columns res)"
    by blast
  have m1: "([''service_distance'', ''R''], [Some (1 + 2), Some (3 + 1)]) \<in> set (columns res)"
    using c1 [rule_format, of "([''service_distance'', ''R''], [Some 1, Some 2, Some 3, Some 1])"]
    by (simp add: s indicator_of_def r)
  have m2: "([''service_duration'', ''R''], [Some (1 / 60 + 1 / 60), Some (2 / 60 + 1 / 60)])
            \<in> set (columns res)"
    using c1 [rule_format, of "([''service_duration'', ''R''],
        [Some (1 / 60), Some (1 / 60), Some (2 / 60), Some (1 / 60)])"]
    by (simp add: s indicator_of_def r)
  have m3: "([''num_trips'', ''R''], [Some ((1 + 1) / 2), Some ((2 + 1) / 2)]) \<in> set (columns res)"
    using c2 [rule_format, of "([''num_trips'', ''R''], [Some 1, Some 1, Some 2, Some 1])"]
    by (simp add: s indicator_of_def r)
  have m4: "([''service_speed'', ''R''], [Some (3 / (2 / 60)), Some (4 / (3 / 60))])
            \<in> set (columns res)"
    using c4 [rule_format, of "([''service_distance'', ''R''], [Some 1, Some 2, Some 3, Some 1])"
        "([''service_duration'', ''R''], [Some (1 / 60), Some (1 / 60), Some (2 / 60), Some (1 / 60)])"]
    by (simp add: s indicator_of_def r float_div_def fdiv_def)
  have nw: "(1::nat) < num_windows 60 120 (length [Some 1, Some 2, None, Some (1::rat)])"
    by (simp add: num_windows_def)
  have rw: "{i. i < length [Some 1, Some 2, None, Some (1::rat)] \<and> 1 * 120 \<le> i * 60
              \<and> i * 60 < (1 + 1) * 120 \<and> [Some 1, Some 2, None, Some (1::rat)] ! i \<noteq> None} = {3}"
  proof -
    have "\<And>i. i < 4 \<Longrightarrow> i \<in> {0, 1, 2, 3::nat}" by auto
    then show ?thesis by (auto simp: nth_Cons')
  qed
  have w: "resample 60 120 sum_present [Some 1, Some 2, None, Some 1] ! 1 = Some 1
     \<and> resample 60 120 mean_present [Some 1, Some 2, None, Some 1] ! 1 = Some (1 / 1)"
    using downsample_rules [where ts = small_series and freq = 120 and j = 1
          and v = "[Some 1, Some 2, None, Some 1]",
        THEN conjunct2, THEN conjunct2] nw
    unfolding s rw by simp
  have "index_length res = 2" using l by (simp add: s r)
  then show ?thesis using u e f m1 m2 m3 m4 w by blast
qed

end
